(* ===== verification/Go_Prelude.thy ===== *)
theory Go_Prelude
  imports Main "HOL-Library.AList" "HOL-Library.Multiset"
begin

text \<open>
  The part of the Go language and of its standard library that the manager uses and that every
  component shares: 64-bit integers with their wrap-around, times and durations in nanoseconds,
  byte strings with the functions of packages strings, strconv and regexp that the sources call,
  Go maps as association lists, and sort.Slice.

  Conventions.  A Go string is a list of bytes, which is what Isabelle's \<^typ>\<open>string\<close> is.
  A Go \<^verbatim>\<open>int\<close> is an \<^typ>\<open>int\<close>; where a sum can leave the 64-bit range the
  wrap-around is written out with \<open>wrap64\<close>.  A Go map is an association list whose order
  stands for the iteration order, which Go leaves open: a statement about all states is therefore a
  statement about all iteration orders.  A \<^verbatim>\<open>time.Time\<close> is the number of nanoseconds since
  Go's zero time, so that \<^verbatim>\<open>IsZero\<close> is \<open>t = 0\<close>.
\<close>

section \<open>Fact collections\<close>

named_theorems go_string "evaluation and shape of the string functions"
named_theorems go_map "association lists as Go maps"
named_theorems go_sort "facts about sort.Slice"

section \<open>Integers, times, errors\<close>

type_synonym time = int
type_synonym duration = int
type_synonym error = string
type_synonym ('k, 'v) gomap = "('k \<times> 'v) list"

definition wrap64 :: "int \<Rightarrow> int" where
  "wrap64 x = (x + 9223372036854775808) mod 18446744073709551616 - 9223372036854775808"

definition in_int64 :: "int \<Rightarrow> bool" where
  "in_int64 x \<longleftrightarrow> - 9223372036854775808 \<le> x \<and> x \<le> 9223372036854775807"

lemma wrap64_id [simp]: "in_int64 x \<Longrightarrow> wrap64 x = x"
  by (simp add: wrap64_def in_int64_def)

lemma wrap64_range: "in_int64 (wrap64 x)"
  unfolding wrap64_def in_int64_def
  using pos_mod_bound [of 18446744073709551616 "x + 9223372036854775808"]
    pos_mod_sign [of 18446744073709551616 "x + 9223372036854775808"] by simp

definition millisecond :: duration where "millisecond = 1000000"
definition second :: duration where "second = 1000000000"
definition minute :: duration where "minute = 60000000000"
definition hour :: duration where "hour = 3600000000000"

lemmas duration_defs = millisecond_def second_def minute_def hour_def

section \<open>Bytes and character classes\<close>

definition is_upper :: "char \<Rightarrow> bool" where
  "is_upper c \<longleftrightarrow> 65 \<le> (of_char c :: nat) \<and> (of_char c :: nat) \<le> 90"

definition is_lower :: "char \<Rightarrow> bool" where
  "is_lower c \<longleftrightarrow> 97 \<le> (of_char c :: nat) \<and> (of_char c :: nat) \<le> 122"

definition is_digit :: "char \<Rightarrow> bool" where
  "is_digit c \<longleftrightarrow> 48 \<le> (of_char c :: nat) \<and> (of_char c :: nat) \<le> 57"

definition is_letter :: "char \<Rightarrow> bool" where
  "is_letter c \<longleftrightarrow> is_upper c \<or> is_lower c"

definition is_hex :: "char \<Rightarrow> bool" where
  "is_hex c \<longleftrightarrow> is_digit c \<or> (65 \<le> (of_char c :: nat) \<and> (of_char c :: nat) \<le> 70)
     \<or> (97 \<le> (of_char c :: nat) \<and> (of_char c :: nat) \<le> 102)"

definition is_word_char :: "char \<Rightarrow> bool" where
  "is_word_char c \<longleftrightarrow> is_letter c \<or> is_digit c \<or> c = CHR ''_''"

definition lower_byte :: "char \<Rightarrow> char" where
  "lower_byte c = (if is_upper c then char_of ((of_char c :: nat) + 32) else c)"

definition upper_byte :: "char \<Rightarrow> char" where
  "upper_byte c = (if is_lower c then char_of ((of_char c :: nat) - 32) else c)"

lemmas char_class_defs = is_upper_def is_lower_def is_digit_def is_letter_def is_hex_def

lemma of_char_of_small: "n < 256 \<Longrightarrow> (of_char (char_of n :: char) :: nat) = n"
  by simp

lemma lower_byte_lower [simp]: "is_lower c \<Longrightarrow> lower_byte c = c"
  by (simp add: lower_byte_def is_lower_def is_upper_def)

lemma lower_byte_is_lower: "is_letter c \<Longrightarrow> is_lower (lower_byte c)"
  by (auto simp: lower_byte_def char_class_defs)

lemma upper_byte_idem [simp]: "upper_byte (upper_byte c) = upper_byte c"
  by (auto simp: upper_byte_def is_lower_def)

section \<open>Package strings\<close>

text \<open>
  \<^verbatim>\<open>strings.ToLower\<close> and \<^verbatim>\<open>strings.ToUpper\<close>.  ASCII letters are mapped; so are the four
  code points outside ASCII whose image is an ASCII letter (U+0130 and U+212A downwards, U+0131
  and U+017F upwards).  Go also maps the other cased code points, to code points outside ASCII;
  here their bytes stay as they are.  No test of the sources tells the two apart: every such
  string is either rejected by an ASCII pattern or looked up among ASCII keys.
\<close>

definition has_prefix :: "string \<Rightarrow> string \<Rightarrow> bool" where
  "has_prefix s p \<longleftrightarrow> take (length p) s = p"

definition trim_prefix :: "string \<Rightarrow> string \<Rightarrow> string" where
  "trim_prefix s p = (if has_prefix s p then drop (length p) s else s)"

fun to_lower :: "string \<Rightarrow> string" where
  "to_lower [] = []"
| "to_lower (c # cs) =
     (if has_prefix (c # cs) [CHR 0xC4, CHR 0xB0] then CHR ''i'' # to_lower (drop 1 cs)
      else if has_prefix (c # cs) [CHR 0xE2, CHR 0x84, CHR 0xAA] then CHR ''k'' # to_lower (drop 2 cs)
      else lower_byte c # to_lower cs)"

fun to_upper :: "string \<Rightarrow> string" where
  "to_upper [] = []"
| "to_upper (c # cs) =
     (if has_prefix (c # cs) [CHR 0xC4, CHR 0xB1] then CHR ''I'' # to_upper (drop 1 cs)
      else if has_prefix (c # cs) [CHR 0xC5, CHR 0xBF] then CHR ''S'' # to_upper (drop 1 cs)
      else upper_byte c # to_upper cs)"

text \<open>
  \<^verbatim>\<open>strings.TrimSpace\<close> removes the runes with the White\_Space property at both ends.
  \<open>space_width s\<close> is the number of bytes of such a rune at the front of \<open>s\<close>, and
  \<open>space_width_rev\<close> the same for a reversed string.
\<close>

definition ascii_space :: "char \<Rightarrow> bool" where
  "ascii_space c \<longleftrightarrow> c = CHR 0x20 \<or> (9 \<le> (of_char c :: nat) \<and> (of_char c :: nat) \<le> 13)"

definition space2 :: "char \<Rightarrow> char \<Rightarrow> bool" where
  "space2 a b \<longleftrightarrow> a = CHR 0xC2 \<and> (b = CHR 0x85 \<or> b = CHR 0xA0)"

definition space3 :: "char \<Rightarrow> char \<Rightarrow> char \<Rightarrow> bool" where
  "space3 a b c \<longleftrightarrow>
     (a = CHR 0xE1 \<and> b = CHR 0x9A \<and> c = CHR 0x80)
   \<or> (a = CHR 0xE2 \<and> b = CHR 0x80 \<and>
        ((128 \<le> (of_char c :: nat) \<and> (of_char c :: nat) \<le> 138)
          \<or> c = CHR 0xA8 \<or> c = CHR 0xA9 \<or> c = CHR 0xAF))
   \<or> (a = CHR 0xE2 \<and> b = CHR 0x81 \<and> c = CHR 0x9F)
   \<or> (a = CHR 0xE3 \<and> b = CHR 0x80 \<and> c = CHR 0x80)"

fun space_width :: "string \<Rightarrow> nat" where
  "space_width (a # b # c # s) =
     (if ascii_space a then 1 else if space2 a b then 2 else if space3 a b c then 3 else 0)"
| "space_width [a, b] = (if ascii_space a then 1 else if space2 a b then 2 else 0)"
| "space_width [a] = (if ascii_space a then 1 else 0)"
| "space_width [] = 0"

fun space_width_rev :: "string \<Rightarrow> nat" where
  "space_width_rev (a # b # c # s) =
     (if ascii_space a then 1 else if space2 b a then 2 else if space3 c b a then 3 else 0)"
| "space_width_rev [a, b] = (if ascii_space a then 1 else if space2 b a then 2 else 0)"
| "space_width_rev [a] = (if ascii_space a then 1 else 0)"
| "space_width_rev [] = 0"

function trim_by :: "(string \<Rightarrow> nat) \<Rightarrow> string \<Rightarrow> string" where
  "trim_by w s = (if s = [] \<or> w s = 0 then s else trim_by w (drop (w s) s))"
  by pat_completeness auto
termination
  by (relation "measure (\<lambda>(w, s). length s)") auto

declare trim_by.simps [simp del]

definition trim_space :: "string \<Rightarrow> string" where
  "trim_space s = rev (trim_by space_width_rev (rev (trim_by space_width s)))"

text \<open>\<^verbatim>\<open>strings.Trim\<close> with a set of ASCII bytes, \<^verbatim>\<open>strings.ContainsAny\<close>.\<close>

definition trim_chars :: "char list \<Rightarrow> string \<Rightarrow> string" where
  "trim_chars cs s = rev (dropWhile (\<lambda>c. c \<in> set cs) (rev (dropWhile (\<lambda>c. c \<in> set cs) s)))"

definition contains_any :: "string \<Rightarrow> char list \<Rightarrow> bool" where
  "contains_any s cs \<longleftrightarrow> list_ex (\<lambda>c. c \<in> set cs) s"

text \<open>\<^verbatim>\<open>strings.Split\<close> at one byte, \<^verbatim>\<open>strings.SplitN(s, sep, 2)\<close>, \<^verbatim>\<open>strings.Join\<close>.\<close>

fun split_on :: "char \<Rightarrow> string \<Rightarrow> string list" where
  "split_on d [] = [[]]"
| "split_on d (c # cs) =
     (if c = d then [] # split_on d cs
      else (case split_on d cs of p # ps \<Rightarrow> (c # p) # ps | [] \<Rightarrow> [[c]]))"

definition split2 :: "char \<Rightarrow> string \<Rightarrow> string list" where
  "split2 d s = (if d \<in> set s
     then [takeWhile (\<lambda>c. c \<noteq> d) s, tl (dropWhile (\<lambda>c. c \<noteq> d) s)] else [s])"

fun join_with :: "string \<Rightarrow> string list \<Rightarrow> string" where
  "join_with sep [] = []"
| "join_with sep [s] = s"
| "join_with sep (s # t # ts) = s @ sep @ join_with sep (t # ts)"

text \<open>Byte order on strings (Go's \<open><\<close>).\<close>

fun string_less :: "string \<Rightarrow> string \<Rightarrow> bool" where
  "string_less _ [] = False"
| "string_less [] (_ # _) = True"
| "string_less (a # as) (b # bs) =
     ((of_char a :: nat) < of_char b \<or> (a = b \<and> string_less as bs))"

section \<open>Package strconv\<close>

definition digit_val :: "char \<Rightarrow> int" where
  "digit_val c = int (of_char c) - 48"

definition digit_char :: "nat \<Rightarrow> char" where
  "digit_char n = char_of (48 + n)"

fun dec_val :: "int \<Rightarrow> string \<Rightarrow> int" where
  "dec_val acc [] = acc"
| "dec_val acc (c # cs) = dec_val (10 * acc + digit_val c) cs"

definition atoi_digits :: "bool \<Rightarrow> string \<Rightarrow> int option" where
  "atoi_digits neg ds =
     (if ds = [] \<or> \<not> list_all is_digit ds then None
      else let v = (if neg then - dec_val 0 ds else dec_val 0 ds)
           in if in_int64 v then Some v else None)"

fun atoi :: "string \<Rightarrow> int option" where
  "atoi [] = None"
| "atoi (c # cs) =
     (if c = CHR ''-'' then atoi_digits True cs
      else if c = CHR ''+'' then atoi_digits False cs
      else atoi_digits False (c # cs))"

fun nat_dec :: "nat \<Rightarrow> string" where
  "nat_dec n = (if n < 10 then [digit_char n] else nat_dec (n div 10) @ [digit_char (n mod 10)])"

declare nat_dec.simps [simp del]

definition itoa :: "int \<Rightarrow> string" where
  "itoa i = (if i < 0 then CHR ''-'' # nat_dec (nat (- i)) else nat_dec (nat i))"

text \<open>
  The text of a \<^verbatim>\<open>time.Duration\<close> that is a whole number of seconds below a minute, and
  \<^verbatim>\<open>%q\<close> of a string.  Quotes, backslashes and the control characters of ASCII are escaped as
  strconv.Quote does; bytes from 128 upwards are kept, as it does for printable code points.
\<close>

definition seconds_text :: "duration \<Rightarrow> string" where
  "seconds_text d = itoa (d div second) @ ''s''"

definition hex_char :: "nat \<Rightarrow> char" where
  "hex_char n = (if n < 10 then char_of (48 + n) else char_of (87 + n))"

definition quote_byte :: "char \<Rightarrow> string" where
  "quote_byte c = (let n = (of_char c :: nat) in
     if c = CHR 0x5C \<or> c = CHR 0x22 then [CHR 0x5C, c]
     else if 7 \<le> n \<and> n \<le> 13 then [CHR 0x5C, ''abtnvfr'' ! (n - 7)]
     else if n < 32 \<or> n = 127 then [CHR 0x5C, CHR ''x'', hex_char (n div 16), hex_char (n mod 16)]
     else [c])"

definition quote :: "string \<Rightarrow> string" where
  "quote s = CHR 0x22 # concat (map quote_byte s) @ [CHR 0x22]"

subsection \<open>Decimal numbers round-trip\<close>

lemma digit_char_digit: "n < 10 \<Longrightarrow> is_digit (digit_char n) \<and> digit_val (digit_char n) = int n"
  by (simp add: is_digit_def digit_char_def digit_val_def)

lemma dec_val_append: "dec_val acc (xs @ ys) = dec_val (dec_val acc xs) ys"
  by (induction xs arbitrary: acc) auto

lemma nat_dec_digits: "list_all is_digit (nat_dec n) \<and> nat_dec n \<noteq> []"
proof (induction n rule: nat_dec.induct)
  case (1 n)
  then show ?case
    by (cases "n < 10") (auto simp: nat_dec.simps [of n] digit_char_digit)
qed

lemma dec_val_nat_dec: "dec_val 0 (nat_dec n) = int n"
proof (induction n rule: nat_dec.induct)
  case (1 n)
  show ?case
  proof (cases "n < 10")
    case True
    then show ?thesis by (simp add: nat_dec.simps [of n] digit_char_digit)
  next
    case False
    have "10 * int (n div 10) + int (n mod 10) = int n"
      by presburger
    with False 1 show ?thesis
      by (simp add: nat_dec.simps [of n] dec_val_append digit_char_digit)
  qed
qed

lemma nat_dec_first: "\<exists>c cs. nat_dec n = c # cs \<and> is_digit c"
  using nat_dec_digits [of n] by (cases "nat_dec n") auto

lemma atoi_itoa: "in_int64 i \<Longrightarrow> atoi (itoa i) = Some i"
proof (cases "i < 0")
  case True
  assume "in_int64 i"
  with True show ?thesis
    using nat_dec_digits [of "nat (- i)"] dec_val_nat_dec [of "nat (- i)"]
    by (simp add: itoa_def atoi_digits_def)
next
  case False
  assume r: "in_int64 i"
  obtain c cs where c: "nat_dec (nat i) = c # cs" "is_digit c"
    using nat_dec_first by blast
  then have "c \<noteq> CHR ''-''" "c \<noteq> CHR ''+''"
    by (auto simp: is_digit_def)
  with False r c show ?thesis
    using nat_dec_digits [of "nat i"] dec_val_nat_dec [of "nat i"]
    by (simp add: itoa_def atoi_digits_def)
qed

lemma itoa_digits: "0 \<le> i \<Longrightarrow> list_all is_digit (itoa i) \<and> itoa i \<noteq> []"
  using nat_dec_digits [of "nat i"] by (simp add: itoa_def)

subsection \<open>Letters\<close>

lemma has_prefix_ascii:
  "is_letter c \<Longrightarrow> \<not> has_prefix (c # cs) (CHR 0xC4 # p) \<and> \<not> has_prefix (c # cs) (CHR 0xE2 # p)
     \<and> \<not> has_prefix (c # cs) (CHR 0xC5 # p)"
  by (auto simp: has_prefix_def char_class_defs)

lemma hex_letter_or_digit: "is_hex c \<Longrightarrow> is_letter c \<or> is_digit c"
  by (auto simp: char_class_defs)

lemma has_prefix_digit:
  "is_digit c \<Longrightarrow> \<not> has_prefix (c # cs) (CHR 0xC4 # p) \<and> \<not> has_prefix (c # cs) (CHR 0xE2 # p)
     \<and> \<not> has_prefix (c # cs) (CHR 0xC5 # p)"
  by (auto simp: has_prefix_def char_class_defs)

lemma to_lower_letters: "list_all is_letter s \<Longrightarrow> to_lower s = map lower_byte s"
  by (induction s) (simp_all add: has_prefix_ascii)

lemma to_upper_hex: "list_all is_hex s \<Longrightarrow> to_upper s = map upper_byte s"
proof (induction s)
  case (Cons c cs)
  then have "is_letter c \<or> is_digit c" by (simp add: hex_letter_or_digit)
  with Cons show ?case by (auto simp: has_prefix_ascii has_prefix_digit)
qed simp

lemma upper_byte_hex: "is_hex c \<Longrightarrow> is_hex (upper_byte c) \<and> \<not> is_lower (upper_byte c)"
  by (auto simp: upper_byte_def char_class_defs)

lemma letter_not_space: "is_letter c \<Longrightarrow> \<not> ascii_space c \<and> \<not> space2 c b \<and> \<not> space2 b c
    \<and> \<not> space3 c b d \<and> \<not> space3 d b c"
  by (auto simp: char_class_defs ascii_space_def space2_def space3_def)

lemma space_width_letter: "is_letter c \<Longrightarrow> space_width (c # cs) = 0"
  by (induction "c # cs" rule: space_width.induct) (auto simp: letter_not_space)

lemma space_width_rev_letter: "is_letter c \<Longrightarrow> space_width_rev (c # cs) = 0"
  by (induction "c # cs" rule: space_width_rev.induct) (auto simp: letter_not_space)

lemma trim_space_letters: "list_all is_letter s \<Longrightarrow> trim_space s = s"
proof (cases s)
  case (Cons c cs)
  assume l: "list_all is_letter s"
  with Cons have 1: "trim_by space_width s = s"
    by (simp add: trim_by.simps [of space_width "c # cs"] space_width_letter)
  obtain d ds where r: "rev s = d # ds" using Cons by (cases "rev s") auto
  with l have "is_letter d" by (metis list.pred_inject(2) list_all_rev)
  then have "trim_by space_width_rev (rev s) = rev s"
    by (simp add: r trim_by.simps [of space_width_rev "d # ds"] space_width_rev_letter)
  with 1 show ?thesis by (simp add: trim_space_def)
qed (simp add: trim_space_def trim_by.simps)

lemma split_on_append: "d \<notin> set p \<Longrightarrow> split_on d (p @ d # s) = p # split_on d s"
  by (induction p) auto

lemma split_on_single: "d \<notin> set p \<Longrightarrow> split_on d p = [p]"
  by (induction p) auto

end
