(* ===== verification/Go_Net.thy ===== *)
theory Go_Net
  imports Go_Prelude
begin

text \<open>
  The functions of package net that the sources call on addresses: \<^verbatim>\<open>SplitHostPort\<close>,
  \<^verbatim>\<open>JoinHostPort\<close>, \<^verbatim>\<open>ParseIP\<close>, \<^verbatim>\<open>IP.To4\<close> and the text of an IPv4 address.  An IP address
  is the list of its sixteen bytes, as \<^verbatim>\<open>net.IP\<close> is.
\<close>

section \<open>SplitHostPort and JoinHostPort\<close>

definition before_last :: "char \<Rightarrow> string \<Rightarrow> string" where
  "before_last d s = rev (tl (dropWhile (\<lambda>c. c \<noteq> d) (rev s)))"

definition after_last :: "char \<Rightarrow> string \<Rightarrow> string" where
  "after_last d s = rev (takeWhile (\<lambda>c. c \<noteq> d) (rev s))"

definition split_host_port :: "string \<Rightarrow> (string \<times> string) option" where
  "split_host_port hp =
     (if CHR '':'' \<notin> set hp then None
      else let host = before_last CHR '':'' hp; port = after_last CHR '':'' hp in
        if hd hp = CHR ''['' then
          (let inner = takeWhile (\<lambda>c. c \<noteq> CHR '']'') (tl hp) in
             if CHR '']'' \<notin> set hp \<or> host \<noteq> CHR ''['' # inner @ [CHR '']''] then None
             else if CHR ''['' \<in> set (tl hp) \<or> CHR '']'' \<in> set port then None
             else Some (inner, port))
        else if CHR '':'' \<in> set host \<or> CHR ''['' \<in> set hp \<or> CHR '']'' \<in> set hp then None
        else Some (host, port))"

definition join_host_port :: "string \<Rightarrow> string \<Rightarrow> string" where
  "join_host_port host port =
     (if CHR '':'' \<in> set host then CHR ''['' # host @ [CHR '']'', CHR '':''] @ port
      else host @ [CHR '':''] @ port)"

section \<open>ParseIP\<close>

definition parse_octet :: "string \<Rightarrow> nat option" where
  "parse_octet s =
     (if s = [] \<or> \<not> list_all is_digit s \<or> (length s > 1 \<and> hd s = CHR ''0'') \<or> dec_val 0 s > 255
      then None else Some (nat (dec_val 0 s)))"

definition parse_ipv4 :: "string \<Rightarrow> nat list option" where
  "parse_ipv4 s = (let ps = map parse_octet (split_on CHR ''.'' s) in
     if length ps = 4 \<and> None \<notin> set ps then Some (map the ps) else None)"

definition hex_digit :: "char \<Rightarrow> nat" where
  "hex_digit c = (if is_digit c then of_char c - 48
     else if is_upper c then of_char c - 55 else of_char c - 87)"

definition hex_val :: "string \<Rightarrow> nat" where
  "hex_val s = foldl (\<lambda>acc c. 16 * acc + hex_digit c) 0 s"

text \<open>The groups of an IPv6 address; \<open>e\<close> is the position of the ellipsis, as in the library's loop.\<close>

definition finish_ipv6 :: "nat list \<Rightarrow> nat option \<Rightarrow> string \<Rightarrow> nat list option" where
  "finish_ipv6 ip e s =
     (if s \<noteq> [] then None
      else if length ip < 16 then
        (case e of None \<Rightarrow> None
         | Some k \<Rightarrow> Some (take k ip @ replicate (16 - length ip) 0 @ drop k ip))
      else if e \<noteq> None then None else Some ip)"

fun ipv6_groups :: "nat \<Rightarrow> nat list \<Rightarrow> nat option \<Rightarrow> string \<Rightarrow> nat list option" where
  "ipv6_groups 0 ip e s = finish_ipv6 ip e s"
| "ipv6_groups (Suc n) ip e s =
     (let hs = takeWhile is_hex s; rest = dropWhile is_hex s;
          ip' = ip @ [hex_val hs div 256, hex_val hs mod 256] in
      if hs = [] \<or> length hs > 4 then None
      else if rest = [] then finish_ipv6 ip' e []
      else if hd rest = CHR ''.'' then
        (if (e = None \<and> length ip \<noteq> 12) \<or> length ip + 4 > 16 then None
         else case parse_ipv4 s of None \<Rightarrow> None | Some bs \<Rightarrow> finish_ipv6 (ip @ bs) e [])
      else if hd rest \<noteq> CHR '':'' \<or> tl rest = [] then None
      else if hd (tl rest) = CHR '':'' then
        (if e \<noteq> None then None
         else if tl (tl rest) = [] then finish_ipv6 ip' (Some (length ip')) []
         else ipv6_groups n ip' (Some (length ip')) (tl (tl rest)))
      else ipv6_groups n ip' e (tl rest))"

definition parse_ipv6 :: "string \<Rightarrow> nat list option" where
  "parse_ipv6 s =
     (if has_prefix s '':'' \<and> has_prefix (tl s) '':'' then
        (if length s = 2 then Some (replicate 16 0) else ipv6_groups 8 [] (Some 0) (drop 2 s))
      else ipv6_groups 8 [] None s)"

definition v4_in_v6 :: "nat list" where
  "v4_in_v6 = [0, 0, 0, 0, 0, 0, 0, 0, 0, 0, 255, 255]"

definition parse_ip :: "string \<Rightarrow> nat list option" where
  "parse_ip s =
     (case dropWhile (\<lambda>c. c \<noteq> CHR ''.'' \<and> c \<noteq> CHR '':'' \<and> c \<noteq> CHR ''%'') s of
        [] \<Rightarrow> None
      | c # _ \<Rightarrow>
         if c = CHR ''.'' then map_option (\<lambda>bs. v4_in_v6 @ bs) (parse_ipv4 s)
         else if c = CHR '':'' \<and> CHR ''%'' \<notin> set s then parse_ipv6 s
         else None)"

definition to4 :: "nat list \<Rightarrow> nat list option" where
  "to4 ip = (if take 12 ip = v4_in_v6 then Some (drop 12 ip) else None)"

definition ipv4_text :: "nat list \<Rightarrow> string" where
  "ipv4_text bs = join_with ''.'' (map nat_dec bs)"

section \<open>Round trip of host and port\<close>

lemma digit_not_punct: "is_digit c \<Longrightarrow> c \<noteq> CHR '':'' \<and> c \<noteq> CHR ''['' \<and> c \<noteq> CHR '']''"
  by (auto simp: is_digit_def)

lemma digits_not_punct:
  "list_all is_digit p \<Longrightarrow> CHR '':'' \<notin> set p \<and> CHR ''['' \<notin> set p \<and> CHR '']'' \<notin> set p"
  by (induction p) (use digit_not_punct in auto)

lemma after_last_append:
  "d \<notin> set p \<Longrightarrow> after_last d (h @ d # p) = p \<and> before_last d (h @ d # p) = h"
proof -
  assume d: "d \<notin> set p"
  then have d': "\<forall>x\<in>set (rev p). x \<noteq> d" by auto
  then have "takeWhile (\<lambda>c. c \<noteq> d) (rev p @ d # rev h) = rev p"
    by (simp add: takeWhile_tail takeWhile_eq_all_conv)
  moreover from d' have "dropWhile (\<lambda>c. c \<noteq> d) (rev p @ d # rev h) = d # rev h"
    by (subst dropWhile_append2) auto
  ultimately show ?thesis by (simp add: after_last_def before_last_def)
qed

lemma split_join_host_port:
  assumes host: "CHR ''['' \<notin> set host" "CHR '']'' \<notin> set host" and port: "list_all is_digit port"
  shows "split_host_port (join_host_port host port) = Some (host, port)"
proof (cases "CHR '':'' \<in> set host")
  case True
  note p = digits_not_punct [OF port]
  have "takeWhile (\<lambda>c. c \<noteq> CHR '']'') (host @ CHR '']'' # CHR '':'' # port) = host"
    using host(2) by (intro takeWhile_tail [of _ _ host, THEN trans]) auto
  moreover have "before_last CHR '':'' ((CHR ''['' # host @ [CHR '']'']) @ CHR '':'' # port)
      = CHR ''['' # host @ [CHR '']'']"
    and "after_last CHR '':'' ((CHR ''['' # host @ [CHR '']'']) @ CHR '':'' # port) = port"
    using after_last_append p by blast+
  ultimately show ?thesis
    using True host p by (simp add: join_host_port_def split_host_port_def)
next
  case False
  note p = digits_not_punct [OF port]
  have b: "before_last CHR '':'' (host @ CHR '':'' # port) = host"
    and a: "after_last CHR '':'' (host @ CHR '':'' # port) = port"
    using after_last_append p by blast+
  have "hd (host @ CHR '':'' # port) \<noteq> CHR ''[''"
    using host by (cases host) auto
  with False host p a b show ?thesis
    by (auto simp: join_host_port_def split_host_port_def Let_def)
qed

end
