(* ===== verification/Go_Collections.thy ===== *)
theory Go_Collections
  imports Go_Prelude
begin

text \<open>
  Go maps as association lists, \<^verbatim>\<open>sort.Slice\<close>, and reachability of a transition system.

  \<^verbatim>\<open>sort.Slice\<close> is modelled by a stable insertion sort.  Go leaves the order of equal elements
  open; the slices the manager sorts are collected from maps, whose order is open as well, so every
  order Go can produce is the stable result for some order of the map.  The locale
  \<open>strict_weak\<close> states what the callers rely on, whatever the order of equal elements is.
\<close>

section \<open>Go maps\<close>

lemma map_of_update [go_map, simp]: "map_of (AList.update k v al) = (map_of al)(k \<mapsto> v)"
  by (rule update_conv')

lemma map_of_delete [go_map, simp]: "map_of (AList.delete k al) = (map_of al)(k := None)"
  by (rule delete_conv')

lemma map_of_SomeD_fst: "map_of al k = Some v \<Longrightarrow> k \<in> fst ` set al"
  by (metis domI dom_map_of_conv_image_fst)

definition has_key :: "('k, 'v) gomap \<Rightarrow> 'k \<Rightarrow> bool" where
  "has_key al k \<longleftrightarrow> map_of al k \<noteq> None"

lemma has_key_update [go_map, simp]: "has_key (AList.update k v al) k' \<longleftrightarrow> k' = k \<or> has_key al k'"
  by (simp add: has_key_def)

lemma has_key_delete [go_map, simp]: "has_key (AList.delete k al) k' \<longleftrightarrow> k' \<noteq> k \<and> has_key al k'"
  by (simp add: has_key_def)

lemma map_of_filter_keys:
  assumes "distinct (map fst al)"
  shows "map_of (filter (\<lambda>(k, v). P k v) al) k =
    (case map_of al k of Some v \<Rightarrow> if P k v then Some v else None | None \<Rightarrow> None)"
  using assms
proof (induction al)
  case (Cons kv al)
  obtain a b where kv: "kv = (a, b)" by (cases kv)
  with Cons show ?case
    by (auto simp: map_of_eq_None_iff split: option.splits)
qed simp

lemma distinct_filter_keys: "distinct (map fst al) \<Longrightarrow> distinct (map fst (filter P al))"
  by (induction al) auto

section \<open>sort.Slice\<close>

fun insert_by :: "('a \<Rightarrow> 'a \<Rightarrow> bool) \<Rightarrow> 'a \<Rightarrow> 'a list \<Rightarrow> 'a list" where
  "insert_by lt x [] = [x]"
| "insert_by lt x (y # ys) = (if lt y x then y # insert_by lt x ys else x # y # ys)"

definition sort_slice :: "('a \<Rightarrow> 'a \<Rightarrow> bool) \<Rightarrow> 'a list \<Rightarrow> 'a list" where
  "sort_slice lt xs = foldr (insert_by lt) xs []"

lemma sort_slice_Nil [simp]: "sort_slice lt [] = []"
  by (simp add: sort_slice_def)

lemma sort_slice_Cons [simp]: "sort_slice lt (x # xs) = insert_by lt x (sort_slice lt xs)"
  by (simp add: sort_slice_def)

lemma mset_insert_by: "mset (insert_by lt x ys) = add_mset x (mset ys)"
  by (induction ys) auto

lemma mset_sort_slice [go_sort, simp]: "mset (sort_slice lt xs) = mset xs"
  by (induction xs) (auto simp: mset_insert_by)

lemma set_sort_slice [go_sort, simp]: "set (sort_slice lt xs) = set xs"
  by (rule mset_eq_setD) simp

lemma length_sort_slice [go_sort, simp]: "length (sort_slice lt xs) = length xs"
  by (rule mset_eq_length) simp

lemma sort_slice_empty_iff [simp]: "sort_slice lt xs = [] \<longleftrightarrow> xs = []"
  by (metis length_0_conv length_sort_slice)

lemma set_insert_by [simp]: "set (insert_by lt x ys) = insert x (set ys)"
  by (induction ys) auto

locale strict_weak =
  fixes lt :: "'a \<Rightarrow> 'a \<Rightarrow> bool"
  assumes lt_irrefl: "\<not> lt x x"
    and lt_trans: "lt x y \<Longrightarrow> lt y z \<Longrightarrow> lt x z"
    and lt_neg_trans: "\<not> lt x y \<Longrightarrow> \<not> lt y z \<Longrightarrow> \<not> lt x z"
begin

lemma lt_asym: "lt x y \<Longrightarrow> \<not> lt y x"
  using lt_irrefl lt_trans by blast

lemma insert_by_sorted:
  "sorted_wrt (\<lambda>a b. \<not> lt b a) ys \<Longrightarrow> sorted_wrt (\<lambda>a b. \<not> lt b a) (insert_by lt x ys)"
proof (induction ys)
  case (Cons y ys)
  show ?case
  proof (cases "lt y x")
    case True
    with Cons show ?thesis by (auto dest: lt_asym)
  next
    case False
    then have "\<not> lt z x" if "\<not> lt z y" for z
      using that lt_neg_trans by blast
    with False Cons.prems show ?thesis by auto
  qed
qed simp

lemma sorted_sort: "sorted_wrt (\<lambda>a b. \<not> lt b a) (sort_slice lt xs)"
  by (induction xs) (auto simp: insert_by_sorted)

lemma hd_least: "y \<in> set xs \<Longrightarrow> \<not> lt y (hd (sort_slice lt xs))"
proof -
  assume y: "y \<in> set xs"
  then obtain z zs where z: "sort_slice lt xs = z # zs"
    by (cases "sort_slice lt xs") auto
  then have "sorted_wrt (\<lambda>a b. \<not> lt b a) (z # zs)"
    using sorted_sort [of xs] by simp
  moreover from y z have "y = z \<or> y \<in> set zs"
    by (metis set_ConsD set_sort_slice)
  ultimately show ?thesis using z lt_irrefl by auto
qed

lemma take_before_drop:
  assumes "x \<in> set (take n (sort_slice lt xs))" and "y \<in> set (drop n (sort_slice lt xs))"
  shows "\<not> lt y x"
proof -
  have "sorted_wrt (\<lambda>a b. \<not> lt b a) (take n (sort_slice lt xs) @ drop n (sort_slice lt xs))"
    using sorted_sort by simp
  with assms show ?thesis by (subst (asm) sorted_wrt_append) blast
qed

end

text \<open>Comparing by a key in a linear order, as every \<^verbatim>\<open>StartedAt.Before\<close> does.\<close>

lemma strict_weak_key: "strict_weak (\<lambda>a b. (f a :: 'b :: linorder) < f b)"
  by unfold_locales auto

section \<open>Transition systems\<close>

text \<open>
  The states reachable from an initial predicate by a step relation, and the rule that an invariant
  of the initial states that every step keeps holds in all of them.
\<close>

inductive reach :: "('s \<Rightarrow> bool) \<Rightarrow> ('s \<Rightarrow> 's \<Rightarrow> bool) \<Rightarrow> 's \<Rightarrow> bool" for init step where
  reach_init: "init s \<Longrightarrow> reach init step s"
| reach_step: "reach init step s \<Longrightarrow> step s t \<Longrightarrow> reach init step t"

inductive_cases reach_elim: "reach init step s"

locale invariant_system =
  fixes init :: "'s \<Rightarrow> bool" and step :: "'s \<Rightarrow> 's \<Rightarrow> bool" and inv :: "'s \<Rightarrow> bool"
  assumes inv_init: "init s \<Longrightarrow> inv s"
    and inv_step: "inv s \<Longrightarrow> step s t \<Longrightarrow> inv t"
begin

lemma reach_inv: "reach init step s \<Longrightarrow> inv s"
  by (induction rule: reach.induct) (auto intro: inv_init inv_step)

lemma rtranclp_inv: "step\<^sup>*\<^sup>* s t \<Longrightarrow> inv s \<Longrightarrow> inv t"
  by (induction rule: rtranclp_induct) (auto intro: inv_step)

lemma reach_rtranclp: "reach init step s \<Longrightarrow> step\<^sup>*\<^sup>* s t \<Longrightarrow> reach init step t"
  by (erule rtranclp_induct) (auto intro: reach_step)

end

end
