(* ===== verification/Configuration.thy ===== *)
theory Configuration
  imports Go_Net Go_Collections
begin

text \<open>
  \<^verbatim>\<open>src/config.go\<close>: the configuration record, its defaults, loading with the overrides from
  the environment, validation, and the fixed port of each country.  Country codes are normalised by
  \<^verbatim>\<open>normalizeCode\<close> of \<^verbatim>\<open>src/manager.go\<close>, which is modelled here because validation uses it.

  Validation runs on Go's 64-bit integers: the sums of a base port and an offset are wrapped.
\<close>

section \<open>Data\<close>

record Country =
  Code :: string
  Name :: string

record Config =
  ListenAddress :: string
  ProxyAddress :: string
  TorBinary :: string
  StateDir :: string
  GeoIPFile :: string
  GeoIPv6File :: string
  BaseSocksPort :: int
  CountryProxyHost :: string
  CountryProxyPort :: int
  MaxRunning :: int
  DrainTimeoutSec :: int
  CircuitRotateMinutes :: int
  AuthToken :: string
  ClientAPIKey :: string
  UpstreamSOCKS5 :: string
  UpstreamUsername :: string
  UpstreamPassword :: string
  Countries :: "Country list"

record LoadedConfig =
  Stored :: Config
  Effective :: Config

section \<open>Operations\<close>

text \<open>The country names are the UTF-8 bytes of the literals in the source.\<close>

definition defaultConfig :: "bool \<Rightarrow> Config" where
  "defaultConfig windows = \<lparr>
     ListenAddress = ''127.0.0.1:8080'',
     ProxyAddress = ''127.0.0.1:1080'',
     TorBinary = (if windows then ''./runtime/tor/tor.exe'' else ''/usr/bin/tor''),
     StateDir = (if windows then ''./state'' else ''/var/lib/tor-country-manager''),
     GeoIPFile = (if windows then ''./runtime/data/geoip'' else ''/usr/share/tor/geoip''),
     GeoIPv6File = (if windows then ''./runtime/data/geoip6'' else ''/usr/share/tor/geoip6''),
     BaseSocksPort = 19050,
     CountryProxyHost = ''127.0.0.1'',
     CountryProxyPort = 20000,
     MaxRunning = 10,
     DrainTimeoutSec = 120,
     CircuitRotateMinutes = 0,
     AuthToken = [], ClientAPIKey = [],
     UpstreamSOCKS5 = [], UpstreamUsername = [], UpstreamPassword = [],
     Countries = [
        \<lparr>Code = ''us'', Name = [CHR 0xE7, CHR 0xBE, CHR 0x8E, CHR 0xE5, CHR 0x9B, CHR 0xBD]\<rparr>,
        \<lparr>Code = ''jp'', Name = [CHR 0xE6, CHR 0x97, CHR 0xA5, CHR 0xE6, CHR 0x9C, CHR 0xAC]\<rparr>,
        \<lparr>Code = ''de'', Name = [CHR 0xE5, CHR 0xBE, CHR 0xB7, CHR 0xE5, CHR 0x9B, CHR 0xBD]\<rparr>,
        \<lparr>Code = ''gb'', Name = [CHR 0xE8, CHR 0x8B, CHR 0xB1, CHR 0xE5, CHR 0x9B, CHR 0xBD]\<rparr>,
        \<lparr>Code = ''fr'', Name = [CHR 0xE6, CHR 0xB3, CHR 0x95, CHR 0xE5, CHR 0x9B, CHR 0xBD]\<rparr>,
        \<lparr>Code = ''nl'', Name = [CHR 0xE8, CHR 0x8D, CHR 0xB7, CHR 0xE5, CHR 0x85, CHR 0xB0]\<rparr>,
        \<lparr>Code = ''ca'', Name = [CHR 0xE5, CHR 0x8A, CHR 0xA0, CHR 0xE6, CHR 0x8B, CHR 0xBF, CHR 0xE5, CHR 0xA4, CHR 0xA7]\<rparr>,
        \<lparr>Code = ''sg'', Name = [CHR 0xE6, CHR 0x96, CHR 0xB0, CHR 0xE5, CHR 0x8A, CHR 0xA0, CHR 0xE5, CHR 0x9D, CHR 0xA1]\<rparr>,
        \<lparr>Code = ''ch'', Name = [CHR 0xE7, CHR 0x91, CHR 0x9E, CHR 0xE5, CHR 0xA3, CHR 0xAB]\<rparr>,
        \<lparr>Code = ''se'', Name = [CHR 0xE7, CHR 0x91, CHR 0x9E, CHR 0xE5, CHR 0x85, CHR 0xB8]\<rparr>]\<rparr>"

definition normalizeCode :: "string \<Rightarrow> string" where
  "normalizeCode code = to_lower (trim_space code)"

definition countryCodePattern :: "string \<Rightarrow> bool" where
  "countryCodePattern s \<longleftrightarrow> length s = 2 \<and> list_all is_letter s"

definition proxyHostPattern :: "string \<Rightarrow> bool" where
  "proxyHostPattern s \<longleftrightarrow> s \<noteq> [] \<and>
     list_all (\<lambda>c. is_letter c \<or> is_digit c \<or> c = CHR ''.'' \<or> c = CHR ''-'') s"

definition rangesOverlap :: "int \<Rightarrow> int \<Rightarrow> int \<Rightarrow> int \<Rightarrow> bool" where
  "rangesOverlap firstStart firstEnd secondStart secondEnd \<longleftrightarrow>
     firstStart \<le> secondEnd \<and> secondStart \<le> firstEnd"

text \<open>\<open>byte_offset c\<close> is \<^verbatim>\<open>int(c - 'a')\<close>, a subtraction of bytes.\<close>

definition byte_offset :: "char \<Rightarrow> int" where
  "byte_offset c = int ((of_char c + 159) mod 256)"

definition countryPort :: "int \<Rightarrow> string \<Rightarrow> error + int" where
  "countryPort base code0 =
     (let code = normalizeCode code0 in
      if \<not> countryCodePattern code then Inl (''invalid country code '' @ quote code)
      else let index = byte_offset (code ! 0) * 26 + byte_offset (code ! 1)
           in Inr (wrap64 (base + index)))"

fun check_countries :: "string list \<Rightarrow> Country list \<Rightarrow> error option" where
  "check_countries seen [] = None"
| "check_countries seen (country # rest) =
     (if \<not> countryCodePattern (Code country)
      then Some (''invalid country code '' @ quote (Code country))
      else let code = normalizeCode (Code country) in
        if code \<in> set seen then Some (''duplicate country code '' @ quote code)
        else check_countries (code # seen) rest)"

definition bad_host :: "string \<Rightarrow> bool" where
  "bad_host host \<longleftrightarrow> host = [] \<or> (parse_ip host = None \<and> \<not> proxyHostPattern host)"

definition check_upstream :: "string \<Rightarrow> error option" where
  "check_upstream addr =
     (if addr = [] then None
      else case split_host_port addr of
        None \<Rightarrow> Some ''upstream_socks5 must use host:port format''
      | Some (host, portText) \<Rightarrow>
          if bad_host (trim_space host) then Some ''upstream_socks5 must use host:port format''
          else (case atoi portText of
              None \<Rightarrow> Some ''upstream_socks5 has an invalid port''
            | Some port \<Rightarrow> if port < 1 \<or> port > 65535
                then Some ''upstream_socks5 has an invalid port'' else None))"

definition newlines :: "char list" where
  "newlines = [CHR 0x0D, CHR 0x0A]"

definition validate :: "Config \<Rightarrow> error option" where
  "validate c =
    (if ListenAddress c = [] \<or> ProxyAddress c = [] \<or> TorBinary c = [] \<or> StateDir c = [] then
       Some ''listen_address, proxy_address, tor_binary and state_dir are required''
     else if BaseSocksPort c < 1024 \<or> wrap64 (BaseSocksPort c + 3675) \<ge> 65535 then
       Some ''base_socks_port is outside the usable range''
     else if bad_host (trim_space (CountryProxyHost c)) then
       Some ''country_proxy_host must be an IP address or hostname without a port''
     else if CountryProxyPort c < 1024 \<or> wrap64 (CountryProxyPort c + 675) \<ge> 65535 then
       Some ''country_proxy_base_port is outside the usable range''
     else if rangesOverlap (BaseSocksPort c) (wrap64 (BaseSocksPort c + 675))
         (CountryProxyPort c) (wrap64 (CountryProxyPort c + 675)) then
       Some ''internal and country proxy port ranges overlap''
     else if rangesOverlap (wrap64 (BaseSocksPort c + 3000)) (wrap64 (BaseSocksPort c + 3675))
         (CountryProxyPort c) (wrap64 (CountryProxyPort c + 675)) then
       Some ''control port range overlaps with country proxy port range''
     else if contains_any (ClientAPIKey c) newlines then
       Some ''client API key cannot contain newlines''
     else if ClientAPIKey c \<noteq> [] \<and> (length (ClientAPIKey c) < 6 \<or> length (ClientAPIKey c) > 255) then
       Some ''client API key must be between 6 and 255 characters''
     else if MaxRunning c < 1 \<or> MaxRunning c > 32 then
       Some ''max_running must be between 1 and 32''
     else if DrainTimeoutSec c < 5 \<or> DrainTimeoutSec c > 3600 then
       Some ''drain_timeout_seconds must be between 5 and 3600''
     else if CircuitRotateMinutes c < 0 \<or> CircuitRotateMinutes c > 1440 then
       Some ''circuit_rotate_minutes must be between 0 and 1440 (0 disables rotation)''
     else case check_upstream (UpstreamSOCKS5 c) of Some e \<Rightarrow> Some e
     | None \<Rightarrow>
       if contains_any (UpstreamSOCKS5 c @ UpstreamUsername c @ UpstreamPassword c) newlines then
         Some ''upstream proxy settings cannot contain newlines''
       else if (UpstreamUsername c = []) \<noteq> (UpstreamPassword c = []) then
         Some ''upstream proxy username and password must be provided together''
       else check_countries [] (Countries c))"

text \<open>
  \<^verbatim>\<open>loadConfig\<close> reads a file and decodes it over the defaults.  \<open>file_read\<close> is what
  \<^verbatim>\<open>os.ReadFile\<close> and \<^verbatim>\<open>json.Unmarshal\<close> give: no such file, another read error, a document that
  does not decode, or the change that the decoded document makes to the defaults.
\<close>

datatype file_read =
  File_missing
| File_error error
| File_malformed error
| File_decoded "Config \<Rightarrow> Config"

definition effective_config :: "(string \<Rightarrow> string) \<Rightarrow> Config \<Rightarrow> Config" where
  "effective_config getenv stored =
    (let e1 = (if getenv ''TOR_MANAGER_TOKEN'' \<noteq> []
               then stored\<lparr>AuthToken := getenv ''TOR_MANAGER_TOKEN''\<rparr> else stored);
         e2 = (if getenv ''TOR_CLIENT_API_KEY'' \<noteq> []
               then e1\<lparr>ClientAPIKey := getenv ''TOR_CLIENT_API_KEY''\<rparr> else e1)
     in if getenv ''TOR_UPSTREAM_SOCKS5'' \<noteq> []
        then e2\<lparr>UpstreamSOCKS5 := getenv ''TOR_UPSTREAM_SOCKS5'',
                 UpstreamUsername := getenv ''TOR_UPSTREAM_USERNAME'',
                 UpstreamPassword := getenv ''TOR_UPSTREAM_PASSWORD''\<rparr>
        else e2)"

definition loadConfig :: "bool \<Rightarrow> (string \<Rightarrow> string) \<Rightarrow> file_read \<Rightarrow> error + LoadedConfig" where
  "loadConfig windows getenv file =
    (let finish = (\<lambda>stored. let effective = effective_config getenv stored in
           case validate effective of Some e \<Rightarrow> Inl e
           | None \<Rightarrow> Inr \<lparr>Stored = stored, Effective = effective\<rparr>)
     in case file of
       File_error e \<Rightarrow> Inl (''read config: '' @ e)
     | File_malformed e \<Rightarrow> Inl (''parse config: '' @ e)
     | File_missing \<Rightarrow> finish (defaultConfig windows)
     | File_decoded f \<Rightarrow> finish (f (defaultConfig windows)))"

section \<open>Country codes\<close>

definition canonical_code :: "string \<Rightarrow> bool" where
  "canonical_code c \<longleftrightarrow> length c = 2 \<and> list_all is_lower c"

lemma lower_is_letter: "is_lower c \<Longrightarrow> is_letter c"
  by (simp add: is_letter_def)

lemma canonical_letters: "canonical_code c \<Longrightarrow> list_all is_letter c"
  by (auto simp: canonical_code_def list_all_iff lower_is_letter)

lemma canonical_pattern [simp]: "canonical_code c \<Longrightarrow> countryCodePattern c"
  by (simp add: countryCodePattern_def canonical_letters canonical_code_def)

lemma canonical_nonempty [simp]: "canonical_code c \<Longrightarrow> c \<noteq> []"
  by (auto simp: canonical_code_def)

lemma normalizeCode_letters: "list_all is_letter s \<Longrightarrow> normalizeCode s = map lower_byte s"
  by (simp add: normalizeCode_def trim_space_letters to_lower_letters)

lemma normalizeCode_canonical [simp]: "canonical_code c \<Longrightarrow> normalizeCode c = c"
proof -
  assume c: "canonical_code c"
  then have "map lower_byte c = c"
    by (auto simp: canonical_code_def list_all_iff intro!: map_idI)
  with c show ?thesis by (simp add: normalizeCode_letters canonical_letters)
qed

lemma lower_byte_not_upper: "\<not> is_upper (lower_byte c)"
  by (auto simp: lower_byte_def is_upper_def)

lemma to_lower_not_upper: "list_all (\<lambda>c. \<not> is_upper c) (to_lower s)"
  by (induction s rule: to_lower.induct) (auto simp: lower_byte_not_upper, simp_all add: is_upper_def)

lemma normalizeCode_pattern: "countryCodePattern (normalizeCode s) \<Longrightarrow> canonical_code (normalizeCode s)"
  using to_lower_not_upper [of "trim_space s"]
  by (auto simp: countryCodePattern_def canonical_code_def normalizeCode_def list_all_iff is_letter_def)

lemma pattern_normalizeCode: "countryCodePattern s \<Longrightarrow> canonical_code (normalizeCode s)"
  by (auto simp: countryCodePattern_def canonical_code_def normalizeCode_letters list_all_iff
      lower_byte_is_lower)

section \<open>Fixed ports\<close>

lemma byte_offset_lower: "is_lower c \<Longrightarrow> byte_offset c = int (of_char c) - 97 \<and> 0 \<le> byte_offset c \<and> byte_offset c < 26"
proof -
  assume "is_lower c"
  then have r: "97 \<le> (of_char c :: nat)" "(of_char c :: nat) \<le> 122"
    by (simp_all add: is_lower_def)
  then have "(of_char c :: nat) + 159 = (of_char c - 97) + 256" by simp
  then have "((of_char c :: nat) + 159) mod 256 = (of_char c - 97) mod 256"
    by (metis mod_add_self2)
  with r have "((of_char c :: nat) + 159) mod 256 = of_char c - 97" by simp
  with r show ?thesis unfolding byte_offset_def by linarith
qed

definition code_index :: "string \<Rightarrow> int" where
  "code_index code = byte_offset (code ! 0) * 26 + byte_offset (code ! 1)"

lemma canonical_nth: "canonical_code c \<Longrightarrow> is_lower (c ! 0) \<and> is_lower (c ! 1)"
  by (simp add: canonical_code_def list_all_length)

lemma code_index_range: "canonical_code c \<Longrightarrow> 0 \<le> code_index c \<and> code_index c \<le> 675"
  using byte_offset_lower [of "c ! 0"] byte_offset_lower [of "c ! 1"] canonical_nth [of c]
  unfolding code_index_def by linarith

lemma code_index_inj:
  assumes a: "canonical_code a" and b: "canonical_code b" and eq: "code_index a = code_index b"
  shows "a = b"
proof -
  have r: "byte_offset (x ! 0) = int (of_char (x ! 0)) - 97 \<and> 0 \<le> byte_offset (x ! 0) \<and> byte_offset (x ! 0) < 26 \<and>
      byte_offset (x ! 1) = int (of_char (x ! 1)) - 97 \<and> 0 \<le> byte_offset (x ! 1) \<and> byte_offset (x ! 1) < 26"
    if "canonical_code x" for x
    using byte_offset_lower canonical_nth [OF that] by blast
  note r = r [OF a] r [OF b]
  from eq r have 0: "byte_offset (a ! 0) = byte_offset (b ! 0)"
    unfolding code_index_def by linarith
  with eq have "byte_offset (a ! 1) = byte_offset (b ! 1)"
    unfolding code_index_def by linarith
  with 0 r have "(of_char (a ! 0) :: nat) = of_char (b ! 0)" "(of_char (a ! 1) :: nat) = of_char (b ! 1)"
    by auto
  then have "a ! 0 = b ! 0" "a ! 1 = b ! 1" by auto
  moreover have "length a = 2" "length b = 2" using a b by (simp_all add: canonical_code_def)
  ultimately show ?thesis
    by (auto intro!: nth_equalityI simp: less_2_cases_iff)
qed

lemma countryPort_Inr:
  "countryPort base code = Inr p \<longleftrightarrow>
     countryCodePattern (normalizeCode code) \<and> p = wrap64 (base + code_index (normalizeCode code))"
  by (auto simp: countryPort_def code_index_def Let_def)

section \<open>Validation\<close>

lemma check_countries_None:
  "check_countries seen cs = None \<longleftrightarrow>
     list_all (\<lambda>c. countryCodePattern (Code c)) cs \<and>
     distinct (map (normalizeCode \<circ> Code) cs) \<and>
     set seen \<inter> set (map (normalizeCode \<circ> Code) cs) = {}"
  by (induction seen cs rule: check_countries.induct) (auto simp: Let_def)

definition port_sums_fit :: "Config \<Rightarrow> bool" where
  "port_sums_fit c \<longleftrightarrow> in_int64 (BaseSocksPort c) \<and> in_int64 (CountryProxyPort c) \<and>
     in_int64 (BaseSocksPort c + 3675) \<and> in_int64 (CountryProxyPort c + 675)"

lemma validate_None:
  assumes "validate c = None"
  shows "1024 \<le> BaseSocksPort c" "wrap64 (BaseSocksPort c + 3675) < 65535"
    "1024 \<le> CountryProxyPort c" "wrap64 (CountryProxyPort c + 675) < 65535"
    "\<not> rangesOverlap (BaseSocksPort c) (wrap64 (BaseSocksPort c + 675))
         (CountryProxyPort c) (wrap64 (CountryProxyPort c + 675))"
    "\<not> rangesOverlap (wrap64 (BaseSocksPort c + 3000)) (wrap64 (BaseSocksPort c + 3675))
         (CountryProxyPort c) (wrap64 (CountryProxyPort c + 675))"
    "1 \<le> MaxRunning c" "MaxRunning c \<le> 32" "5 \<le> DrainTimeoutSec c" "DrainTimeoutSec c \<le> 3600"
    "0 \<le> CircuitRotateMinutes c" "CircuitRotateMinutes c \<le> 1440"
    "ClientAPIKey c = [] \<or> (6 \<le> length (ClientAPIKey c) \<and> length (ClientAPIKey c) \<le> 255)"
    "\<not> contains_any (ClientAPIKey c) newlines"
    "(UpstreamUsername c = []) = (UpstreamPassword c = [])"
    "\<not> contains_any (UpstreamSOCKS5 c @ UpstreamUsername c @ UpstreamPassword c) newlines"
    "check_upstream (UpstreamSOCKS5 c) = None"
    "check_countries [] (Countries c) = None"
  using assms unfolding validate_def by (auto split: if_splits option.splits)

lemma validate_ports:
  assumes v: "validate c = None" and fit: "port_sums_fit c"
  shows "1024 \<le> BaseSocksPort c" "BaseSocksPort c + 3675 < 65535"
    "1024 \<le> CountryProxyPort c" "CountryProxyPort c + 675 < 65535"
    "CountryProxyPort c + 675 < BaseSocksPort c \<or> BaseSocksPort c + 675 < CountryProxyPort c"
    "CountryProxyPort c + 675 < BaseSocksPort c + 3000 \<or> BaseSocksPort c + 3675 < CountryProxyPort c"
proof -
  have "in_int64 (BaseSocksPort c + 675)" "in_int64 (BaseSocksPort c + 3000)"
    using fit by (auto simp: port_sums_fit_def in_int64_def)
  with fit have w: "wrap64 (BaseSocksPort c + 675) = BaseSocksPort c + 675"
    "wrap64 (BaseSocksPort c + 3000) = BaseSocksPort c + 3000"
    "wrap64 (BaseSocksPort c + 3675) = BaseSocksPort c + 3675"
    "wrap64 (CountryProxyPort c + 675) = CountryProxyPort c + 675"
    by (auto simp: port_sums_fit_def)
  show "1024 \<le> BaseSocksPort c" "BaseSocksPort c + 3675 < 65535"
    "1024 \<le> CountryProxyPort c" "CountryProxyPort c + 675 < 65535"
    "CountryProxyPort c + 675 < BaseSocksPort c \<or> BaseSocksPort c + 675 < CountryProxyPort c"
    "CountryProxyPort c + 675 < BaseSocksPort c + 3000 \<or> BaseSocksPort c + 3675 < CountryProxyPort c"
    using validate_None(1-6) [OF v] unfolding w rangesOverlap_def by linarith+
qed

lemma validate_countries:
  "validate c = None \<Longrightarrow> list_all (\<lambda>x. countryCodePattern (Code x)) (Countries c) \<and>
     distinct (map (normalizeCode \<circ> Code) (Countries c))"
  using validate_None(18) [of c] by (simp add: check_countries_None)

section \<open>Properties\<close>

lemma wrap64_cancel:
  assumes "wrap64 (b + i) = wrap64 (b + j)" "\<bar>i - j\<bar> < 18446744073709551616"
  shows "i = j"
proof -
  from assms(1) have "(b + i + 9223372036854775808) mod 18446744073709551616
      = (b + j + 9223372036854775808) mod 18446744073709551616"
    by (simp add: wrap64_def)
  then have "18446744073709551616 dvd (b + i + 9223372036854775808) - (b + j + 9223372036854775808)"
    by (simp only: mod_eq_dvd_iff)
  then have "18446744073709551616 dvd i - j" by (simp add: algebra_simps)
  with assms(2) have "i - j = 0" by (metis abs_numeral dvd_imp_le_int leD)
  then show ?thesis by simp
qed

lemma validate_default_linux: "validate (defaultConfig False) = None"
  by code_simp

text \<open>The default configuration passes validation on every platform.\<close>

lemma default_config_valid: "validate (defaultConfig windows) = None"
proof (cases windows)
  case True
  have "validate (defaultConfig True) = None" by code_simp
  with True show ?thesis by simp
qed (simp add: validate_default_linux)

text \<open>In a validated configuration whose port sums stay in 64 bits, the fixed port of every
  country lies in 1024..65534 and outside the ranges of the internal SOCKS and control ports.\<close>

lemma country_ports_disjoint:
  assumes "validate c = None" and "port_sums_fit c"
    and "countryPort (CountryProxyPort c) code = Inr p"
  shows "1024 \<le> p \<and> p < 65535 \<and> \<not> (BaseSocksPort c \<le> p \<and> p \<le> BaseSocksPort c + 675)
    \<and> \<not> (BaseSocksPort c + 3000 \<le> p \<and> p \<le> BaseSocksPort c + 3675)"
proof -
  note v = validate_ports [OF assms(1,2)]
  from assms(3) have "canonical_code (normalizeCode code)"
    and p: "p = wrap64 (CountryProxyPort c + code_index (normalizeCode code))"
    by (simp_all add: countryPort_Inr normalizeCode_pattern)
  then have i: "0 \<le> code_index (normalizeCode code)" "code_index (normalizeCode code) \<le> 675"
    by (simp_all add: code_index_range)
  with v have "in_int64 (CountryProxyPort c + code_index (normalizeCode code))"
    by (simp add: in_int64_def)
  with p have "p = CountryProxyPort c + code_index (normalizeCode code)" by simp
  with i v show ?thesis by linarith
qed

text \<open>Two codes that get the same fixed port are the same country, whatever the base port is.\<close>

lemma countryPort_injective:
  assumes "countryPort base a = Inr p" and "countryPort base b = Inr p"
  shows "normalizeCode a = normalizeCode b"
proof -
  have c: "canonical_code (normalizeCode a)" "canonical_code (normalizeCode b)"
    using assms by (simp_all add: countryPort_Inr normalizeCode_pattern)
  from assms have "wrap64 (base + code_index (normalizeCode a)) = wrap64 (base + code_index (normalizeCode b))"
    by (simp add: countryPort_Inr)
  moreover have "\<bar>code_index (normalizeCode a) - code_index (normalizeCode b)\<bar> < 18446744073709551616"
    using c [THEN code_index_range] by linarith
  ultimately show ?thesis using c by (blast dest: wrap64_cancel intro: code_index_inj)
qed


text \<open>C36: The secrets taken from the environment never reach the stored configuration: what is
  stored does not depend on the environment, the effective one differs from it in the five
  overridable settings only, and the effective one is valid.\<close>

theorem loadConfig_environment:
  assumes "loadConfig w getenv file = Inr l" and "loadConfig w getenv' file = Inr l'"
  shows "Stored l = Stored l' \<and> validate (Effective l) = None \<and>
    (Effective l)\<lparr>AuthToken := AuthToken (Stored l), ClientAPIKey := ClientAPIKey (Stored l),
      UpstreamSOCKS5 := UpstreamSOCKS5 (Stored l), UpstreamUsername := UpstreamUsername (Stored l),
      UpstreamPassword := UpstreamPassword (Stored l)\<rparr> = Stored l"
  using assms
  by (auto simp: loadConfig_def Let_def effective_config_def split: file_read.splits option.splits)

theorem loadConfig_environment_witness:
  "\<exists>l l'. loadConfig False (\<lambda>v. if v = ''TOR_CLIENT_API_KEY'' then ''secret-key'' else []) File_missing = Inr l
     \<and> loadConfig False (\<lambda>v. []) File_missing = Inr l'
     \<and> ClientAPIKey (Effective l) = ''secret-key'' \<and> ClientAPIKey (Stored l) = [] \<and> Stored l = Stored l'"
proof -
  let ?env = "\<lambda>v. if v = ''TOR_CLIENT_API_KEY'' then ''secret-key'' else []"
  have e: "effective_config ?env (defaultConfig False) = (defaultConfig False)\<lparr>ClientAPIKey := ''secret-key''\<rparr>"
    "effective_config (\<lambda>v. []) (defaultConfig False) = defaultConfig False"
    by (simp_all add: effective_config_def)
  have v: "validate ((defaultConfig False)\<lparr>ClientAPIKey := ''secret-key''\<rparr>) = None" by code_simp
  note v = v validate_default_linux
  let ?l = "\<lparr>Stored = defaultConfig False, Effective = (defaultConfig False)\<lparr>ClientAPIKey := ''secret-key''\<rparr>\<rparr>"
  let ?l' = "\<lparr>Stored = defaultConfig False, Effective = defaultConfig False\<rparr>"
  have 1: "loadConfig False ?env File_missing = Inr ?l"
    by (simp add: loadConfig_def e v Let_def del: if_split_asm)
  have 2: "loadConfig False (\<lambda>v. []) File_missing = Inr ?l'"
    by (simp add: loadConfig_def e v Let_def)
  have 3: "ClientAPIKey (defaultConfig False) = []" by code_simp
  show ?thesis using loadConfig_environment [OF 1 2] 1 2 3 by (intro exI [of _ ?l] exI [of _ ?l']) simp
qed

end
