(* ===== verification/Go_Encoding.thy ===== *)
theory Go_Encoding
  imports Go_Prelude
begin

text \<open>
  Package encoding/base64 without padding, in the standard and the URL alphabet, and hexadecimal
  text (\<^verbatim>\<open>%x\<close>).  A byte slice is a string.
\<close>

section \<open>Base64\<close>

definition std_alphabet :: string where
  "std_alphabet = ''ABCDEFGHIJKLMNOPQRSTUVWXYZabcdefghijklmnopqrstuvwxyz0123456789+/''"

definition url_alphabet :: string where
  "url_alphabet = ''ABCDEFGHIJKLMNOPQRSTUVWXYZabcdefghijklmnopqrstuvwxyz0123456789-_''"

fun sextets :: "nat list \<Rightarrow> nat list" where
  "sextets [] = []"
| "sextets [x] = [x div 4, x mod 4 * 16]"
| "sextets [x, y] = [x div 4, x mod 4 * 16 + y div 16, y mod 16 * 4]"
| "sextets (x # y # z # r) =
     x div 4 # (x mod 4 * 16 + y div 16) # (y mod 16 * 4 + z div 64) # (z mod 64) # sextets r"

definition b64_encode :: "string \<Rightarrow> string \<Rightarrow> string" where
  "b64_encode al s = map (\<lambda>i. al ! i) (sextets (map of_char s))"

definition b64_val :: "string \<Rightarrow> char \<Rightarrow> nat option" where
  "b64_val al c = (let i = length (takeWhile (\<lambda>x. x \<noteq> c) al) in if i < 64 then Some i else None)"

fun octets :: "nat list \<Rightarrow> nat list option" where
  "octets [] = Some []"
| "octets [p] = None"
| "octets [p, q] = Some [p * 4 + q div 16]"
| "octets [p, q, r] = Some [p * 4 + q div 16, q mod 16 * 16 + r div 4]"
| "octets (p # q # r # s # t) =
     map_option (\<lambda>u. (p * 4 + q div 16) # (q mod 16 * 16 + r div 4) # (r mod 4 * 64 + s) # u) (octets t)"

text \<open>The decoder skips carriage returns and line feeds.\<close>

definition b64_decode :: "string \<Rightarrow> string \<Rightarrow> string option" where
  "b64_decode al s =
     (let vs = map (b64_val al) (filter (\<lambda>c. c \<noteq> CHR 0x0A \<and> c \<noteq> CHR 0x0D) s)
      in if None \<in> set vs then None else map_option (map char_of) (octets (map the vs)))"

definition hex_text :: "string \<Rightarrow> string" where
  "hex_text s = concat (map (\<lambda>c. let n = of_char c :: nat in [hex_char (n div 16), hex_char (n mod 16)]) s)"

section \<open>Decoding inverts encoding\<close>

definition good_alphabet :: "string \<Rightarrow> bool" where
  "good_alphabet al \<longleftrightarrow> length al = 64 \<and> distinct al \<and> CHR 0x0A \<notin> set al \<and> CHR 0x0D \<notin> set al
     \<and> CHR 0x24 \<notin> set al"

lemma good_std [simp]: "good_alphabet std_alphabet"
  by code_simp

lemma good_url [simp]: "good_alphabet url_alphabet"
  by code_simp

lemma b64_val_nth:
  assumes g: "good_alphabet al" and i: "i < 64"
  shows "b64_val al (al ! i) = Some i"
proof -
  have l: "i < length al" and d: "distinct al" using g i by (simp_all add: good_alphabet_def)
  have eq: "al = take i al @ al ! i # drop (Suc i) al" using l by (rule id_take_nth_drop)
  have "al ! i \<notin> set (take i al)"
    using d by (subst (asm) eq) simp
  then have "takeWhile (\<lambda>x. x \<noteq> al ! i) (take i al) = take i al"
    by (auto simp: takeWhile_eq_all_conv)
  then have "takeWhile (\<lambda>x. x \<noteq> al ! i) al = take i al"
    by (subst eq) (simp add: takeWhile_tail)
  with l i show ?thesis by (simp add: b64_val_def)
qed

lemma sextets_bound: "list_all (\<lambda>x. x < 256) xs \<Longrightarrow> list_all (\<lambda>x. x < 64) (sextets xs)"
  by (induction xs rule: sextets.induct) auto

lemma first_octet: "(y :: nat) < 256 \<Longrightarrow> x div 4 * 4 + (x mod 4 * 16 + y div 16) div 16 = x"
proof -
  assume "y < 256"
  then have "(x mod 4 * 16 + y div 16) div 16 = x mod 4" by simp
  then show ?thesis by (metis div_mult_mod_eq)
qed

lemma second_octet: "(y :: nat) < 256 \<Longrightarrow> z < 256 \<Longrightarrow>
    (x mod 4 * 16 + y div 16) mod 16 * 16 + (y mod 16 * 4 + z div 64) div 4 = y"
proof -
  assume "y < 256" "z < 256"
  then have "(x mod 4 * 16 + y div 16) mod 16 = y div 16" "(y mod 16 * 4 + z div 64) div 4 = y mod 16"
    by simp_all
  then show ?thesis by (metis div_mult_mod_eq)
qed

lemma third_octet: "(z :: nat) < 256 \<Longrightarrow> (y mod 16 * 4 + z div 64) mod 4 * 64 + z mod 64 = z"
proof -
  assume "z < 256"
  then have "(y mod 16 * 4 + z div 64) mod 4 = z div 64" by simp
  then show ?thesis by (metis div_mult_mod_eq)
qed

lemma octets_sextets: "list_all (\<lambda>x. x < 256) xs \<Longrightarrow> octets (sextets xs) = Some xs"
proof (induction xs rule: sextets.induct)
  case (4 x y z r)
  then show ?case
    using first_octet [of y x] second_octet [of y z x] third_octet [of z y] by simp
next
  case (3 x y)
  then show ?case using first_octet [of y x] second_octet [of y 0 x] by simp
next
  case (2 x)
  then show ?case using first_octet [of 0 x] by simp
qed simp

lemma bytes_bound: "list_all (\<lambda>x. x < 256) (map of_char (s :: string) :: nat list)"
  by (simp add: list_all_iff)

lemma b64_encode_alphabet: "good_alphabet al \<Longrightarrow> set (b64_encode al s) \<subseteq> set al"
  using sextets_bound [OF bytes_bound, of s]
  by (auto simp: b64_encode_def good_alphabet_def list_all_iff)

lemma b64_roundtrip:
  assumes g: "good_alphabet al"
  shows "b64_decode al (b64_encode al s) = Some s"
proof -
  let ?vs = "sextets (map of_char s)"
  have "set (b64_encode al s) \<subseteq> set al" by (rule b64_encode_alphabet [OF g])
  then have f: "filter (\<lambda>c. c \<noteq> CHR 0x0A \<and> c \<noteq> CHR 0x0D) (b64_encode al s) = b64_encode al s"
    using g by (auto simp: good_alphabet_def filter_id_conv)
  have "map (b64_val al) (b64_encode al s) = map Some ?vs"
    using sextets_bound [OF bytes_bound, of s]
    by (auto simp: b64_encode_def list_all_iff b64_val_nth [OF g])
  then have "b64_decode al (b64_encode al s) = map_option (map char_of) (octets ?vs)"
    by (simp add: b64_decode_def f comp_def)
  also have "\<dots> = Some s"
    by (simp add: octets_sextets [OF bytes_bound] comp_def)
  finally show ?thesis .
qed

lemma b64_no_dollar: "good_alphabet al \<Longrightarrow> CHR 0x24 \<notin> set (b64_encode al s)"
  using b64_encode_alphabet [of al s] by (auto simp: good_alphabet_def)

lemma b64_encode_length32:
  "length s = 32 \<Longrightarrow> length (b64_encode al s) = 43"
proof -
  have "length (sextets xs) = (4 * length xs + 2) div 3" for xs
    by (induction xs rule: sextets.induct) auto
  then show "length s = 32 \<Longrightarrow> ?thesis" by (simp add: b64_encode_def)
qed

end
