(* ===== verification/Settings.thy ===== *)
theory Settings
  imports Configuration Go_Encoding
begin

text \<open>
  \<^verbatim>\<open>src/settings.go\<close> and \<^verbatim>\<open>src/replace_file_unix.go\<close>: the stored configuration, its updates from
  the web interface, and the replacement of a file.

  A file is described by what it decodes to.  The outcomes of the file operations, and the random
  bytes of a generated key, are arguments.  A failed write into a mounted file leaves it damaged:
  it has been truncated.
\<close>

section \<open>Replacing a file\<close>

datatype 'a file_state = Absent | Holds 'a | Damaged

record RewriteIO =
  openSource :: "error option"
  openDestination :: "error option"
  copyData :: "error option"
  syncOutput :: "error option"
  closeOutput :: "error option"

datatype rename_result = Renamed | Rename_busy | Rename_failed error

definition rewriteMountedFile :: "RewriteIO \<Rightarrow> 'a file_state \<Rightarrow> 'a file_state \<Rightarrow> 'a file_state \<times> error option" where
  "rewriteMountedFile io new f =
     (case openSource io of Some e \<Rightarrow> (f, Some (''open temporary configuration: '' @ e))
      | None \<Rightarrow> case openDestination io of Some e \<Rightarrow> (f, Some (''open mounted configuration: '' @ e))
      | None \<Rightarrow> case copyData io of Some e \<Rightarrow> (Damaged, Some (''write mounted configuration: '' @ e))
      | None \<Rightarrow> case syncOutput io of Some e \<Rightarrow> (new, Some (''sync mounted configuration: '' @ e))
      | None \<Rightarrow> case closeOutput io of Some e \<Rightarrow> (new, Some (''close mounted configuration: '' @ e))
      | None \<Rightarrow> (new, None))"

definition replaceFile :: "rename_result \<Rightarrow> RewriteIO \<Rightarrow> 'a file_state \<Rightarrow> 'a file_state \<Rightarrow> 'a file_state \<times> error option" where
  "replaceFile rn io new f =
     (case rn of Renamed \<Rightarrow> (new, None)
      | Rename_failed e \<Rightarrow> (f, Some e)
      | Rename_busy \<Rightarrow> rewriteMountedFile io new f)"

text \<open>The version for Windows: a path with a null character has no UTF-16 string, and \<^verbatim>\<open>MoveFileExW\<close> replaces
  the file or fails with \<open>moveError\<close>.\<close>

definition replaceFileWindows :: "string \<Rightarrow> string \<Rightarrow> error option \<Rightarrow> 'a file_state \<Rightarrow> 'a file_state \<Rightarrow> 'a file_state \<times> error option" where
  "replaceFileWindows source destination moveError new f =
     (if CHR 0x00 \<in> set source then (f, Some ''invalid argument'')
      else if CHR 0x00 \<in> set destination then (f, Some ''invalid argument'')
      else case moveError of Some e \<Rightarrow> (f, Some e) | None \<Rightarrow> (new, None))"

text \<open>It behaves like a rename that is never busy, so what is shown for the other version holds for it.\<close>

lemma replaceFileWindows_rename:
  obtains rn where "rn \<noteq> Rename_busy" "replaceFileWindows source destination moveError new f = replaceFile rn io new f"
proof
  let ?rn = "if CHR 0x00 \<in> set source \<or> CHR 0x00 \<in> set destination then Rename_failed ''invalid argument''
    else case moveError of Some e \<Rightarrow> Rename_failed e | None \<Rightarrow> Renamed"
  show "?rn \<noteq> Rename_busy" by (simp split: option.splits)
  show "replaceFileWindows source destination moveError new f = replaceFile ?rn io new f"
    by (simp add: replaceFileWindows_def replaceFile_def split: option.splits)
qed

section \<open>The configuration store\<close>

record ConfigStore =
  path :: string
  cfg :: Config
  configFile :: "Config file_state"

record SaveIO =
  marshalResult :: "error option"
  mkdirAll :: "error option"
  createTemp :: "error option"
  chmodTemp :: "error option"
  writeTemp :: "error option"
  syncTemp :: "error option"
  closeTemp :: "error option"
  renameTemp :: rename_result
  rewrite :: RewriteIO

record RuntimeSettings =
  RS_MaxRunning :: int
  RS_CircuitRotateMinutes :: int

record UpstreamSettings =
  US_Address :: string
  US_Username :: string
  US_HasPassword :: bool

record ClientSettings =
  CS_Host :: string
  CS_BasePort :: int
  CS_HasAPIKey :: bool

record ClientUpdate =
  CU_Host :: string
  CU_BasePort :: int
  CU_APIKey :: "string option"
  CU_ClearAPIKey :: bool
  CU_RegenerateKey :: bool

record UpstreamUpdate =
  UU_Address :: string
  UU_Username :: string
  UU_Password :: "string option"
  UU_ClearPassword :: bool

definition NewConfigStore :: "string \<Rightarrow> Config \<Rightarrow> Config file_state \<Rightarrow> ConfigStore" where
  "NewConfigStore p stored file = \<lparr>path = p, cfg = stored, configFile = file\<rparr>"

definition ConfigOf :: "ConfigStore \<Rightarrow> Config" where
  [simp]: "ConfigOf s = cfg s"

definition StoredClientAPIKey :: "ConfigStore \<Rightarrow> string" where
  [simp]: "StoredClientAPIKey s = ClientAPIKey (cfg s)"

definition saveLocked :: "SaveIO \<Rightarrow> Config \<Rightarrow> ConfigStore \<Rightarrow> ConfigStore \<times> error option" where
  "saveLocked io c s =
     (if path s = [] then (s, Some ''configuration path is empty'')
      else case marshalResult io of Some e \<Rightarrow> (s, Some e)
      | None \<Rightarrow> case mkdirAll io of Some e \<Rightarrow> (s, Some (''create configuration directory: '' @ e))
      | None \<Rightarrow> case createTemp io of Some e \<Rightarrow> (s, Some (''create temporary configuration: '' @ e))
      | None \<Rightarrow> case chmodTemp io of Some e \<Rightarrow> (s, Some (''set temporary configuration permissions: '' @ e))
      | None \<Rightarrow> case writeTemp io of Some e \<Rightarrow> (s, Some (''write temporary configuration: '' @ e))
      | None \<Rightarrow> case syncTemp io of Some e \<Rightarrow> (s, Some (''sync temporary configuration: '' @ e))
      | None \<Rightarrow> case closeTemp io of Some e \<Rightarrow> (s, Some (''close temporary configuration: '' @ e))
      | None \<Rightarrow> case replaceFile (renameTemp io) (rewrite io) (Holds c) (configFile s) of
          (f, Some e) \<Rightarrow> (s\<lparr>configFile := f\<rparr>, Some (''save configuration: '' @ e))
        | (f, None) \<Rightarrow> (s\<lparr>configFile := f\<rparr>, None))"

text \<open>The common end of the updates: validate, save, and only then take the new configuration.\<close>

definition commit :: "SaveIO \<Rightarrow> Config \<Rightarrow> ConfigStore \<Rightarrow> ConfigStore \<times> error option" where
  "commit io next s =
     (case validate next of Some e \<Rightarrow> (s, Some e)
      | None \<Rightarrow> case saveLocked io next s of
          (s', Some e) \<Rightarrow> (s', Some e)
        | (s', None) \<Rightarrow> (s'\<lparr>cfg := next\<rparr>, None))"

definition Runtime :: "ConfigStore \<Rightarrow> RuntimeSettings" where
  "Runtime s = \<lparr>RS_MaxRunning = MaxRunning (cfg s), RS_CircuitRotateMinutes = CircuitRotateMinutes (cfg s)\<rparr>"

definition Upstream :: "ConfigStore \<Rightarrow> UpstreamSettings" where
  "Upstream s = \<lparr>US_Address = UpstreamSOCKS5 (cfg s), US_Username = UpstreamUsername (cfg s),
     US_HasPassword = (UpstreamPassword (cfg s) \<noteq> [])\<rparr>"

definition Client :: "bool \<Rightarrow> ConfigStore \<Rightarrow> ClientSettings" where
  "Client effectiveHasAPIKey s = \<lparr>CS_Host = CountryProxyHost (cfg s), CS_BasePort = CountryProxyPort (cfg s),
     CS_HasAPIKey = (effectiveHasAPIKey \<or> ClientAPIKey (cfg s) \<noteq> [])\<rparr>"

definition UpdateRuntime :: "SaveIO \<Rightarrow> RuntimeSettings \<Rightarrow> ConfigStore \<Rightarrow> ConfigStore \<times> error option" where
  "UpdateRuntime io settings s =
     commit io ((cfg s)\<lparr>MaxRunning := RS_MaxRunning settings,
                          CircuitRotateMinutes := RS_CircuitRotateMinutes settings\<rparr>) s"

definition providedKey :: "ClientUpdate \<Rightarrow> bool" where
  "providedKey u \<longleftrightarrow> (case CU_APIKey u of None \<Rightarrow> False | Some k \<Rightarrow> trim_space k \<noteq> [])"

definition UpdateClient :: "error + string \<Rightarrow> SaveIO \<Rightarrow> ClientUpdate \<Rightarrow> ConfigStore
    \<Rightarrow> ConfigStore \<times> (error + string)" where
  "UpdateClient random io u s =
     (if (CU_RegenerateKey u \<and> CU_ClearAPIKey u) \<or> (providedKey u \<and> (CU_RegenerateKey u \<or> CU_ClearAPIKey u))
      then (s, Inl ''choose only one API key action'')
      else
        let next = (cfg s)\<lparr>CountryProxyHost := trim_space (CU_Host u), CountryProxyPort := CU_BasePort u\<rparr>;
            finish = (\<lambda>next generated. case commit io next s of
                (s', Some e) \<Rightarrow> (s', Inl e) | (s', None) \<Rightarrow> (s', Inr generated))
        in if CU_RegenerateKey u then
             (case random of Inl e \<Rightarrow> (s, Inl (''generate client API key: '' @ e))
              | Inr value \<Rightarrow> let generated = b64_encode url_alphabet value
                  in finish (next\<lparr>ClientAPIKey := generated\<rparr>) generated)
           else if CU_ClearAPIKey u then finish (next\<lparr>ClientAPIKey := []\<rparr>) []
           else if providedKey u then finish (next\<lparr>ClientAPIKey := trim_space (the (CU_APIKey u))\<rparr>) []
           else finish next [])"

definition upstream_change :: "UpstreamUpdate \<Rightarrow> Config \<Rightarrow> Config" where
  "upstream_change u c =
     (let address = trim_space (UU_Address u); username = trim_space (UU_Username u);
          n1 = c\<lparr>UpstreamSOCKS5 := address, UpstreamUsername := username\<rparr>;
          n2 = (if UU_ClearPassword u \<or> address = [] then n1\<lparr>UpstreamPassword := []\<rparr>
                else case UU_Password u of
                    Some p \<Rightarrow> if p \<noteq> [] then n1\<lparr>UpstreamPassword := p\<rparr> else n1
                  | None \<Rightarrow> n1)
      in if address = [] then n2\<lparr>UpstreamUsername := []\<rparr> else n2)"

definition UpdateUpstream :: "SaveIO \<Rightarrow> UpstreamUpdate \<Rightarrow> ConfigStore \<Rightarrow> ConfigStore \<times> error option" where
  "UpdateUpstream io u s = commit io (upstream_change u (cfg s)) s"

definition ClearLegacyAuth :: "SaveIO \<Rightarrow> ConfigStore \<Rightarrow> ConfigStore \<times> error option" where
  "ClearLegacyAuth io s =
     (if AuthToken (cfg s) = [] then (s, None)
      else let next = (cfg s)\<lparr>AuthToken := []\<rparr> in
        case saveLocked io next s of
          (s', Some e) \<Rightarrow> (s', Some e)
        | (s', None) \<Rightarrow> (s'\<lparr>cfg := next\<rparr>, None))"

section \<open>The contract of an update\<close>

text \<open>
  Every update that the settings pages make is atomic for the store: it either fails and leaves the
  configuration in memory as it was, or succeeds with a valid configuration that the file holds too.
  The file is untouched by a failure, unless it is a mounted file whose rewriting in place breaks off after
  the file was truncated.
\<close>

definition whole_rewrite :: "SaveIO \<Rightarrow> bool" where
  "whole_rewrite io \<longleftrightarrow> (renameTemp io = Rename_busy \<longrightarrow>
     (let r = rewrite io in openSource r \<noteq> None \<or> openDestination r \<noteq> None
        \<or> (copyData r = None \<and> syncOutput r = None \<and> closeOutput r = None)))"

locale atomic_update =
  fixes update :: "SaveIO \<Rightarrow> ConfigStore \<Rightarrow> ConfigStore \<times> error option"
  assumes failed: "update io s = (s', Some e) \<Longrightarrow> cfg s' = cfg s \<and> path s' = path s"
    and failed_file: "update io s = (s', Some e) \<Longrightarrow> whole_rewrite io \<Longrightarrow> s' = s"
    and committed: "update io s = (s', None) \<Longrightarrow>
      validate (cfg s') = None \<and> configFile s' = Holds (cfg s') \<and> path s' = path s"
begin

lemma keeps_valid: "validate (cfg s) = None \<Longrightarrow> validate (cfg (fst (update io s))) = None"
  by (cases "update io s"; cases "snd (update io s)") (auto dest: failed committed)

lemma keeps_file:
  "configFile s = Holds (cfg s) \<Longrightarrow> whole_rewrite io \<Longrightarrow>
     configFile (fst (update io s)) = Holds (cfg (fst (update io s)))"
  by (cases "update io s"; cases "snd (update io s)") (auto dest: failed_file committed)

text \<open>A whole sequence of updates keeps a valid configuration valid.\<close>

lemma run_keeps_valid:
  "validate (cfg s) = None \<Longrightarrow> validate (cfg (fold (\<lambda>io s. fst (update io s)) ios s)) = None"
  by (induction ios arbitrary: s) (simp_all add: keeps_valid)

end

lemma replaceFile_error:
  "replaceFile (renameTemp io) (rewrite io) new f = (f', Some e) \<Longrightarrow> whole_rewrite io \<Longrightarrow> f' = f"
  by (auto simp: replaceFile_def rewriteMountedFile_def whole_rewrite_def Let_def split: rename_result.splits option.splits)

lemma replaceFile_ok: "replaceFile rn io new f = (f', None) \<Longrightarrow> f' = new"
  by (auto simp: replaceFile_def rewriteMountedFile_def split: rename_result.splits option.splits)

lemma saveLocked_error:
  assumes "saveLocked io c s = (s', Some e)"
  shows "cfg s' = cfg s \<and> path s' = path s" "whole_rewrite io \<Longrightarrow> s' = s"
  using assms
  by (auto simp: saveLocked_def split: if_splits option.splits prod.splits dest!: replaceFile_error)

lemma saveLocked_ok:
  "saveLocked io c s = (s', None) \<Longrightarrow> s' = s\<lparr>configFile := Holds c\<rparr>"
  by (auto simp: saveLocked_def split: if_splits option.splits prod.splits dest!: replaceFile_ok)

lemma commit_error:
  assumes "commit io next s = (s', Some e)"
  shows "cfg s' = cfg s \<and> path s' = path s" "whole_rewrite io \<Longrightarrow> s' = s"
  using assms by (auto simp: commit_def split: option.splits prod.splits dest: saveLocked_error)

lemma commit_ok:
  assumes "commit io next s = (s', None)"
  shows "validate next = None" "s' = s\<lparr>configFile := Holds next, cfg := next\<rparr>"
  using assms by (auto simp: commit_def split: option.splits prod.splits dest: saveLocked_ok)

lemma commit_atomic:
  "commit io next s = (s', None) \<Longrightarrow>
     validate (cfg s') = None \<and> configFile s' = Holds (cfg s') \<and> path s' = path s"
  by (frule commit_ok(1), drule commit_ok(2), simp)

interpretation runtime_update: atomic_update "\<lambda>io. UpdateRuntime io settings" for settings
  by unfold_locales (auto simp: UpdateRuntime_def dest: commit_error commit_atomic)

interpretation upstream_update: atomic_update "\<lambda>io. UpdateUpstream io u" for u
  by unfold_locales (auto simp: UpdateUpstream_def dest: commit_error commit_atomic)

text \<open>UpdateClient returns the generated key beside the error; its error part is such an update.\<close>

definition result_error :: "error + 'a \<Rightarrow> error option" where
  "result_error r = (case r of Inl e \<Rightarrow> Some e | Inr _ \<Rightarrow> None)"

lemma UpdateClient_cases:
  obtains (refused) e where "UpdateClient random io u s = (s, Inl e)"
  | (tried) n g where "\<not> (CU_RegenerateKey u \<and> CU_ClearAPIKey u)"
      "\<not> (providedKey u \<and> (CU_RegenerateKey u \<or> CU_ClearAPIKey u))"
      "n = (cfg s)\<lparr>CountryProxyHost := trim_space (CU_Host u), CountryProxyPort := CU_BasePort u,
          ClientAPIKey := (if CU_RegenerateKey u then g else if CU_ClearAPIKey u then []
             else if providedKey u then trim_space (the (CU_APIKey u)) else ClientAPIKey (cfg s))\<rparr>"
      "CU_RegenerateKey u \<Longrightarrow> \<exists>v. random = Inr v \<and> g = b64_encode url_alphabet v"
      "\<not> CU_RegenerateKey u \<Longrightarrow> g = []"
      "UpdateClient random io u s = (case commit io n s of
          (s', Some e) \<Rightarrow> (s', Inl e) | (s', None) \<Rightarrow> (s', Inr g))"
proof (cases "(CU_RegenerateKey u \<and> CU_ClearAPIKey u) \<or> (providedKey u \<and> (CU_RegenerateKey u \<or> CU_ClearAPIKey u))")
  case True
  then show ?thesis by (intro refused) (simp add: UpdateClient_def)
next
  case one: False
  show ?thesis
  proof (cases "CU_RegenerateKey u")
    case True
    show ?thesis
    proof (cases random)
      case (Inl e)
      with True one show ?thesis by (intro refused) (simp add: UpdateClient_def)
    next
      case (Inr v)
      with True one show ?thesis
        by (intro tried [OF _ _ refl, of "b64_encode url_alphabet v"]) (simp_all add: UpdateClient_def Let_def)
    qed
  next
    case False
    with one show ?thesis
      by (intro tried [OF _ _ refl, of "[]"]) (auto simp: UpdateClient_def Let_def)
  qed
qed

definition client_update :: "error + string \<Rightarrow> ClientUpdate \<Rightarrow> SaveIO \<Rightarrow> ConfigStore \<Rightarrow> ConfigStore \<times> error option" where
  "client_update random u io s = (let (s', r) = UpdateClient random io u s in (s', result_error r))"

lemma client_update_cases:
  obtains (refused) e where "client_update random u io s = (s, Some e)"
  | (tried) n where "client_update random u io s = commit io n s"
proof (cases rule: UpdateClient_cases [of random io u s])
  case (refused e)
  then show ?thesis by (intro that(1)) (simp add: client_update_def result_error_def)
next
  case (tried n g)
  show ?thesis
  proof (cases "commit io n s")
    case (Pair s' r)
    with tried(6) show ?thesis
      by (intro that(2) [of n], cases r) (simp_all add: client_update_def result_error_def)
  qed
qed

interpretation client_update: atomic_update "client_update random u" for random u
proof
  fix io s s' e
  assume "client_update random u io s = (s', Some e)"
  then show "cfg s' = cfg s \<and> path s' = path s"
    by (cases rule: client_update_cases [of random u io s]) (auto dest: commit_error)
next
  fix io s s' e
  assume "client_update random u io s = (s', Some e)" "whole_rewrite io"
  then show "s' = s"
    by (cases rule: client_update_cases [of random u io s]) (auto dest: commit_error)
next
  fix io s s'
  assume "client_update random u io s = (s', None)"
  then show "validate (cfg s') = None \<and> configFile s' = Holds (cfg s') \<and> path s' = path s"
    by (cases rule: client_update_cases [of random u io s]) (auto dest: commit_atomic)
qed

lemma ClearLegacyAuth_cases:
  obtains (nothing) "ClearLegacyAuth io s = (s, None)"
  | (failed) s' e where "ClearLegacyAuth io s = (s', Some e)" "cfg s' = cfg s"
      "whole_rewrite io \<Longrightarrow> s' = s"
  | (cleared) c where "c = (cfg s)\<lparr>AuthToken := []\<rparr>" "ClearLegacyAuth io s = (s\<lparr>configFile := Holds c, cfg := c\<rparr>, None)"
proof (cases "AuthToken (cfg s) = []")
  case True
  then have "ClearLegacyAuth io s = (s, None)" by (simp add: ClearLegacyAuth_def)
  then show ?thesis by (rule nothing)
next
  case False
  obtain s' r where sv: "saveLocked io ((cfg s)\<lparr>AuthToken := []\<rparr>) s = (s', r)" by fastforce
  show ?thesis
  proof (cases r)
    case None
    with False sv saveLocked_ok [of io "(cfg s)\<lparr>AuthToken := []\<rparr>" s s'] show ?thesis
      by (intro cleared [OF refl]) (simp add: ClearLegacyAuth_def Let_def)
  next
    case (Some e)
    with False sv saveLocked_error [of io "(cfg s)\<lparr>AuthToken := []\<rparr>" s s' e] show ?thesis
      by (intro failed [of s' e]) (simp_all add: ClearLegacyAuth_def Let_def)
  qed
qed

section \<open>Properties\<close>

text \<open>The writes that the pages of the web interface make to the store.\<close>

datatype settings_write =
  Write_runtime RuntimeSettings
| Write_upstream UpstreamUpdate
| Write_client "error + string" ClientUpdate
| Write_no_legacy

definition apply_write :: "SaveIO \<Rightarrow> settings_write \<Rightarrow> ConfigStore \<Rightarrow> ConfigStore" where
  "apply_write io w s = (case w of
     Write_runtime r \<Rightarrow> fst (UpdateRuntime io r s)
   | Write_upstream u \<Rightarrow> fst (UpdateUpstream io u s)
   | Write_client random u \<Rightarrow> fst (UpdateClient random io u s)
   | Write_no_legacy \<Rightarrow> fst (ClearLegacyAuth io s))"

definition store_ok :: "ConfigStore \<Rightarrow> bool" where
  "store_ok s \<longleftrightarrow> validate (cfg s) = None \<and> configFile s = Holds (cfg s)"

lemma validate_no_legacy [simp]: "validate (c\<lparr>AuthToken := t\<rparr>) = validate c"
  by (simp add: validate_def cong: option.case_cong)

lemma fst_client_update: "fst (UpdateClient random io u s) = fst (client_update random u io s)"
  by (simp add: client_update_def split: prod.splits)

lemma apply_write_ok:
  assumes "store_ok s" and "whole_rewrite io"
  shows "store_ok (apply_write io w s)"
proof (cases w)
  case (Write_runtime r)
  with assms show ?thesis
    by (simp add: store_ok_def apply_write_def runtime_update.keeps_valid runtime_update.keeps_file)
next
  case (Write_upstream u)
  with assms show ?thesis
    by (simp add: store_ok_def apply_write_def upstream_update.keeps_valid upstream_update.keeps_file)
next
  case (Write_client random u)
  with assms show ?thesis
    by (simp add: store_ok_def apply_write_def fst_client_update client_update.keeps_valid client_update.keeps_file)
next
  case Write_no_legacy
  with assms show ?thesis
    by (cases rule: ClearLegacyAuth_cases [of io s]) (auto simp: store_ok_def apply_write_def)
qed

text \<open>C14: Whatever settings are written, in any order and with any outcome of the file operations,
  the configuration in memory stays valid and is the one the file holds, so that a restart sees the
  configuration in force.  This includes a configuration file that is a mount point and is rewritten in
  place, as long as the rewriting does not fail after it has truncated the file.\<close>

theorem settings_writes_consistent:
  assumes "validate (cfg s) = None" and "configFile s = Holds (cfg s)"
    and "list_all (\<lambda>(io, w). whole_rewrite io) ws"
  shows "validate (cfg (fold (\<lambda>(io, w). apply_write io w) ws s)) = None \<and>
    configFile (fold (\<lambda>(io, w). apply_write io w) ws s) = Holds (cfg (fold (\<lambda>(io, w). apply_write io w) ws s))"
proof -
  have "store_ok s" using assms(1,2) by (simp add: store_ok_def)
  then have "store_ok (fold (\<lambda>(io, w). apply_write io w) ws s)"
    using assms(3)
  proof (induction ws arbitrary: s)
    case (Cons iow ws)
    then show ?case by (cases iow) (simp add: apply_write_ok)
  qed simp
  then show ?thesis by (simp add: store_ok_def)
qed

definition calm_io :: SaveIO where
  "calm_io = \<lparr>marshalResult = None, mkdirAll = None, createTemp = None, chmodTemp = None, writeTemp = None,
     syncTemp = None, closeTemp = None, renameTemp = Renamed,
     rewrite = \<lparr>openSource = None, openDestination = None, copyData = None, syncOutput = None, closeOutput = None\<rparr>\<rparr>"

definition sample_store :: ConfigStore where
  "sample_store = NewConfigStore ''/etc/config.json'' (defaultConfig False) (Holds (defaultConfig False))"

theorem settings_writes_consistent_witness:
  "configFile (fold (\<lambda>(io, w). apply_write io w)
      [(calm_io\<lparr>renameTemp := Rename_busy\<rparr>, Write_runtime \<lparr>RS_MaxRunning = 3, RS_CircuitRotateMinutes = 10\<rparr>),
       (calm_io\<lparr>renameTemp := Rename_failed ''EACCES''\<rparr>, Write_no_legacy)] sample_store)
     = Holds ((defaultConfig False)\<lparr>MaxRunning := 3, CircuitRotateMinutes := 10\<rparr>)"
proof -
  let ?ws = "[(calm_io\<lparr>renameTemp := Rename_busy\<rparr>, Write_runtime \<lparr>RS_MaxRunning = 3, RS_CircuitRotateMinutes = 10\<rparr>),
       (calm_io\<lparr>renameTemp := Rename_failed ''EACCES''\<rparr>, Write_no_legacy)]"
  have 1: "validate (cfg sample_store) = None"
    by (simp add: sample_store_def NewConfigStore_def validate_default_linux)
  have 2: "configFile sample_store = Holds (cfg sample_store)"
    by (simp add: sample_store_def NewConfigStore_def)
  have 3: "list_all (\<lambda>(io, w). whole_rewrite io) ?ws" by (simp add: calm_io_def whole_rewrite_def)
  have 4: "cfg (fold (\<lambda>(io, w). apply_write io w) ?ws sample_store)
      = (defaultConfig False)\<lparr>MaxRunning := 3, CircuitRotateMinutes := 10\<rparr>"
    by code_simp
  show ?thesis using settings_writes_consistent [OF 1 2 3] 4 by simp
qed

text \<open>C38: An update of the client settings does at most one thing with the API key.  A request for two of
  the actions - generate a key, clear it, store the given one - always fails and changes nothing.  A
  successful update stores the trimmed host and the base port, and it stores the generated key and
  returns it, clears the key, stores the given one, or keeps it; nothing else of the configuration
  changes, and the file holds the new one.\<close>

theorem client_key_actions:
  assumes "UpdateClient (Inr value) io u s = (s', r)"
  shows "(2 \<le> length (filter id [CU_RegenerateKey u, CU_ClearAPIKey u, (case CU_APIKey u of None \<Rightarrow> False | Some k \<Rightarrow> trim_space k \<noteq> [])])
      \<longrightarrow> s' = s \<and> (\<exists>e. r = Inl e))
    \<and> (\<forall>generated. r = Inr generated \<longrightarrow>
       cfg s' = (cfg s)\<lparr>CountryProxyHost := trim_space (CU_Host u), CountryProxyPort := CU_BasePort u,
         ClientAPIKey := (if CU_RegenerateKey u then generated else if CU_ClearAPIKey u then []
           else case CU_APIKey u of Some k \<Rightarrow> if trim_space k = [] then ClientAPIKey (cfg s) else trim_space k
                | None \<Rightarrow> ClientAPIKey (cfg s))\<rparr>
       \<and> generated = (if CU_RegenerateKey u then b64_encode url_alphabet value else [])
       \<and> configFile s' = Holds (cfg s'))"
proof (cases rule: UpdateClient_cases [of "Inr value" io u s])
  case (refused e)
  with assms have "s' = s" "r = Inl e" by simp_all
  then show ?thesis by simp
next
  case (tried n g)
  have "\<not> 2 \<le> length (filter id [CU_RegenerateKey u, CU_ClearAPIKey u, (case CU_APIKey u of None \<Rightarrow> False | Some k \<Rightarrow> trim_space k \<noteq> [])])"
    using tried(1,2) by (simp add: providedKey_def)
  moreover have "cfg s' = n \<and> g = generated \<and> configFile s' = Holds (cfg s')" if "r = Inr generated" for generated
  proof -
    obtain t err where c: "commit io n s = (t, err)" by fastforce
    with assms that tried(6) have "err = None" "t = s'" "g = generated" by (cases err; simp)+
    with commit_ok(2) [of io n s s'] c show ?thesis by simp
  qed
  ultimately show ?thesis
    using tried(3-5) by (auto simp: providedKey_def split: option.splits if_splits)
qed

theorem client_key_actions_witness:
  "(\<exists>s'. UpdateClient (Inr ''abc'') calm_io
      \<lparr>CU_Host = '' 0.0.0.0 '', CU_BasePort = 21000, CU_APIKey = Some ''  '', CU_ClearAPIKey = True,
       CU_RegenerateKey = False\<rparr> sample_store = (s', Inr [])
    \<and> ClientAPIKey (cfg s') = [] \<and> configFile s' = Holds (cfg s'))
   \<and> fst (UpdateClient (Inr ''abc'') calm_io
      \<lparr>CU_Host = [], CU_BasePort = 21000, CU_APIKey = Some ''key'', CU_ClearAPIKey = True, CU_RegenerateKey = False\<rparr>
      sample_store) = sample_store"
proof
  let ?u = "\<lparr>CU_Host = '' 0.0.0.0 '', CU_BasePort = 21000, CU_APIKey = Some ''  '', CU_ClearAPIKey = True,
       CU_RegenerateKey = False\<rparr>"
  let ?s = "fst (UpdateClient (Inr ''abc'') calm_io ?u sample_store)"
  have "snd (UpdateClient (Inr ''abc'') calm_io ?u sample_store) = Inr []" by code_simp
  then have 1: "UpdateClient (Inr ''abc'') calm_io ?u sample_store = (?s, Inr [])"
    by (metis prod.collapse)
  show "\<exists>s'. UpdateClient (Inr ''abc'') calm_io ?u sample_store = (s', Inr []) \<and> ClientAPIKey (cfg s') = [] \<and> configFile s' = Holds (cfg s')"
    using client_key_actions [OF 1] 1 by auto
  let ?v = "\<lparr>CU_Host = [], CU_BasePort = 21000, CU_APIKey = Some ''key'', CU_ClearAPIKey = True, CU_RegenerateKey = False\<rparr>"
  have t: "trim_space ''key'' \<noteq> []" by code_simp
  obtain s' r where 2: "UpdateClient (Inr ''abc'') calm_io ?v sample_store = (s', r)" by fastforce
  show "fst (UpdateClient (Inr ''abc'') calm_io ?v sample_store) = sample_store"
    using client_key_actions [OF 2, THEN conjunct1] 2 t by simp
qed

text \<open>C39: After a successful update of the upstream proxy, no address means no credentials either;
  with an address, the stored user name is the given one, the password is dropped on request, else
  replaced when one was given, else kept; and both credentials are set or none is.\<close>

theorem upstream_update_credentials:
  assumes "UpdateUpstream io u s = (s', None)"
  shows "UpstreamSOCKS5 (cfg s') = trim_space (UU_Address u)
    \<and> UpstreamUsername (cfg s') = (if UpstreamSOCKS5 (cfg s') = [] then [] else trim_space (UU_Username u))
    \<and> UpstreamPassword (cfg s') = (if UU_ClearPassword u \<or> UpstreamSOCKS5 (cfg s') = [] then []
         else case UU_Password u of Some p \<Rightarrow> if p = [] then UpstreamPassword (cfg s) else p
              | None \<Rightarrow> UpstreamPassword (cfg s))
    \<and> (UpstreamUsername (cfg s') = []) = (UpstreamPassword (cfg s') = [])"
proof -
  note c = assms [unfolded UpdateUpstream_def]
  note d = commit_ok(2) [OF c]
  have "validate (cfg s') = None" using commit_ok(1) [OF c] d by simp
  then have "(UpstreamUsername (cfg s') = []) = (UpstreamPassword (cfg s') = [])"
    by (rule validate_None(15))
  then show ?thesis by (auto simp: d upstream_change_def Let_def split: option.splits)
qed

theorem upstream_update_credentials_witness:
  "\<exists>s'. UpdateUpstream calm_io \<lparr>UU_Address = ''10.0.0.1:1080'', UU_Username = ''u '', UU_Password = Some ''pw'',
      UU_ClearPassword = False\<rparr> sample_store = (s', None)
    \<and> UpstreamPassword (cfg s') = ''pw'' \<and> UpstreamUsername (cfg s') \<noteq> []"
proof -
  let ?u = "\<lparr>UU_Address = ''10.0.0.1:1080'', UU_Username = ''u '', UU_Password = Some ''pw'', UU_ClearPassword = False\<rparr>"
  let ?s = "fst (UpdateUpstream calm_io ?u sample_store)"
  have "snd (UpdateUpstream calm_io ?u sample_store) = None" by code_simp
  then have 1: "UpdateUpstream calm_io ?u sample_store = (?s, None)"
    by (metis prod.collapse)
  have "UpstreamSOCKS5 (cfg ?s) \<noteq> []" by code_simp
  then show ?thesis using upstream_update_credentials [OF 1] 1 by auto
qed

end
