(* ===== verification/Go_Http.thy ===== *)
theory Go_Http
  imports Go_Prelude
begin

text \<open>
  What the sources use of path/filepath and of the request and response types of net/http.
  A request carries its method, the path of its URL, its Host, the peer address, its headers
  (\<^verbatim>\<open>Header.Get\<close>, empty when absent), its cookies and whether it came over TLS.
\<close>

section \<open>filepath.Join on Unix\<close>

fun clean_parts :: "bool \<Rightarrow> string list \<Rightarrow> string list \<Rightarrow> string list" where
  "clean_parts rooted out [] = rev out"
| "clean_parts rooted out (p # ps) =
     (if p = [] \<or> p = ''.'' then clean_parts rooted out ps
      else if p = ''..'' then
        (case out of
           q # qs \<Rightarrow> if q = ''..'' then clean_parts rooted (p # out) ps else clean_parts rooted qs ps
         | [] \<Rightarrow> if rooted then clean_parts rooted [] ps else clean_parts rooted [p] ps)
      else clean_parts rooted (p # out) ps)"

definition clean_path :: "string \<Rightarrow> string" where
  "clean_path s =
     (let rooted = has_prefix s ''/''; body = join_with ''/'' (clean_parts rooted [] (split_on CHR ''/'' s))
      in if rooted then CHR ''/'' # body else if body = [] then ''.'' else body)"

definition path_join :: "string list \<Rightarrow> string" where
  "path_join ps = (let qs = filter (\<lambda>p. p \<noteq> []) ps in
     if qs = [] then [] else clean_path (join_with ''/'' qs))"

definition path_dir :: "string \<Rightarrow> string" where
  "path_dir s = clean_path (rev (dropWhile (\<lambda>c. c \<noteq> CHR ''/'') (rev s)))"

section \<open>Requests and cookies\<close>

record Request =
  Method :: string
  Path :: string
  Host :: string
  RemoteAddr :: string
  Header :: "string \<Rightarrow> string"
  Cookies :: "(string \<times> string) list"
  TLS :: bool

record SetCookie =
  CookieName :: string
  CookieValue :: string
  CookiePath :: string
  MaxAge :: int
  HttpOnly :: bool
  Secure :: bool
  SameSiteStrict :: bool

section \<open>Bytes that are not white space\<close>

definition plain_byte :: "char \<Rightarrow> bool" where
  "plain_byte c \<longleftrightarrow> 32 < (of_char c :: nat) \<and> (of_char c :: nat) < 128"

lemma plain_not_space:
  "plain_byte c \<Longrightarrow> \<not> ascii_space c \<and> \<not> space2 c b \<and> \<not> space2 b c \<and> \<not> space3 c b d \<and> \<not> space3 d b c"
  by (auto simp: plain_byte_def ascii_space_def space2_def space3_def)

lemma space_width_plain: "plain_byte c \<Longrightarrow> space_width (c # cs) = 0"
  by (induction "c # cs" rule: space_width.induct) (auto simp: plain_not_space)

lemma space_width_rev_plain: "plain_byte c \<Longrightarrow> space_width_rev (c # cs) = 0"
  by (induction "c # cs" rule: space_width_rev.induct) (auto simp: plain_not_space)

lemma space_width_rev_newline: "space_width_rev (CHR 0x0A # cs) = 1"
  by (induction "CHR 0x0A # cs" rule: space_width_rev.induct) (auto simp: ascii_space_def)

text \<open>A text between plain bytes survives trimming, also with the newline that ends a file.\<close>

lemma trim_space_line:
  assumes "s \<noteq> []" "plain_byte (hd s)" "plain_byte (last s)"
  shows "trim_space (s @ [CHR 0x0A]) = s"
proof -
  obtain c cs where s: "s = c # cs" using assms(1) by (cases s) auto
  obtain d ds where r: "rev s = d # ds" using assms(1) by (cases "rev s") auto
  then have d: "plain_byte d" using assms by (metis hd_rev list.sel(1))
  have 1: "trim_by space_width (s @ [CHR 0x0A]) = s @ [CHR 0x0A]"
    using assms(2) s by (simp add: trim_by.simps [of space_width "c # cs @ [CHR 0x0A]"] space_width_plain)
  have "trim_by space_width_rev (CHR 0x0A # rev s) = trim_by space_width_rev (rev s)"
    by (subst trim_by.simps) (simp add: space_width_rev_newline)
  also have "\<dots> = rev s"
    using d r by (simp add: trim_by.simps [of space_width_rev "d # ds"] space_width_rev_plain)
  finally show ?thesis using 1 by (simp add: trim_space_def)
qed

lemma trim_space_plain:
  assumes "s \<noteq> []" "plain_byte (hd s)" "plain_byte (last s)"
  shows "trim_space s = s"
proof -
  obtain c cs where s: "s = c # cs" using assms(1) by (cases s) auto
  obtain d ds where r: "rev s = d # ds" using assms(1) by (cases "rev s") auto
  then have d: "plain_byte d" using assms by (metis hd_rev list.sel(1))
  have "trim_by space_width s = s"
    using assms(2) s by (simp add: trim_by.simps [of space_width "c # cs"] space_width_plain)
  moreover have "trim_by space_width_rev (rev s) = rev s"
    using d r by (simp add: trim_by.simps [of space_width_rev "d # ds"] space_width_rev_plain)
  ultimately show ?thesis by (simp add: trim_space_def)
qed

end
