(* ===== verification/Auth.thy ===== *)
theory Auth
  imports Configuration Go_Http Go_Crypto
begin

unbundle bit_operations_syntax

text \<open>
  \<^verbatim>\<open>src/auth.go\<close> and \<^verbatim>\<open>src/runtime_auth.go\<close>: the administrator password with its login rate
  limit and sessions, and the client API key.

  The state of \<^verbatim>\<open>AuthStore\<close> carries, beside its Go fields, the contents of the password file.
  Every method holds the store's lock for its whole body, so a method is one step.  The random
  bytes, the clock readings and the outcome of file operations are arguments.
\<close>

section \<open>Data\<close>

definition passwordIterations :: int where "passwordIterations = 210000"
definition sessionCookieName :: string where "sessionCookieName = ''tor_manager_session''"
definition sessionLifetime :: duration where "sessionLifetime = 12 * hour"
definition loginFailureLimit :: int where "loginFailureLimit = 5"
definition loginBlockDuration :: duration where "loginBlockDuration = 5 * minute"
definition loginRecordLifetime :: duration where "loginRecordLifetime = 15 * minute"

lemmas auth_consts = passwordIterations_def sessionLifetime_def loginFailureLimit_def
  loginBlockDuration_def loginRecordLifetime_def duration_defs

record loginAttempt =
  Failures :: int
  BlockedUntil :: time
  LastSeen :: time

record AuthStore =
  hashPath :: string
  legacy :: string
  hash :: string
  sessions :: "(string, time) gomap"
  loginAttempts :: "(string, loginAttempt) gomap"
  hashFile :: "string option"

definition noAttempt :: loginAttempt where
  "noAttempt = \<lparr>Failures = 0, BlockedUntil = 0, LastSeen = 0\<rparr>"

section \<open>Password hashes\<close>

fun pbkdf2_loop :: "string \<Rightarrow> nat \<Rightarrow> string \<Rightarrow> string \<Rightarrow> string" where
  "pbkdf2_loop password 0 u result = result"
| "pbkdf2_loop password (Suc n) u result =
     (let u' = hmac_sha256 password u in pbkdf2_loop password n u' (map2 xor_byte result u'))"

definition pbkdf2SHA256 :: "string \<Rightarrow> string \<Rightarrow> int \<Rightarrow> string" where
  "pbkdf2SHA256 password salt iterations =
     (let u = hmac_sha256 password (salt @ [CHR 0x00, CHR 0x00, CHR 0x00, CHR 0x01])
      in pbkdf2_loop password (nat (iterations - 1)) u u)"

definition dollar :: char where "dollar = CHR 0x24"

text \<open>\<open>salt\<close> are the sixteen bytes that \<^verbatim>\<open>rand.Read\<close> fills in.\<close>

definition hashPassword :: "string \<Rightarrow> string \<Rightarrow> string" where
  "hashPassword salt password =
     ''pbkdf2-sha256'' @ [dollar] @ itoa passwordIterations @ [dollar] @ b64_encode std_alphabet salt
       @ [dollar] @ b64_encode std_alphabet (pbkdf2SHA256 password salt passwordIterations)"

definition verifyPassword :: "string \<Rightarrow> string \<Rightarrow> bool" where
  "verifyPassword encoded password =
     (let parts = split_on dollar encoded in
      if length parts \<noteq> 4 \<or> parts ! 0 \<noteq> ''pbkdf2-sha256'' then False
      else case atoi (parts ! 1) of None \<Rightarrow> False
      | Some iterations \<Rightarrow>
          if iterations < 100000 \<or> iterations > 1000000 then False
          else case b64_decode std_alphabet (parts ! 2) of None \<Rightarrow> False
          | Some salt \<Rightarrow>
              if length salt < 16 then False
              else case b64_decode std_alphabet (parts ! 3) of None \<Rightarrow> False
              | Some expected \<Rightarrow>
                  if length expected \<noteq> 32 then False
                  else pbkdf2SHA256 password salt iterations = expected)"

section \<open>The store\<close>

definition NewAuthStore :: "Config \<Rightarrow> error + string option \<Rightarrow> error + AuthStore" where
  "NewAuthStore cfg file =
     (let store = \<lparr>hashPath = path_join [StateDir cfg, ''web-password.hash''],
            legacy = AuthToken cfg, hash = [], sessions = [], loginAttempts = [], hashFile = None\<rparr>
      in case file of
        Inl e \<Rightarrow> Inl (''read web password: '' @ e)
      | Inr None \<Rightarrow> Inr store
      | Inr (Some b) \<Rightarrow> Inr (store\<lparr>hash := trim_space b, hashFile := Some b\<rparr>))"

definition Configured :: "AuthStore \<Rightarrow> bool" where
  "Configured a \<longleftrightarrow> hash a \<noteq> [] \<or> legacy a \<noteq> []"

text \<open>The outcomes of the calls that can fail while a password is stored.  \<^verbatim>\<open>os.WriteFile\<close> truncates the
  file when it opens it, so a write that fails leaves the bytes that were written before.\<close>

record PasswordIO =
  saltBytes :: "error + string"
  mkdirResult :: "error option"
  openResult :: "error option"
  writeResult :: "(nat \<times> error) option"

definition setPasswordLocked :: "PasswordIO \<Rightarrow> string \<Rightarrow> AuthStore \<Rightarrow> AuthStore \<times> error option" where
  "setPasswordLocked io password a =
     (if length password < 8 then (a, Some ''administrator password must contain at least 8 characters'')
      else if length password > 256 then (a, Some ''administrator password is too long'')
      else case saltBytes io of Inl e \<Rightarrow> (a, Some e)
      | Inr salt \<Rightarrow>
        (let h = hashPassword salt password; line = h @ [CHR 0x0A] in
         case mkdirResult io of Some e \<Rightarrow> (a, Some e)
         | None \<Rightarrow>
           (case openResult io of Some e \<Rightarrow> (a, Some (''save web password: '' @ e))
            | None \<Rightarrow>
              (case writeResult io of
                 Some (n, e) \<Rightarrow> (a\<lparr>hashFile := Some (take n line)\<rparr>, Some (''save web password: '' @ e))
               | None \<Rightarrow> (a\<lparr>hashFile := Some line, hash := h\<rparr>, None)))))"

definition verifyLocked :: "AuthStore \<Rightarrow> string \<Rightarrow> bool" where
  "verifyLocked a password =
     (if hash a \<noteq> [] then verifyPassword (hash a) password
      else if legacy a \<noteq> [] then legacy a = password
      else False)"

definition Setup :: "PasswordIO \<Rightarrow> string \<Rightarrow> AuthStore \<Rightarrow> AuthStore \<times> error option" where
  "Setup io password a =
     (if hash a \<noteq> [] \<or> legacy a \<noteq> [] then (a, Some ''administrator password is already configured'')
      else setPasswordLocked io password a)"

definition Change :: "PasswordIO \<Rightarrow> string \<Rightarrow> string \<Rightarrow> AuthStore \<Rightarrow> AuthStore \<times> error option" where
  "Change io current replacement a =
     (if \<not> verifyLocked a current then (a, Some ''current administrator password is incorrect'')
      else case setPasswordLocked io replacement a of
        (a', Some e) \<Rightarrow> (a', Some e)
      | (a', None) \<Rightarrow> (a'\<lparr>legacy := [], sessions := []\<rparr>, None))"

definition authenticateAt :: "string \<Rightarrow> string \<Rightarrow> time \<Rightarrow> AuthStore \<Rightarrow> AuthStore \<times> bool \<times> duration" where
  "authenticateAt client0 password now a =
     (let client = (if client0 = [] then ''unknown'' else client0);
          attempts = filter (\<lambda>(key, attempt). \<not> now - LastSeen attempt > loginRecordLifetime) (loginAttempts a);
          attempt = (case map_of attempts client of Some x \<Rightarrow> x | None \<Rightarrow> noAttempt)
      in if now < BlockedUntil attempt then
           (a\<lparr>loginAttempts := AList.update client (attempt\<lparr>LastSeen := now\<rparr>) attempts\<rparr>,
            False, BlockedUntil attempt - now)
         else if verifyLocked a password then
           (a\<lparr>loginAttempts := AList.delete client attempts\<rparr>, True, 0)
         else
           let attempt1 = attempt\<lparr>Failures := Failures attempt + 1, LastSeen := now\<rparr>;
               attempt2 = (if Failures attempt1 \<ge> loginFailureLimit
                  then attempt1\<lparr>Failures := 0, BlockedUntil := now + loginBlockDuration\<rparr> else attempt1)
           in (a\<lparr>loginAttempts := AList.update client attempt2 attempts\<rparr>, False,
               if now < BlockedUntil attempt2 then BlockedUntil attempt2 - now else 0))"

definition Authenticate :: "time \<Rightarrow> string \<Rightarrow> string \<Rightarrow> AuthStore \<Rightarrow> AuthStore \<times> bool \<times> duration" where
  [simp]: "Authenticate clock client password a = authenticateAt client password clock a"

section \<open>Sessions\<close>

text \<open>
  \<^verbatim>\<open>strings.EqualFold(s, "https")\<close>.  Folding relates a letter to its other case and, for the
  letter s, also to U+017F.
\<close>

definition fold_https :: "string \<Rightarrow> bool" where
  "fold_https s \<longleftrightarrow> map lower_byte s = ''https''
     \<or> (map lower_byte (take 4 s) = ''http'' \<and> drop 4 s = [CHR 0xC5, CHR 0xBF])"

definition secureRequest :: "Request option \<Rightarrow> bool" where
  "secureRequest r = (case r of None \<Rightarrow> False
     | Some r \<Rightarrow> if TLS r then True
         else fold_https (trim_space (split_on CHR '','' (Header r ''X-Forwarded-Proto'') ! 0)))"

definition sessionCookie :: "string \<Rightarrow> int \<Rightarrow> Request \<Rightarrow> SetCookie" where
  "sessionCookie v age r = \<lparr>CookieName = sessionCookieName, CookieValue = v, CookiePath = ''/'',
     MaxAge = age, HttpOnly = True, Secure = secureRequest (Some r), SameSiteStrict = True\<rparr>"

text \<open>\<open>now\<close> is the clock when the expiry is computed; the loop that drops expired sessions reads the clock for each
  of them, \<open>now' v\<close> for the one with token \<open>v\<close>.\<close>

definition CreateSession :: "error + string \<Rightarrow> time \<Rightarrow> (string \<Rightarrow> time) \<Rightarrow> Request \<Rightarrow> AuthStore
    \<Rightarrow> AuthStore \<times> (error + SetCookie)" where
  "CreateSession random now now' r a =
     (case random of Inl e \<Rightarrow> (a, Inl e)
      | Inr tokenBytes \<Rightarrow>
        (let token = b64_encode url_alphabet tokenBytes;
             s1 = AList.update token (now + sessionLifetime) (sessions a);
             s2 = filter (\<lambda>(existing, expires). \<not> now' existing > expires) s1
         in (a\<lparr>sessions := s2\<rparr>, Inr (sessionCookie token (sessionLifetime div second) r))))"

definition ValidSession :: "time \<Rightarrow> Request \<Rightarrow> AuthStore \<Rightarrow> bool" where
  "ValidSession now r a =
     (case map_of (Cookies r) sessionCookieName of
        None \<Rightarrow> False
      | Some v \<Rightarrow> if v = [] then False
          else (case map_of (sessions a) v of None \<Rightarrow> False | Some expires \<Rightarrow> now < expires))"

definition DeleteSession :: "Request \<Rightarrow> AuthStore \<Rightarrow> AuthStore \<times> SetCookie" where
  "DeleteSession r a =
     ((case map_of (Cookies r) sessionCookieName of
         None \<Rightarrow> a | Some v \<Rightarrow> a\<lparr>sessions := AList.delete v (sessions a)\<rparr>),
      sessionCookie [] (-1) r)"

section \<open>The client API key\<close>

record RuntimeClientAuth =
  key :: string

definition NewRuntimeClientAuth :: "string \<Rightarrow> RuntimeClientAuth" where
  "NewRuntimeClientAuth k = \<lparr>key = k\<rparr>"

definition Key :: "RuntimeClientAuth \<Rightarrow> string" where
  [simp]: "Key a = key a"

definition UpdateKey :: "string \<Rightarrow> RuntimeClientAuth \<Rightarrow> RuntimeClientAuth" where
  "UpdateKey k a = a\<lparr>key := k\<rparr>"

definition constantTimeEqual :: "string \<Rightarrow> string \<Rightarrow> bool" where
  "constantTimeEqual value expected =
     (if length value \<noteq> length expected then False else value = expected)"

definition ValidKey :: "RuntimeClientAuth \<Rightarrow> string \<Rightarrow> bool" where
  "ValidKey a value = (let k = Key a in k \<noteq> [] \<and> constantTimeEqual value k)"

definition validBearerToken :: "Request \<Rightarrow> RuntimeClientAuth option \<Rightarrow> bool" where
  "validBearerToken r auth =
     (case auth of None \<Rightarrow> False
      | Some a \<Rightarrow> let v = Header r ''Authorization'' in
          if \<not> has_prefix v ''Bearer '' then False
          else ValidKey a (trim_space (trim_prefix v ''Bearer '')))"

end
