(* ===== verification/Manager_State.thy ===== *)
theory Manager_State
  imports Settings Auth "HOL-Library.Word"
begin

text \<open>
  The data of \<^verbatim>\<open>src/manager.go\<close>.  Instances live in a heap, because the code shares them between
  the map of countries, a pending replacement and its goroutines, and compares pointers.  A started
  process is known by a number; \<open>cmd\<close> of an instance is the number of its process (the code sets it
  only after a successful \<^verbatim>\<open>cmd.Start\<close>, so \<^verbatim>\<open>cmd.Process\<close> is never nil beside it).

  Beside the fields of the source the state keeps what the operations do to the world: the
  goroutines they start, the signals they send, the instance directories with their torrc, the runtime
  state file, and in \<open>beingOpened\<close> the calls of EnsureCountryProxy that are between their checks and the
  registration of their listener.
\<close>

section \<open>Instances\<close>

datatype status = NoStatus | Stopped | Starting | Connecting | Running | Switching | Draining | Stopping | Errored

record Instance =
  ICountry :: Country
  SocksPort :: int
  Status :: status
  BootstrapProgress :: int
  ExitIP :: string
  ExitISP :: string
  ExitASN :: string
  ExitCountryName :: string
  ExitCountryCode :: string
  ExitCity :: string
  SelectedIP :: string
  SelectedNode :: string
  ExitFingerprint :: string
  Error :: error
  StartedAt :: time
  ActiveConnections :: int
  DrainingConnections :: int
  controlPort :: int
  dataDir :: string
  cancelRotation :: "nat option"
  cmd :: "nat option"
  stopping :: bool
  draining :: bool
  replacement :: bool
  replacementSequence :: "64 word"
  replacementPreviousStatus :: status
  replacementPreviousError :: error
  pendingReplacement :: "nat option"
  restartAttempts :: int
  restartScheduled :: bool
  dynamicPorts :: bool

text \<open>The zero value of the struct.\<close>

definition zero_instance :: Instance where
  "zero_instance = \<lparr>ICountry = \<lparr>Code = [], Name = []\<rparr>, SocksPort = 0, Status = NoStatus, BootstrapProgress = 0,
     ExitIP = [], ExitISP = [], ExitASN = [], ExitCountryName = [], ExitCountryCode = [], ExitCity = [],
     SelectedIP = [], SelectedNode = [], ExitFingerprint = [], Error = [], StartedAt = 0,
     ActiveConnections = 0, DrainingConnections = 0, controlPort = 0, dataDir = [], cancelRotation = None,
     cmd = None, stopping = False, draining = False, replacement = False, replacementSequence = 0,
     replacementPreviousStatus = NoStatus, replacementPreviousError = [], pendingReplacement = None,
     restartAttempts = 0, restartScheduled = False, dynamicPorts = False\<rparr>"

definition online :: "status \<Rightarrow> bool" where
  "online st \<longleftrightarrow> st \<in> {Starting, Connecting, Running, Switching}"

lemma online_simps [simp]:
  "online Starting" "online Connecting" "online Running" "online Switching"
  "\<not> online NoStatus" "\<not> online Stopped" "\<not> online Draining" "\<not> online Stopping" "\<not> online Errored"
  by (simp_all add: online_def)

section \<open>The persisted state\<close>

record PersistedNode =
  P_Country :: Country
  P_ExitFingerprint :: string
  P_SelectedIP :: string
  P_SelectedNode :: string
  P_StartedAt :: time

record persistedManagerState =
  PS_Active :: string
  PS_Instances :: "PersistedNode list"

section \<open>Exit nodes (\<^verbatim>\<open>catalog.go\<close>)\<close>

record ExitNode =
  N_Fingerprint :: string
  N_Nickname :: string
  N_IP :: string
  N_ORAddress :: string
  N_CountryCode :: string
  N_CountryName :: string
  N_Continent :: string
  N_ASN :: string
  N_ISP :: string
  N_ConsensusWeight :: int
  N_LatencyMS :: int
  N_LatencyChecked :: time

section \<open>Goroutines and the manager\<close>

datatype task =
  Watch nat nat string
| AwaitReady nat nat
| AwaitBootstrap nat nat
| RunAutoRestart nat int duration
| DrainAndStop nat
| CompleteReplacement nat nat bool "64 word"
| DrainInstance nat nat
| KillLater nat nat
| RotateCircuit nat nat duration
| ServeCountryProxy string

datatype signal = Interrupt | Kill

record Manager =
  mcfg :: Config
  reservedPorts :: "int list"
  heap :: "nat \<Rightarrow> Instance"
  instances :: "(string, nat) gomap"
  allInstances :: "nat list"
  resumeNodes :: "(string, PersistedNode) gomap"
  resumeActive :: string
  active :: string
  countryProxyCtx :: "bool option"
  countryListeners :: "(string, int) gomap"
  beingOpened :: "(string \<times> int) list"
  clientAuth :: RuntimeClientAuth
  shuttingDown :: bool
  nextPtr :: nat
  nextCmd :: nat
  nextCtx :: nat
  cancelled :: "nat list"
  tasks :: "task list"
  signals :: "(nat \<times> signal) list"
  dirs :: "(string, string) gomap"
  stateFile :: "persistedManagerState file_state"

definition modify :: "nat \<Rightarrow> (Instance \<Rightarrow> Instance) \<Rightarrow> Manager \<Rightarrow> Manager" where
  "modify p f m = m\<lparr>heap := (heap m)(p := f (heap m p))\<rparr>"

definition spawn :: "task \<Rightarrow> Manager \<Rightarrow> Manager" where
  "spawn t m = m\<lparr>tasks := tasks m @ [t]\<rparr>"

definition allocate :: "Instance \<Rightarrow> Manager \<Rightarrow> Manager" where
  "allocate i m = m\<lparr>heap := (heap m)(nextPtr m := i), nextPtr := Suc (nextPtr m)\<rparr>"

definition code_of :: "Manager \<Rightarrow> nat \<Rightarrow> string" where
  "code_of m p = Code (ICountry (heap m p))"

text \<open>What the operations learn from outside at one point: the clock, the outcomes of file and
  process operations, and the ports that the system hands out to a listener on port zero.\<close>

record Env =
  now :: time
  unixNano :: int
  saveIO :: SaveIO
  interruptOK :: bool
  mkData :: "error option"
  mkLogs :: "error option"
  writeTorrc :: "error option"
  startProcess :: "error option"
  removeOK :: bool
  listenPort :: "nat \<Rightarrow> error + (int \<times> error option)"

lemma modify_simps [simp]:
  "mcfg (modify p f m) = mcfg m" "reservedPorts (modify p f m) = reservedPorts m"
  "instances (modify p f m) = instances m" "allInstances (modify p f m) = allInstances m"
  "resumeNodes (modify p f m) = resumeNodes m" "resumeActive (modify p f m) = resumeActive m"
  "active (modify p f m) = active m" "shuttingDown (modify p f m) = shuttingDown m"
  "nextPtr (modify p f m) = nextPtr m" "nextCmd (modify p f m) = nextCmd m" "tasks (modify p f m) = tasks m"
  "signals (modify p f m) = signals m" "dirs (modify p f m) = dirs m" "stateFile (modify p f m) = stateFile m"
  "heap (modify p f m) = (heap m)(p := f (heap m p))" "countryListeners (modify p f m) = countryListeners m"
  "beingOpened (modify p f m) = beingOpened m"
  "clientAuth (modify p f m) = clientAuth m" "countryProxyCtx (modify p f m) = countryProxyCtx m"
  "cancelled (modify p f m) = cancelled m" "nextCtx (modify p f m) = nextCtx m"
  by (simp_all add: modify_def)

lemma spawn_simps [simp]:
  "mcfg (spawn t m) = mcfg m" "reservedPorts (spawn t m) = reservedPorts m"
  "instances (spawn t m) = instances m" "allInstances (spawn t m) = allInstances m"
  "resumeNodes (spawn t m) = resumeNodes m" "resumeActive (spawn t m) = resumeActive m"
  "active (spawn t m) = active m" "shuttingDown (spawn t m) = shuttingDown m"
  "nextPtr (spawn t m) = nextPtr m" "nextCmd (spawn t m) = nextCmd m" "tasks (spawn t m) = tasks m @ [t]"
  "signals (spawn t m) = signals m" "dirs (spawn t m) = dirs m" "stateFile (spawn t m) = stateFile m"
  "heap (spawn t m) = heap m" "countryListeners (spawn t m) = countryListeners m"
  "beingOpened (spawn t m) = beingOpened m"
  "clientAuth (spawn t m) = clientAuth m" "countryProxyCtx (spawn t m) = countryProxyCtx m"
  "cancelled (spawn t m) = cancelled m" "nextCtx (spawn t m) = nextCtx m"
  by (simp_all add: spawn_def)

end
