(* ===== verification/Socks.thy ===== *)
theory Socks
  imports Configuration Auth
begin

text \<open>
  The SOCKS5 byte protocol: \<^verbatim>\<open>src/socks5.go\<close> (the client that dials through a proxy) and the
  server side of \<^verbatim>\<open>src/client_routes.go\<close> that authenticates users of a country port.

  A connection holds the bytes that its peer sends before the stream ends, the bytes written so far,
  the outcomes of the writes to come (none listed means that they succeed), the error that a read
  gives at the end of the stream (end of file or a deadline), whether it has been closed, and whether its
  direction for writing has.
\<close>

section \<open>Connections\<close>

record Conn =
  incoming :: string
  sent :: string
  writes :: "error option list"
  readError :: error
  closed :: bool
  writeClosed :: bool

definition conn_write :: "string \<Rightarrow> Conn \<Rightarrow> error option \<times> Conn" where
  "conn_write bs c = (case writes c of
      Some e # ws \<Rightarrow> (Some e, c\<lparr>writes := ws\<rparr>)
    | None # ws \<Rightarrow> (None, c\<lparr>sent := sent c @ bs, writes := ws\<rparr>)
    | [] \<Rightarrow> (None, c\<lparr>sent := sent c @ bs\<rparr>))"

text \<open>\<^verbatim>\<open>io.ReadFull\<close> into a buffer of \<open>n\<close> bytes, and \<^verbatim>\<open>io.CopyN\<close> to nowhere.\<close>

definition read_full :: "nat \<Rightarrow> Conn \<Rightarrow> (error + string) \<times> Conn" where
  "read_full n c =
     (if length (incoming c) < n then (Inl (readError c), c\<lparr>incoming := []\<rparr>)
      else (Inr (take n (incoming c)), c\<lparr>incoming := drop n (incoming c)\<rparr>))"

definition byte_val :: "char \<Rightarrow> nat" where
  "byte_val c = of_char c"

definition len_byte :: "string \<Rightarrow> char" where
  "len_byte s = char_of (length s)"

lemma byte_val_len_byte [simp]: "length s < 256 \<Longrightarrow> byte_val (len_byte s) = length s"
  by (simp add: byte_val_def len_byte_def)

lemma byte_val_less [simp]: "byte_val c < 256"
  by (simp add: byte_val_def)

lemma byte_val_0 [simp]: "byte_val c = 0 \<longleftrightarrow> c = CHR 0x00"
proof
  assume "byte_val c = 0"
  then have "(of_char c :: nat) = of_char (CHR 0x00)" by (simp add: byte_val_def)
  then show "c = CHR 0x00" by (simp only: of_char_eq_iff)
qed (simp add: byte_val_def)

lemma len_byte_0 [simp]: "length s < 256 \<Longrightarrow> len_byte s = CHR 0x00 \<longleftrightarrow> s = []"
  using byte_val_0 [of "len_byte s"] by simp

lemma len_byte_eq: "length s = byte_val c \<Longrightarrow> len_byte s = c"
  by (simp add: byte_val_def len_byte_def)

lemma read_full_Inr:
  "read_full n c = (Inr bs, c') \<longleftrightarrow>
     (\<exists>rest. incoming c = bs @ rest \<and> length bs = n \<and> c' = c\<lparr>incoming := rest\<rparr>)"
  by (auto simp: read_full_def) (metis append_take_drop_id length_take min.absorb2 not_less)

section \<open>socks5.go\<close>

definition close_conn :: "Conn \<Rightarrow> Conn" where
  "close_conn c = c\<lparr>closed := True\<rparr>"

definition close_write :: "Conn \<Rightarrow> Conn" where
  "close_write c = c\<lparr>writeClosed := True\<rparr>"

definition fail :: "Conn \<Rightarrow> error \<Rightarrow> Conn option \<times> error option" where
  "fail c e = (Some (close_conn c), Some e)"

definition or_error :: "(error + string) \<Rightarrow> error \<Rightarrow> error" where
  "or_error r e = (case r of Inl e' \<Rightarrow> e' | Inr _ \<Rightarrow> e)"

definition dial_methods :: "string \<Rightarrow> string" where
  "dial_methods username = CHR 0x00 # (if username \<noteq> [] then [CHR 0x02] else [])"

definition dial_greeting :: "string \<Rightarrow> string" where
  "dial_greeting username = CHR 0x05 # len_byte (dial_methods username) # dial_methods username"

definition dial_auth :: "string \<Rightarrow> string \<Rightarrow> string" where
  "dial_auth username password = CHR 0x01 # len_byte username # username @ len_byte password # password"

definition big_endian16 :: "int \<Rightarrow> string" where
  "big_endian16 port = [char_of (nat port div 256), char_of (nat port mod 256)]"

definition dial_request :: "string \<Rightarrow> int \<Rightarrow> string" where
  "dial_request host port = [CHR 0x05, CHR 0x01, CHR 0x00, CHR 0x03, len_byte host] @ host @ big_endian16 port"

definition read_bound_address :: "char \<Rightarrow> Conn \<Rightarrow> Conn option \<times> error option" where
  "read_bound_address kind c =
     (let finish = (\<lambda>n c. case read_full (n + 2) c of
            (Inl e, c') \<Rightarrow> fail c' e | (Inr _, c') \<Rightarrow> (Some c', None))
      in if kind = CHR 0x01 then finish 4 c
         else if kind = CHR 0x03 then
           (case read_full 1 c of (Inl e, c') \<Rightarrow> fail c' e
            | (Inr l, c') \<Rightarrow> finish (byte_val (hd l)) c')
         else if kind = CHR 0x04 then finish 16 c
         else fail c ''SOCKS5 proxy returned an unknown address type'')"

definition dial_connect :: "(string \<Rightarrow> error) \<Rightarrow> string \<Rightarrow> Conn \<Rightarrow> Conn option \<times> error option" where
  "dial_connect splitError targetAddress c =
     (case split_host_port targetAddress of None \<Rightarrow> fail c (splitError targetAddress)
      | Some (host, portText) \<Rightarrow>
       (case atoi portText of None \<Rightarrow> fail c ''invalid SOCKS5 target''
        | Some port \<Rightarrow>
          if port < 1 \<or> port > 65535 \<or> length host > 255 then fail c ''invalid SOCKS5 target''
          else case conn_write (dial_request host port) c of
            (Some e, c1) \<Rightarrow> fail c1 e
          | (None, c1) \<Rightarrow>
             (case read_full 4 c1 of (Inl e, c2) \<Rightarrow> fail c2 e
              | (Inr header, c2) \<Rightarrow>
                 if header ! 0 \<noteq> CHR 0x05 \<or> header ! 1 \<noteq> CHR 0x00
                 then fail c2 (''SOCKS5 proxy returned status '' @ itoa (int (byte_val (header ! 1))))
                 else read_bound_address (header ! 3) c2)))"

definition dialSOCKS5 :: "(string \<Rightarrow> error) \<Rightarrow> (error + Conn) \<Rightarrow> string \<Rightarrow> string \<Rightarrow> string
    \<Rightarrow> Conn option \<times> error option" where
  "dialSOCKS5 splitError dialed targetAddress username password =
     (if (username = []) \<noteq> (password = []) then
        (None, Some ''SOCKS5 username and password must be provided together'')
      else case dialed of Inl e \<Rightarrow> (None, Some e)
      | Inr c \<Rightarrow>
       (case conn_write (dial_greeting username) c of (Some e, c1) \<Rightarrow> fail c1 e
        | (None, c1) \<Rightarrow>
         (case read_full 2 c1 of (Inl e, c2) \<Rightarrow> fail c2 e
          | (Inr response, c2) \<Rightarrow>
             if response ! 0 \<noteq> CHR 0x05 then fail c2 ''invalid SOCKS5 authentication response''
             else if response ! 1 = CHR 0x00 then dial_connect splitError targetAddress c2
             else if response ! 1 = CHR 0x02 then
               (if username = [] \<or> length username > 255 \<or> length password > 255 then
                  fail c2 ''SOCKS5 credentials are missing or too long''
                else case conn_write (dial_auth username password) c2 of (Some e, c3) \<Rightarrow> fail c3 e
                | (None, c3) \<Rightarrow>
                  (case read_full 2 c3 of (Inl e, c4) \<Rightarrow> fail c4 e
                   | (Inr response', c4) \<Rightarrow>
                      if response' ! 0 \<noteq> CHR 0x01 \<or> response' ! 1 \<noteq> CHR 0x00
                      then fail c4 ''SOCKS5 credentials were rejected''
                      else dial_connect splitError targetAddress c4))
             else fail c2 ''SOCKS5 authentication negotiation failed'')))"

text \<open>\<open>dial\<close> is the outcome of the TCP dial, which depends on the timeout.\<close>

definition dialViaSOCKS5 :: "(string \<Rightarrow> error) \<Rightarrow> (duration \<Rightarrow> error + Conn) \<Rightarrow> string \<Rightarrow> Conn option \<times> error option" where
  "dialViaSOCKS5 splitError dial targetAddress = dialSOCKS5 splitError (dial (10 * second)) targetAddress [] []"

definition dialViaUpstreamSOCKS5 :: "(string \<Rightarrow> error) \<Rightarrow> (duration \<Rightarrow> error + Conn) \<Rightarrow> string \<Rightarrow> string \<Rightarrow> string
    \<Rightarrow> Conn option \<times> error option" where
  "dialViaUpstreamSOCKS5 splitError dial targetAddress username password =
     dialSOCKS5 splitError (dial (12 * second)) targetAddress username password"

section \<open>The server side of client\_routes.go\<close>

definition writeSOCKS5Failure :: "char \<Rightarrow> Conn \<Rightarrow> Conn" where
  "writeSOCKS5Failure status c = snd (conn_write
     [CHR 0x05, status, CHR 0x00, CHR 0x01, CHR 0x00, CHR 0x00, CHR 0x00, CHR 0x00, CHR 0x00, CHR 0x00] c)"

definition read_credentials :: "string \<Rightarrow> string \<Rightarrow> Conn \<Rightarrow> bool \<times> Conn" where
  "read_credentials expectedUsername expectedPassword c =
     (case read_full 2 c of (Inl _, c1) \<Rightarrow> (False, c1)
      | (Inr header, c1) \<Rightarrow>
       if header ! 0 \<noteq> CHR 0x01 \<or> header ! 1 = CHR 0x00 then (False, c1)
       else case read_full (byte_val (header ! 1)) c1 of (Inl _, c2) \<Rightarrow> (False, c2)
       | (Inr username, c2) \<Rightarrow>
         (case read_full 1 c2 of (Inl _, c3) \<Rightarrow> (False, c3)
          | (Inr len, c3) \<Rightarrow>
            if len ! 0 = CHR 0x00 then (False, c3)
            else case read_full (byte_val (len ! 0)) c3 of (Inl _, c4) \<Rightarrow> (False, c4)
            | (Inr password, c4) \<Rightarrow>
               if constantTimeEqual username expectedUsername \<and> constantTimeEqual password expectedPassword
               then (True, c4)
               else (False, snd (conn_write [CHR 0x01, CHR 0x01] c4))))"

definition negotiateClientAuth :: "string \<Rightarrow> string \<Rightarrow> Conn \<Rightarrow> bool \<times> Conn" where
  "negotiateClientAuth expectedUsername expectedPassword c =
     (case read_full 2 c of (Inl _, c1) \<Rightarrow> (False, c1)
      | (Inr header, c1) \<Rightarrow>
       if header ! 0 \<noteq> CHR 0x05 \<or> header ! 1 = CHR 0x00 then (False, c1)
       else case read_full (byte_val (header ! 1)) c1 of (Inl _, c2) \<Rightarrow> (False, c2)
       | (Inr methods, c2) \<Rightarrow>
          if CHR 0x02 \<notin> set methods then (False, snd (conn_write [CHR 0x05, CHR 0xFF] c2))
          else case conn_write [CHR 0x05, CHR 0x02] c2 of (Some _, c3) \<Rightarrow> (False, c3)
          | (None, c3) \<Rightarrow> read_credentials expectedUsername expectedPassword c3)"

section \<open>What the two sides accept\<close>

lemma conn_write_None:
  "conn_write bs c = (None, c') \<longleftrightarrow>
     (writes c = [] \<or> hd (writes c) = None) \<and> c' = c\<lparr>sent := sent c @ bs, writes := tl (writes c)\<rparr>"
  by (auto simp: conn_write_def split: list.splits option.splits)

lemma ex_prefix1:
  "(\<exists>bs rest. xs = bs @ rest \<and> length bs = Suc 0 \<and> P bs rest) \<longleftrightarrow> (\<exists>a rest. xs = a # rest \<and> P [a] rest)"
  by (auto simp: length_Suc_conv) (metis append_Cons append_Nil)

lemma ex_prefix2:
  "(\<exists>bs rest. xs = bs @ rest \<and> length bs = 2 \<and> P bs rest) \<longleftrightarrow> (\<exists>a b rest. xs = a # b # rest \<and> P [a, b] rest)"
  by (auto simp: numeral_2_eq_2 length_Suc_conv) (metis append_Cons append_Nil)

lemma ex_prefix4:
  "(\<exists>bs rest. xs = bs @ rest \<and> length bs = 4 \<and> P bs rest) \<longleftrightarrow>
     (\<exists>a b c d rest. xs = a # b # c # d # rest \<and> P [a, b, c, d] rest)"
  by (auto simp: eval_nat_numeral length_Suc_conv) (metis append_Cons append_Nil)

lemmas ex_prefix = ex_prefix1 ex_prefix2 ex_prefix4

lemma read_full_bind_True:
  "(case read_full n c of (Inl e, c1) \<Rightarrow> (False, c1) | (Inr bs, c1) \<Rightarrow> f bs c1) = (True, c') \<longleftrightarrow>
     (\<exists>bs rest. incoming c = bs @ rest \<and> length bs = n \<and> f bs (c\<lparr>incoming := rest\<rparr>) = (True, c'))"
  by (cases "read_full n c"; cases "fst (read_full n c)") (auto simp: read_full_Inr, auto simp: read_full_def split: if_splits)

lemma read_full_bind_ok:
  "(case read_full n c of (Inl e, c1) \<Rightarrow> fail c1 e | (Inr bs, c1) \<Rightarrow> f bs c1) = (Some c', None) \<longleftrightarrow>
     (\<exists>bs rest. incoming c = bs @ rest \<and> length bs = n \<and> f bs (c\<lparr>incoming := rest\<rparr>) = (Some c', None))"
  by (cases "read_full n c"; cases "fst (read_full n c)")
    (auto simp: read_full_Inr fail_def, auto simp: read_full_def split: if_splits)

lemma if_refused: "(if b then (False, x) else y) = (True, c') \<longleftrightarrow> \<not> b \<and> y = (True, c')"
  by simp

lemma if_accepted: "(if b then (True, x) else (False, y)) = (True, c') \<longleftrightarrow> b \<and> x = c'"
  by auto

lemma if_fail: "(if b then fail x e else y) = (Some c', None) \<longleftrightarrow> \<not> b \<and> y = (Some c', None)"
  by (simp add: fail_def)

lemma if_method: "(if a then x else if b then y else fail c e) = (Some c', None) \<longleftrightarrow>
    a \<and> x = (Some c', None) \<or> \<not> a \<and> b \<and> y = (Some c', None)"
  by (simp add: fail_def)

lemma write_bind_True:
  "(case conn_write bs c of (Some e, c1) \<Rightarrow> (False, c1) | (None, c1) \<Rightarrow> f c1) = (True, c') \<longleftrightarrow>
     fst (conn_write bs c) = None \<and> f (snd (conn_write bs c)) = (True, c')"
  by (cases "conn_write bs c"; cases "fst (conn_write bs c)") auto

lemmas accept_simps = read_full_bind_True ex_prefix if_refused if_accepted write_bind_True

lemma constantTimeEqual_iff [simp]: "constantTimeEqual a b \<longleftrightarrow> a = b"
  by (auto simp: constantTimeEqual_def)

lemma read_credentials_True:
  "read_credentials u p c = (True, c') \<longleftrightarrow>
     (\<exists>rest. incoming c = dial_auth u p @ rest \<and> u \<noteq> [] \<and> p \<noteq> [] \<and> length u < 256 \<and> length p < 256
        \<and> c' = c\<lparr>incoming := rest\<rparr>)"
proof
  assume "read_credentials u p c = (True, c')"
  then obtain hl l rest where
    "incoming c = CHR 0x01 # hl # u @ l # p @ rest" "hl \<noteq> CHR 0x00" "length u = byte_val hl"
    "l \<noteq> CHR 0x00" "length p = byte_val l" "c' = c\<lparr>incoming := rest\<rparr>"
    unfolding read_credentials_def by (simp add: accept_simps) fastforce
  then show "\<exists>rest. incoming c = dial_auth u p @ rest \<and> u \<noteq> [] \<and> p \<noteq> [] \<and> length u < 256 \<and> length p < 256
        \<and> c' = c\<lparr>incoming := rest\<rparr>"
    by (auto simp: dial_auth_def len_byte_eq)
next
  assume "\<exists>rest. incoming c = dial_auth u p @ rest \<and> u \<noteq> [] \<and> p \<noteq> [] \<and> length u < 256 \<and> length p < 256
        \<and> c' = c\<lparr>incoming := rest\<rparr>"
  then show "read_credentials u p c = (True, c')"
    by (elim exE conjE) (simp add: read_credentials_def read_full_def dial_auth_def)
qed

lemma negotiate_True:
  "negotiateClientAuth u p c = (True, c') \<longleftrightarrow>
     (\<exists>methods rest. incoming c = CHR 0x05 # len_byte methods # methods @ dial_auth u p @ rest
        \<and> length methods < 256 \<and> CHR 0x02 \<in> set methods
        \<and> u \<noteq> [] \<and> p \<noteq> [] \<and> length u < 256 \<and> length p < 256
        \<and> conn_write [CHR 0x05, CHR 0x02] (c\<lparr>incoming := rest\<rparr>) = (None, c'))"
    (is "_ \<longleftrightarrow> ?R")
proof
  assume "negotiateClientAuth u p c = (True, c')"
  then obtain n ms r c3 where
    1: "incoming c = CHR 0x05 # n # ms @ r" "length ms = byte_val n" "CHR 0x02 \<in> set ms"
    "conn_write [CHR 0x05, CHR 0x02] (c\<lparr>incoming := r\<rparr>) = (None, c3)"
    "read_credentials u p c3 = (True, c')"
    unfolding negotiateClientAuth_def by (simp add: accept_simps) (metis prod.collapse)
  have 2: "n = len_byte ms" "length ms < 256" using 1(2) by (simp_all add: len_byte_eq)
  from 1(4) have c3: "c3 = c\<lparr>sent := sent c @ [CHR 0x05, CHR 0x02], writes := tl (writes c), incoming := r\<rparr>"
    "writes c = [] \<or> hd (writes c) = None" by (simp_all add: conn_write_None)
  from 1(5) obtain rest where "r = dial_auth u p @ rest" "u \<noteq> []" "p \<noteq> []" "length u < 256" "length p < 256"
    "c' = c3\<lparr>incoming := rest\<rparr>" by (auto simp: read_credentials_True c3(1))
  with 1(1,3) 2 c3 show ?R
    by (intro exI [of _ ms] exI [of _ rest]) (simp add: conn_write_None)
next
  assume ?R
  then show "negotiateClientAuth u p c = (True, c')"
    by (cases "writes c"; cases "hd (writes c)")
      (auto simp: negotiateClientAuth_def read_full_def read_credentials_True conn_write_def)
qed

definition bound_address :: "char \<Rightarrow> string \<Rightarrow> bool" where
  "bound_address kind a \<longleftrightarrow> (kind = CHR 0x01 \<and> length a = 6) \<or> (kind = CHR 0x04 \<and> length a = 18)
     \<or> (kind = CHR 0x03 \<and> (\<exists>l b. a = l # b \<and> length b = byte_val l + 2))"

lemma read_bound_address_ok:
  "read_bound_address kind c = (Some c', None) \<longleftrightarrow>
     (\<exists>a rest. incoming c = a @ rest \<and> bound_address kind a \<and> c' = c\<lparr>incoming := rest\<rparr>)"
proof -
  have fixed: "(case read_full n c of (Inl e, c') \<Rightarrow> fail c' e | (Inr _, c') \<Rightarrow> (Some c', None)) = (Some c', None) \<longleftrightarrow>
      (\<exists>a rest. incoming c = a @ rest \<and> length a = n \<and> c' = c\<lparr>incoming := rest\<rparr>)" for n c
    by (auto simp: read_full_bind_ok)
  show ?thesis
  proof (cases "kind = CHR 0x03")
    case True
    have "read_bound_address kind c = (Some c', None) \<longleftrightarrow>
      (\<exists>l r. incoming c = l # r \<and> (\<exists>b rest. r = b @ rest \<and> length b = byte_val l + 2 \<and> c' = c\<lparr>incoming := rest\<rparr>))"
      by (simp add: True read_bound_address_def fixed read_full_bind_ok ex_prefix) (simp add: eq_commute)
    also have "\<dots> \<longleftrightarrow> (\<exists>a rest. incoming c = a @ rest \<and> bound_address kind a \<and> c' = c\<lparr>incoming := rest\<rparr>)"
      by (auto simp: True bound_address_def) (metis append_Cons)+
    finally show ?thesis .
  next
    case False
    then show ?thesis
      by (auto simp: read_bound_address_def bound_address_def fixed fail_def)
  qed
qed

lemma dial_connect_ok:
  assumes "split_host_port target = Some (host, portText)" "atoi portText = Some port"
    and "1 \<le> port" "port \<le> 65535" "length host \<le> 255" "writes c = []"
  shows "dial_connect splitError target c = (Some c', None) \<longleftrightarrow>
    (\<exists>r kind a rest. incoming c = [CHR 0x05, CHR 0x00, r, kind] @ a @ rest \<and> bound_address kind a
       \<and> c' = c\<lparr>sent := sent c @ dial_request host port, incoming := rest\<rparr>)"
proof -
  have "dial_connect splitError target c = (Some c', None) \<longleftrightarrow>
    (\<exists>r kind rest. incoming c = CHR 0x05 # CHR 0x00 # r # kind # rest \<and>
      read_bound_address kind (c\<lparr>sent := sent c @ dial_request host port, incoming := rest\<rparr>) = (Some c', None))"
    using assms by (auto simp: dial_connect_def conn_write_def read_full_bind_ok ex_prefix if_fail)
  then show ?thesis by (simp add: read_bound_address_ok) blast
qed

lemma dial_ok:
  assumes w: "writes c = []" and up: "(username = []) = (password = [])" "length username \<le> 255" "length password \<le> 255"
  shows "dialSOCKS5 splitError (Inr c) t username password = (Some c', None) \<longleftrightarrow>
    (\<exists>m rest. incoming c = CHR 0x05 # m # rest \<and>
      (m = CHR 0x00 \<and> dial_connect splitError t (c\<lparr>sent := sent c @ dial_greeting username @ [], incoming := rest\<rparr>) = (Some c', None)
       \<or> m = CHR 0x02 \<and> username \<noteq> [] \<and> (\<exists>xs. rest = CHR 0x01 # CHR 0x00 # xs \<and>
          dial_connect splitError t (c\<lparr>sent := sent c @ dial_greeting username @ dial_auth username password,
            incoming := xs\<rparr>) = (Some c', None))))"
proof -
  have "dialSOCKS5 splitError (Inr c) t username password = (Some c', None) \<longleftrightarrow>
    (\<exists>m rest. incoming c = CHR 0x05 # m # rest \<and>
      (m = CHR 0x00 \<and> dial_connect splitError t (c\<lparr>sent := sent c @ dial_greeting username, incoming := rest\<rparr>) = (Some c', None)
       \<or> m \<noteq> CHR 0x00 \<and> m = CHR 0x02 \<and> username \<noteq> [] \<and> (\<exists>xs. rest = CHR 0x01 # CHR 0x00 # xs \<and>
          dial_connect splitError t (c\<lparr>sent := (sent c @ dial_greeting username) @ dial_auth username password,
            incoming := xs\<rparr>) = (Some c', None))))"
    unfolding dialSOCKS5_def
    by (subst if_not_P, use up(1) in simp)
      (simp add: w conn_write_def read_full_bind_ok ex_prefix if_fail if_method not_less up(2,3) split del: if_split)
  then show ?thesis by auto
qed

section \<open>Properties\<close>

text \<open>C24: A country port lets a client through exactly when the client offers the password method,
  names the country as its user and gives the client API key; all bytes of the handshake and no
  byte of what follows have then been read.  Without a configured key nobody gets through.\<close>

theorem country_port_authentication:
  "negotiateClientAuth country apiKey c = (True, c') \<longleftrightarrow>
     (\<exists>methods rest. incoming c = CHR 0x05 # len_byte methods # methods @ dial_auth country apiKey @ rest
        \<and> length methods < 256 \<and> CHR 0x02 \<in> set methods
        \<and> country \<noteq> [] \<and> apiKey \<noteq> [] \<and> length country < 256 \<and> length apiKey < 256
        \<and> conn_write [CHR 0x05, CHR 0x02] (c\<lparr>incoming := rest\<rparr>) = (None, c'))"
  by (rule negotiate_True)

lemma dial_parts:
  assumes "writes c = []" and "(username = []) = (password = [])"
    and "length username \<le> 255" "length password \<le> 255"
    and "CHR ''['' \<notin> set host" "CHR '']'' \<notin> set host" "length host \<le> 255" "1 \<le> port" "port \<le> 65535"
  shows "dialSOCKS5 splitError (Inr c) (join_host_port host (itoa port)) username password = (Some c', None) \<longleftrightarrow>
    (\<exists>answer credentials r kind a rest.
       incoming c = answer @ [CHR 0x05, CHR 0x00, r, kind] @ a @ rest \<and> bound_address kind a
       \<and> (answer = [CHR 0x05, CHR 0x00] \<and> credentials = []
          \<or> answer = [CHR 0x05, CHR 0x02, CHR 0x01, CHR 0x00] \<and> username \<noteq> []
            \<and> credentials = dial_auth username password)
       \<and> c' = c\<lparr>sent := sent c @ dial_greeting username @ credentials @ dial_request host port, incoming := rest\<rparr>)"
proof -
  let ?t = "join_host_port host (itoa port)"
  have t: "split_host_port ?t = Some (host, itoa port)" "atoi (itoa port) = Some port"
    using split_join_host_port [of host "itoa port"] itoa_digits [of port] atoi_itoa [of port] assms
    by (auto simp: in_int64_def)
  define D where "D cr xs \<longleftrightarrow> (\<exists>r kind a rest. xs = [CHR 0x05, CHR 0x00, r, kind] @ a @ rest \<and> bound_address kind a
      \<and> c' = c\<lparr>sent := sent c @ dial_greeting username @ cr @ dial_request host port, incoming := rest\<rparr>)" for cr xs
  have connect: "dial_connect splitError ?t (c\<lparr>sent := sent c @ dial_greeting username @ cr, incoming := xs\<rparr>)
      = (Some c', None) \<longleftrightarrow> D cr xs" for cr xs
    using dial_connect_ok [OF t assms(8,9,7), of "c\<lparr>sent := sent c @ dial_greeting username @ cr, incoming := xs\<rparr>"] assms(1)
    by (simp add: D_def)
  have "dialSOCKS5 splitError (Inr c) ?t username password = (Some c', None) \<longleftrightarrow>
    (\<exists>m rest. incoming c = CHR 0x05 # m # rest \<and>
      (m = CHR 0x00 \<and> D [] rest
       \<or> m = CHR 0x02 \<and> username \<noteq> [] \<and> (\<exists>xs. rest = CHR 0x01 # CHR 0x00 # xs \<and> D (dial_auth username password) xs)))"
    unfolding dial_ok [OF assms(1-4)] connect ..
  also have "\<dots> \<longleftrightarrow> (\<exists>xs. incoming c = [CHR 0x05, CHR 0x00] @ xs \<and> D [] xs)
      \<or> username \<noteq> [] \<and> (\<exists>xs. incoming c = [CHR 0x05, CHR 0x02, CHR 0x01, CHR 0x00] @ xs \<and> D (dial_auth username password) xs)"
    by auto
  also have "\<dots> \<longleftrightarrow> (\<exists>answer credentials xs. incoming c = answer @ xs \<and> D credentials xs
       \<and> (answer = [CHR 0x05, CHR 0x00] \<and> credentials = []
          \<or> answer = [CHR 0x05, CHR 0x02, CHR 0x01, CHR 0x00] \<and> username \<noteq> []
            \<and> credentials = dial_auth username password))"
    by blast
  finally show ?thesis unfolding D_def by blast
qed

text \<open>The two bytes of a port are its big-endian digits.\<close>

lemma big_endian16_iff:
  assumes "0 \<le> port" "port \<le> 65535"
  shows "port = 256 * int (byte_val hi) + int (byte_val lo) \<longleftrightarrow> [hi, lo] = big_endian16 port"
proof
  assume "port = 256 * int (byte_val hi) + int (byte_val lo)"
  then have "nat port = 256 * byte_val hi + byte_val lo" by simp
  moreover have "char_of (byte_val x) = x" for x by (simp add: byte_val_def)
  ultimately show "[hi, lo] = big_endian16 port" by (simp add: big_endian16_def)
next
  assume "[hi, lo] = big_endian16 port"
  then have "byte_val hi = nat port div 256" "byte_val lo = nat port mod 256"
    using assms by (simp_all add: big_endian16_def byte_val_def of_char_of)
  with assms(1) show "port = 256 * int (byte_val hi) + int (byte_val lo)"
    by (metis div_mult_mod_eq int_nat_eq mult.commute of_nat_add of_nat_mult of_nat_numeral)
qed

lemma dial_bytes:
  "dial_greeting username = (if username = [] then [CHR 0x05, CHR 0x01, CHR 0x00] else [CHR 0x05, CHR 0x02, CHR 0x00, CHR 0x02])"
  "dial_auth username password = CHR 0x01 # char_of (length username) # username @ char_of (length password) # password"
  "dial_request host port = [CHR 0x05, CHR 0x01, CHR 0x00, CHR 0x03, char_of (length host)] @ host @ big_endian16 port"
proof -
  have "len_byte [CHR 0x00] = CHR 0x01" "len_byte [CHR 0x00, CHR 0x02] = CHR 0x02" by code_simp+
  then show "dial_greeting username = (if username = [] then [CHR 0x05, CHR 0x01, CHR 0x00] else [CHR 0x05, CHR 0x02, CHR 0x00, CHR 0x02])"
    by (simp add: dial_greeting_def dial_methods_def)
qed (simp_all add: dial_auth_def dial_request_def len_byte_def)

text \<open>C26: Dialling through a proxy succeeds exactly when the proxy's bytes are a well-formed run of
  the protocol: it picks no authentication, or accepts the credentials, and grants the request with
  an address of any of the three types.  The bytes sent are then, one by one: version 5 with one
  method or, if there are credentials, two; user name and password with their lengths, only if the proxy
  asked for them; the request to connect (1) to the host by its name (3), with the length of the name and
  the two bytes of the port, the higher one first.  The whole reply has been read and nothing of the data
  behind it.\<close>

theorem dial_protocol:
  assumes "writes c = []" and "(username = []) = (password = [])"
    and "length username \<le> 255" "length password \<le> 255"
    and "CHR ''['' \<notin> set host" "CHR '']'' \<notin> set host" "length host \<le> 255" "1 \<le> port" "port \<le> 65535"
  shows "dialSOCKS5 splitError (Inr c) (join_host_port host (itoa port)) username password = (Some c', None) \<longleftrightarrow>
    (\<exists>answer credentials hi lo r kind a rest.
       incoming c = answer @ [CHR 0x05, CHR 0x00, r, kind] @ a @ rest \<and> bound_address kind a
       \<and> (answer = [CHR 0x05, CHR 0x00] \<and> credentials = []
          \<or> answer = [CHR 0x05, CHR 0x02, CHR 0x01, CHR 0x00] \<and> username \<noteq> []
            \<and> credentials = CHR 0x01 # char_of (length username) # username @ char_of (length password) # password)
       \<and> port = 256 * int (byte_val hi) + int (byte_val lo)
       \<and> c' = c\<lparr>sent := sent c
             @ (if username = [] then [CHR 0x05, CHR 0x01, CHR 0x00] else [CHR 0x05, CHR 0x02, CHR 0x00, CHR 0x02])
             @ credentials
             @ [CHR 0x05, CHR 0x01, CHR 0x00, CHR 0x03, char_of (length host)] @ host @ [hi, lo], incoming := rest\<rparr>)"
proof -
  obtain hi lo where p: "big_endian16 port = [hi, lo]" by (simp add: big_endian16_def)
  have "port = 256 * int (byte_val x) + int (byte_val y) \<longleftrightarrow> x = hi \<and> y = lo" for x y
    using big_endian16_iff [of port x y] assms(8,9) p by simp
  then show ?thesis unfolding dial_parts [OF assms] dial_bytes p by simp
qed

definition sample_conn :: "string \<Rightarrow> Conn" where
  "sample_conn bs = \<lparr>incoming = bs, sent = [], writes = [], readError = ''EOF'', closed = False, writeClosed = False\<rparr>"

definition sample_proxy :: Conn where
  "sample_proxy = sample_conn ([CHR 0x05, CHR 0x02, CHR 0x01, CHR 0x00]
     @ [CHR 0x05, CHR 0x00, CHR 0x00, CHR 0x03, CHR 0x01, CHR ''x'', CHR 0x00, CHR 0x50] @ ''data'')"

theorem dial_protocol_witness:
  "\<exists>c' before hi lo. dialSOCKS5 (\<lambda>t. t) (Inr sample_proxy) (join_host_port ''a.b'' (itoa 443)) ''u'' ''p'' = (Some c', None)
     \<and> sent c' = before @ ''a.b'' @ [hi, lo] \<and> (443 :: int) = 256 * int (byte_val hi) + int (byte_val lo)"
proof -
  let ?d = "dialSOCKS5 (\<lambda>t. t) (Inr sample_proxy) (join_host_port ''a.b'' (itoa 443)) ''u'' ''p''"
  have "snd ?d = None" "fst ?d \<noteq> None" by code_simp+
  then obtain c' where d: "?d = (Some c', None)" by (cases ?d) auto
  have "writes sample_proxy = []" "(''u'' = []) = (''p'' = [])" "length ''u'' \<le> 255" "length ''p'' \<le> 255"
    "CHR ''['' \<notin> set ''a.b''" "CHR '']'' \<notin> set ''a.b''" "length ''a.b'' \<le> 255" "(1 :: int) \<le> 443" "(443 :: int) \<le> 65535"
    by code_simp+
  from dial_protocol [OF this, THEN iffD1, OF d] obtain cr hi lo rest where
    1: "443 = 256 * int (byte_val hi) + int (byte_val lo)" and
    2: "c' = sample_proxy\<lparr>sent := sent sample_proxy
             @ (if ''u'' = [] then [CHR 0x05, CHR 0x01, CHR 0x00] else [CHR 0x05, CHR 0x02, CHR 0x00, CHR 0x02]) @ cr
             @ [CHR 0x05, CHR 0x01, CHR 0x00, CHR 0x03, char_of (length ''a.b'')] @ ''a.b'' @ [hi, lo], incoming := rest\<rparr>"
    by (elim exE conjE) rule
  have "sent c' = (sent sample_proxy @ [CHR 0x05, CHR 0x02, CHR 0x00, CHR 0x02] @ cr
      @ [CHR 0x05, CHR 0x01, CHR 0x00, CHR 0x03, char_of (length ''a.b'')]) @ ''a.b'' @ [hi, lo]"
    unfolding 2 by simp
  with 1 d show ?thesis by blast
qed

text \<open>C27: The two sides of the protocol agree: when the client of \<^verbatim>\<open>socks5.go\<close> is asked for its
  credentials, the bytes it writes up to there pass a country port that expects these credentials.\<close>

theorem client_passes_country_port:
  assumes "username \<noteq> []" "password \<noteq> []" "length username \<le> 255" "length password \<le> 255"
    and "incoming c = dial_greeting username @ dial_auth username password @ rest" and "writes c = []"
  shows "negotiateClientAuth username password c
    = (True, c\<lparr>incoming := rest, sent := sent c @ [CHR 0x05, CHR 0x02]\<rparr>)"
  using assms unfolding negotiate_True
  by (intro exI [of _ "dial_methods username"] exI [of _ rest])
    (auto simp: dial_greeting_def dial_methods_def conn_write_def)

theorem client_passes_country_port_witness:
  "negotiateClientAuth ''de'' ''secret'' (sample_conn (dial_greeting ''de'' @ dial_auth ''de'' ''secret'' @ ''x''))
    = (True, \<lparr>incoming = ''x'', sent = [CHR 0x05, CHR 0x02], writes = [], readError = ''EOF'', closed = False, writeClosed = False\<rparr>)"
  using client_passes_country_port [of "''de''" "''secret''"
      "sample_conn (dial_greeting ''de'' @ dial_auth ''de'' ''secret'' @ ''x'')" "''x''"]
  by (simp add: sample_conn_def)

end
