(* ===== verification/Torrc.thy ===== *)
theory Torrc
  imports Manager_State Socks Go_Http
begin

text \<open>
  The texts the manager exchanges with Tor: the torrc of an instance, quoted values, the control
  port dialogue, the bootstrap progress in its answers, the names of instance directories and the
  tail of the log (all in \<^verbatim>\<open>src/manager.go\<close>).
\<close>

section \<open>Quoted values and the torrc\<close>

definition newline :: string where "newline = [CHR 0x0A]"
definition crlf :: string where "crlf = [CHR 0x0D, CHR 0x0A]"

fun escape_value :: "string \<Rightarrow> string" where
  "escape_value [] = []"
| "escape_value (c # cs) =
     (if c = CHR 0x5C \<or> c = CHR 0x22 then CHR 0x5C # c # escape_value cs else c # escape_value cs)"

definition controlValue :: "string \<Rightarrow> string" where
  "controlValue value = CHR 0x22 # escape_value value @ [CHR 0x22]"

definition torrcValue :: "string \<Rightarrow> string" where
  "torrcValue value = controlValue value"

definition torrc_directives :: "Config \<Rightarrow> Instance \<Rightarrow> string \<Rightarrow> string \<Rightarrow> string list" where
  "torrc_directives c i dataDirectory logDir =
     [''ClientOnly 1'', ''RunAsDaemon 0'',
      ''SocksPort 127.0.0.1:'' @ itoa (SocksPort i),
      ''ControlPort 127.0.0.1:'' @ itoa (controlPort i),
      ''CookieAuthentication 1'',
      ''DataDirectory '' @ dataDirectory,
      (if ExitFingerprint i \<noteq> [] then ''ExitNodes $'' @ ExitFingerprint i
       else ''ExitNodes {'' @ Code (ICountry i) @ ''}''),
      ''StrictNodes 1'', ''AvoidDiskWrites 1'',
      ''Log notice file '' @ path_join [logDir, ''tor.log'']]
     @ (if UpstreamSOCKS5 c \<noteq> [] then
          (''Socks5Proxy '' @ torrcValue (UpstreamSOCKS5 c))
          # (if UpstreamUsername c \<noteq> [] \<and> UpstreamPassword c \<noteq> [] then
               [''Socks5ProxyUsername '' @ torrcValue (UpstreamUsername c),
                ''Socks5ProxyPassword '' @ torrcValue (UpstreamPassword c)]
             else [])
        else [])
     @ (if GeoIPFile c \<noteq> [] then [''GeoIPFile '' @ GeoIPFile c] else [])
     @ (if GeoIPv6File c \<noteq> [] then [''GeoIPv6File '' @ GeoIPv6File c] else [])"

definition torrc :: "Config \<Rightarrow> Instance \<Rightarrow> string \<Rightarrow> string \<Rightarrow> string" where
  "torrc c i dataDirectory logDir =
     concat (map (\<lambda>line. line @ newline) (torrc_directives c i dataDirectory logDir))"

section \<open>Names and patterns\<close>

definition fingerprintPattern :: "string \<Rightarrow> bool" where
  "fingerprintPattern s \<longleftrightarrow> length s = 40 \<and> list_all is_hex s"

definition instanceDirPattern :: "string \<Rightarrow> bool" where
  "instanceDirPattern s \<longleftrightarrow> length (take 2 s) = 2 \<and> list_all is_lower (take 2 s) \<and>
     (drop 2 s = [] \<or>
      has_prefix (drop 2 s) ''-replacement-'' \<and> drop 15 s \<noteq> [] \<and> list_all is_digit (drop 15 s))"

text \<open>The text that matches \<^verbatim>\<open>\bPROGRESS=([0-9]{1,3})\b\<close> leftmost; \<open>prev\<close> tells whether the
  byte before is a word byte.\<close>

definition progress_here :: "string \<Rightarrow> string option" where
  "progress_here s =
     (if has_prefix s ''PROGRESS='' then
        let rest = drop 9 s; ds = takeWhile is_digit rest; after = dropWhile is_digit rest
        in if 1 \<le> length ds \<and> length ds \<le> 3 \<and> (after = [] \<or> \<not> is_word_char (hd after)) then Some ds else None
      else None)"

fun find_progress :: "bool \<Rightarrow> string \<Rightarrow> string option" where
  "find_progress prev [] = None"
| "find_progress prev (c # cs) =
     (case (if prev then None else progress_here (c # cs)) of
        Some ds \<Rightarrow> Some ds
      | None \<Rightarrow> find_progress (is_word_char c) cs)"

definition parseBootstrapProgress :: "string \<Rightarrow> int option" where
  "parseBootstrapProgress response =
     (case find_progress False response of None \<Rightarrow> None
      | Some ds \<Rightarrow> (case atoi ds of None \<Rightarrow> None
          | Some progress \<Rightarrow> if progress < 0 \<or> progress > 100 then None else Some progress))"

section \<open>The control port\<close>

text \<open>\<^verbatim>\<open>reader.ReadString('\n')\<close>: the bytes up to and with the next newline.\<close>

definition read_line :: "Conn \<Rightarrow> (error + string) \<times> Conn" where
  "read_line c =
     (if CHR 0x0A \<in> set (incoming c) then
        let line = takeWhile (\<lambda>b. b \<noteq> CHR 0x0A) (incoming c)
        in (Inr (line @ newline), c\<lparr>incoming := drop (length line + 1) (incoming c)\<rparr>)
      else (Inl (readError c), c\<lparr>incoming := []\<rparr>))"

definition controlCommand :: "Instance \<Rightarrow> error + Conn \<Rightarrow> error + string \<Rightarrow> string
    \<Rightarrow> (error + string) \<times> Conn option" where
  "controlCommand i dialed cookieFile command =
     (if controlPort i = 0 \<or> dataDir i = [] then (Inl ''control port is not ready'', None)
      else case dialed of Inl e \<Rightarrow> (Inl (''connect control port: '' @ e), None)
      | Inr c \<Rightarrow>
       (case cookieFile of Inl e \<Rightarrow> (Inl (''read control cookie: '' @ e), Some (close_conn c))
        | Inr cookie \<Rightarrow>
         (case conn_write (''AUTHENTICATE '' @ hex_text cookie @ crlf) c of
            (Some e, c1) \<Rightarrow> (Inl (''authenticate control port: '' @ e), Some (close_conn c1))
          | (None, c1) \<Rightarrow>
           (case read_line c1 of
              (Inl e, c2) \<Rightarrow> (Inl (''read authentication response: '' @ e), Some (close_conn c2))
            | (Inr line, c2) \<Rightarrow>
               if \<not> has_prefix line ''250''
               then (Inl (''control authentication rejected: '' @ trim_space line), Some (close_conn c2))
               else (case conn_write (command @ crlf) c2 of
                  (Some e, c3) \<Rightarrow> (Inl (''send control command: '' @ e), Some (close_conn c3))
                | (None, c3) \<Rightarrow>
                  (case read_line c3 of
                     (Inl e, c4) \<Rightarrow> (Inl (''read control response: '' @ e), Some (close_conn c4))
                   | (Inr answer, c4) \<Rightarrow> (Inr answer, Some (close_conn c4))))))))"

definition reset_credentials :: string where
  "reset_credentials = ''RESETCONF Socks5ProxyUsername Socks5ProxyPassword''"

definition upstream_command :: "Config \<Rightarrow> string" where
  "upstream_command c =
     (if UpstreamSOCKS5 c \<noteq> [] then
        ''SETCONF Socks5Proxy='' @ controlValue (UpstreamSOCKS5 c)
        @ (if UpstreamUsername c \<noteq> [] then
             '' Socks5ProxyUsername='' @ controlValue (UpstreamUsername c)
             @ '' Socks5ProxyPassword='' @ controlValue (UpstreamPassword c)
           else [])
      else ''RESETCONF Socks5Proxy Socks5ProxyUsername Socks5ProxyPassword'')"

text \<open>\<open>run k\<close> is the answer of the \<open>k\<close>-th control command of the operation; each opens its own
  connection with \<open>controlCommand\<close>.  The result has the commands that were sent, in order.\<close>

definition control_answer :: "error + string \<Rightarrow> error option" where
  "control_answer r = (case r of Inl e \<Rightarrow> Some e
     | Inr response \<Rightarrow> if has_prefix response ''250'' then None else Some (trim_space response))"

definition send_command :: "(nat \<Rightarrow> string \<Rightarrow> error + string) \<Rightarrow> string \<Rightarrow> string list \<Rightarrow> error option \<times> string list" where
  "send_command run command before = (control_answer (run (length before) command), before @ [command])"

definition applyUpstream :: "(nat \<Rightarrow> string \<Rightarrow> error + string) \<Rightarrow> Config \<Rightarrow> error option \<times> string list" where
  "applyUpstream run c =
     (case (if UpstreamSOCKS5 c \<noteq> [] \<and> UpstreamUsername c = [] then send_command run reset_credentials [] else (None, [])) of
        (Some e, before) \<Rightarrow> (Some e, before)
      | (None, before) \<Rightarrow> send_command run (upstream_command c) before)"

text \<open>What a circuit rotation writes to the log.\<close>

definition sendNewnym :: "string \<Rightarrow> error + string \<Rightarrow> string" where
  "sendNewnym code answer =
     (case answer of Inl e \<Rightarrow> ''circuit rotation: '' @ code @ '': '' @ e
      | Inr response \<Rightarrow>
          if has_prefix response ''250'' then ''circuit rotation: new circuit for '' @ code
          else if has_prefix response ''514'' then ''circuit rotation: rate limited for '' @ code @ '', skipping''
          else ''circuit rotation: unexpected response for '' @ code @ '': '' @ trim_space response)"

section \<open>The tail of a log\<close>

text \<open>\<^verbatim>\<open>bufio.Scanner\<close> yields the lines without their end; it stops with an error at a line of
  64 KiB or more.\<close>

definition drop_cr :: "string \<Rightarrow> string" where
  "drop_cr s = (if s \<noteq> [] \<and> last s = CHR 0x0D then butlast s else s)"

definition raw_lines :: "string \<Rightarrow> string list" where
  "raw_lines s = (let ps = split_on CHR 0x0A s in if last ps = [] then butlast ps else ps)"

definition scan_lines :: "string \<Rightarrow> string list \<times> error option" where
  "scan_lines s = (let ls = raw_lines s; ok = takeWhile (\<lambda>l. length l < 65536) ls
     in (map drop_cr ok, if length ok < length ls then Some ''bufio.Scanner: token too long'' else None))"

definition tail_step :: "nat \<Rightarrow> string list \<Rightarrow> string \<Rightarrow> string list" where
  "tail_step n buffer line = (if length buffer = n then tl buffer else buffer) @ [line]"

definition tailFile :: "error + string \<Rightarrow> nat \<Rightarrow> string \<times> error option" where
  "tailFile opened n = (case opened of Inl e \<Rightarrow> ([], Some e)
     | Inr content \<Rightarrow> let (ls, err) = scan_lines content
         in (join_with newline (foldl (tail_step n) [] ls), err))"

section \<open>Lemmas\<close>

text \<open>What Tor documents of quoted strings: between the quotes a backslash stands before a quote or a backslash
  that is meant, all other bytes stand for themselves; reading stops behind the closing quote.  The reader
  itself is not part of the program.\<close>

inductive unescapes :: "string \<Rightarrow> string \<Rightarrow> bool" where
  un_end: "unescapes [] []"
| un_plain: "c \<noteq> CHR 0x22 \<Longrightarrow> c \<noteq> CHR 0x5C \<Longrightarrow> unescapes b v \<Longrightarrow> unescapes (c # b) (c # v)"
| un_escaped: "c = CHR 0x22 \<or> c = CHR 0x5C \<Longrightarrow> unescapes b v \<Longrightarrow> unescapes (CHR 0x5C # c # b) (c # v)"

definition quoted_strings :: "(string \<Rightarrow> (string \<times> string) option) \<Rightarrow> bool" where
  "quoted_strings read \<longleftrightarrow>
     (\<forall>body v rest. unescapes body v \<longrightarrow> read (CHR 0x22 # body @ CHR 0x22 # rest) = Some (v, rest))"

text \<open>The options of a SETCONF command, read with such a reader: a space, a name, an equals sign, a quoted
  value, and so on.\<close>

inductive reads_options :: "(string \<Rightarrow> (string \<times> string) option) \<Rightarrow> string \<Rightarrow> (string \<times> string) list \<Rightarrow> bool" for read where
  no_option: "reads_options read [] []"
| an_option: "list_all is_word_char name \<Longrightarrow> read text = Some (v, rest) \<Longrightarrow> reads_options read rest options \<Longrightarrow>
    reads_options read (CHR 0x20 # name @ CHR 0x3D # text) ((name, v) # options)"

lemma unescapes_escape: "unescapes (escape_value v) v"
  by (induction v) (auto intro: unescapes.intros)

lemma read_controlValue: "quoted_strings read \<Longrightarrow> read (controlValue v @ rest) = Some (v, rest)"
  using unescapes_escape by (simp add: quoted_strings_def controlValue_def)

lemma control_answer_None: "control_answer r = None \<longleftrightarrow> (\<exists>answer. r = Inr answer \<and> has_prefix answer ''250'')"
  by (cases r) (auto simp: control_answer_def)

lemma has_prefix_append: "has_prefix s p \<Longrightarrow> has_prefix (s @ t) p"
proof -
  assume "has_prefix s p"
  then have "s = p @ drop (length p) s" by (metis append_take_drop_id has_prefix_def)
  then show "has_prefix (s @ t) p" by (metis append.assoc append_eq_conv_conj has_prefix_def)
qed

lemma set_escape_value: "set (escape_value v) \<subseteq> insert (CHR 0x5C) (set v)"
  by (induction v) auto

lemma newline_controlValue: "c \<in> {CHR 0x0A, CHR 0x0D} \<Longrightarrow> c \<in> set (controlValue v) \<longleftrightarrow> c \<in> set v"
proof -
  have "c \<in> set (escape_value v) \<longleftrightarrow> c \<in> set v" if "c \<noteq> CHR 0x5C" for c
    using that by (induction v) auto
  then show "c \<in> {CHR 0x0A, CHR 0x0D} \<Longrightarrow> c \<in> set (controlValue v) \<longleftrightarrow> c \<in> set v"
    by (auto simp: controlValue_def)
qed

lemma split_on_lines:
  "list_all (\<lambda>l. CHR 0x0A \<notin> set l) ls \<Longrightarrow>
     split_on (CHR 0x0A) (concat (map (\<lambda>l. l @ newline) ls)) = ls @ [[]]"
  by (induction ls) (simp_all add: newline_def split_on_append)

lemma split_on_clean: "l \<in> set (split_on d s) \<Longrightarrow> d \<notin> set l"
  by (induction s arbitrary: l) (auto split: list.splits if_splits)

lemma digits_no_newline: "list_all is_digit ds \<Longrightarrow> CHR 0x0A \<notin> set ds"
  by (induction ds) (auto simp: is_digit_def)

lemma itoa_no_newline: "CHR 0x0A \<notin> set (itoa i)"
  using nat_dec_digits by (simp add: itoa_def digits_no_newline)

lemma tail_step_last:
  "0 < n \<Longrightarrow> length b \<le> n \<Longrightarrow>
     foldl (tail_step n) b ls = drop (length b + length ls - n) (b @ ls)"
proof (induction ls arbitrary: b)
  case (Cons l ls)
  show ?case
  proof (cases "length b = n")
    case True
    with Cons.prems Cons.IH [of "tl b @ [l]"] show ?thesis
      by (cases b) (auto simp: tail_step_def)
  next
    case False
    with Cons.prems Cons.IH [of "b @ [l]"] show ?thesis by (simp add: tail_step_def)
  qed
qed simp

lemma parseBootstrapProgress_range: "parseBootstrapProgress r = Some n \<Longrightarrow> 0 \<le> n \<and> n \<le> 100"
  by (auto simp: parseBootstrapProgress_def split: option.splits if_splits)

lemma upstream_values_plain:
  assumes "validate c = None" and "x \<in> {CHR 0x0A, CHR 0x0D}"
  shows "x \<notin> set (UpstreamSOCKS5 c)" "x \<notin> set (UpstreamUsername c)" "x \<notin> set (UpstreamPassword c)"
proof -
  have "\<not> contains_any (UpstreamSOCKS5 c @ UpstreamUsername c @ UpstreamPassword c) newlines"
    by (rule validate_None(16) [OF assms(1)])
  with assms(2) show "x \<notin> set (UpstreamSOCKS5 c)" "x \<notin> set (UpstreamUsername c)" "x \<notin> set (UpstreamPassword c)"
    by (auto simp: contains_any_def list_ex_iff newlines_def)
qed

definition single_line :: "string \<Rightarrow> bool" where
  "single_line s \<longleftrightarrow> CHR 0x0A \<notin> set s \<and> CHR 0x0D \<notin> set s"

lemma single_line_append [simp]: "single_line (s @ t) \<longleftrightarrow> single_line s \<and> single_line t"
  by (auto simp: single_line_def)

lemma single_line_Cons [simp]: "single_line (c # s) \<longleftrightarrow> c \<noteq> CHR 0x0A \<and> c \<noteq> CHR 0x0D \<and> single_line s"
  by (auto simp: single_line_def)

lemma single_line_Nil [simp]: "single_line []"
  by (simp add: single_line_def)

lemma single_line_controlValue [simp]: "single_line (controlValue v) \<longleftrightarrow> single_line v"
  using newline_controlValue [of "CHR 0x0A" v] newline_controlValue [of "CHR 0x0D" v]
  by (simp add: single_line_def)

lemma has_prefix_Cons [simp]: "has_prefix (x # xs) (a # p) \<longleftrightarrow> x = a \<and> has_prefix xs p" "\<not> has_prefix [] (a # p)"
    "has_prefix xs []"
  by (auto simp: has_prefix_def)

lemma has_prefix_line:
  "has_prefix (takeWhile (\<lambda>b. b \<noteq> d) xs @ d # ys) p \<Longrightarrow> d \<notin> set p \<Longrightarrow> has_prefix xs p"
proof (induction p arbitrary: xs)
  case (Cons a p)
  show ?case
  proof (cases xs)
    case Nil
    with Cons.prems show ?thesis by simp
  next
    case (Cons x xs')
    with Cons.prems Cons.IH [of xs'] show ?thesis by (cases "x = d") simp_all
  qed
qed simp

lemma read_line_prefix:
  "read_line c = (Inr l, c') \<Longrightarrow> CHR 0x0A \<notin> set p \<Longrightarrow> has_prefix l p \<Longrightarrow> has_prefix (incoming c) p"
  by (cases "CHR 0x0A \<in> set (incoming c)")
    (use has_prefix_line [of "CHR 0x0A" "incoming c" "[]" p] in \<open>simp_all add: read_line_def newline_def Let_def\<close>)

lemma read_line_Inr:
  assumes "read_line c = (Inr l, c')"
  shows "incoming c = l @ incoming c'" "\<exists>b. l = b @ newline \<and> CHR 0x0A \<notin> set b"
proof -
  let ?b = "takeWhile (\<lambda>b. b \<noteq> CHR 0x0A) (incoming c)"
  have n: "CHR 0x0A \<in> set (incoming c)" and l: "l = ?b @ newline" and c': "incoming c' = drop (Suc (length ?b)) (incoming c)"
    using assms by (auto simp: read_line_def Let_def split: if_splits)
  show "\<exists>b. l = b @ newline \<and> CHR 0x0A \<notin> set b" using l set_takeWhileD by fast
  have "dropWhile (\<lambda>b. b \<noteq> CHR 0x0A) (incoming c) = CHR 0x0A # tl (dropWhile (\<lambda>b. b \<noteq> CHR 0x0A) (incoming c))"
    using n hd_dropWhile [of "\<lambda>b. b \<noteq> CHR 0x0A" "incoming c"] by (cases "dropWhile (\<lambda>b. b \<noteq> CHR 0x0A) (incoming c)") auto
  moreover have "tl (dropWhile (\<lambda>b. b \<noteq> CHR 0x0A) (incoming c)) = incoming c'"
    unfolding c' by (metis drop_Suc dropWhile_eq_drop tl_drop)
  ultimately show "incoming c = l @ incoming c'"
    unfolding l newline_def using takeWhile_dropWhile_id [of "\<lambda>b. b \<noteq> CHR 0x0A" "incoming c"]
    by (metis append.assoc append_Cons append_Nil)
qed

lemma read_line_frame: "read_line c = (r, c') \<Longrightarrow> sent c' = sent c \<and> writes c' = writes c"
  by (auto simp: read_line_def Let_def split: if_splits)

lemma conn_write_frame:
  "conn_write bs c = (r, c') \<Longrightarrow> incoming c' = incoming c \<and> sent c' = (if r = None then sent c @ bs else sent c)"
  by (auto simp: conn_write_def split: list.splits option.splits)

section \<open>Properties\<close>

text \<open>C28: With a validated configuration every control command that applies the upstream proxy is one
  line, whatever Tor answers.  If the proxy is reported as applied, Tor has accepted every command (250), and
  the last of them is the right one: without an upstream the three options are reset; with one, any reader of
  quoted strings reads from the SETCONF command exactly the configured address, and exactly the configured user
  name and password under their own names if there are any - if there are none, the credentials have been
  reset before.\<close>

theorem upstream_commands_safe:
  assumes "validate c = None" and "quoted_strings read" and "applyUpstream run c = (err, commands)"
  shows "list_all single_line commands
    \<and> (err = None \<longrightarrow>
         (\<forall>k < length commands. \<exists>answer. run k (commands ! k) = Inr answer \<and> has_prefix answer ''250'')
       \<and> (if UpstreamSOCKS5 c = [] then commands = [''RESETCONF Socks5Proxy Socks5ProxyUsername Socks5ProxyPassword'']
          else \<exists>options. commands = (if UpstreamUsername c = [] then [''RESETCONF Socks5ProxyUsername Socks5ProxyPassword''] else [])
                 @ [''SETCONF'' @ options]
               \<and> reads_options read options ((''Socks5Proxy'', UpstreamSOCKS5 c)
                 # (if UpstreamUsername c = [] then []
                    else [(''Socks5ProxyUsername'', UpstreamUsername c), (''Socks5ProxyPassword'', UpstreamPassword c)]))))"
proof -
  have v: "single_line (UpstreamSOCKS5 c)" "single_line (UpstreamUsername c)" "single_line (UpstreamPassword c)"
    using upstream_values_plain [OF assms(1), of "CHR 0x0A"] upstream_values_plain [OF assms(1), of "CHR 0x0D"]
    by (auto simp: single_line_def)
  have lines: "single_line (upstream_command c)" "single_line reset_credentials"
    using v by (simp_all add: upstream_command_def reset_credentials_def)
  have sent: "commands = (if UpstreamSOCKS5 c \<noteq> [] \<and> UpstreamUsername c = [] then [reset_credentials] else []) @ [upstream_command c]"
      "\<forall>k < length commands. control_answer (run k (commands ! k)) = None" if "err = None"
    using assms(3) that
    by (auto simp: applyUpstream_def send_command_def less_Suc_eq split: if_splits prod.splits option.splits)
  have "list_all single_line commands"
    using assms(3) lines by (auto simp: applyUpstream_def send_command_def split: if_splits option.splits)
  moreover have "\<forall>k < length commands. \<exists>answer. run k (commands ! k) = Inr answer \<and> has_prefix answer ''250''" if "err = None"
    using sent(2) [OF that] by (simp add: control_answer_None)
  moreover have "\<exists>options. upstream_command c = ''SETCONF'' @ options \<and> reads_options read options ((''Socks5Proxy'', UpstreamSOCKS5 c)
      # (if UpstreamUsername c = [] then []
         else [(''Socks5ProxyUsername'', UpstreamUsername c), (''Socks5ProxyPassword'', UpstreamPassword c)]))"
    if "UpstreamSOCKS5 c \<noteq> []"
  proof -
    have word: "list_all is_word_char ''Socks5Proxy''" "list_all is_word_char ''Socks5ProxyUsername''"
        "list_all is_word_char ''Socks5ProxyPassword''" by code_simp+
    have read1: "reads_options read (CHR 0x20 # name @ CHR 0x3D # controlValue v @ rest) ((name, v) # options)"
      if "list_all is_word_char name" "reads_options read rest options" for name v rest options
      using that read_controlValue [OF assms(2)] by (intro an_option)
    have "reads_options read (CHR 0x20 # ''Socks5ProxyPassword'' @ CHR 0x3D # controlValue (UpstreamPassword c) @ [])
        [(''Socks5ProxyPassword'', UpstreamPassword c)]" by (intro read1 word no_option)
    from read1 [OF word(2) this, of "UpstreamUsername c"] that show ?thesis
      using read1 [OF word(1) no_option, of "UpstreamSOCKS5 c"] read1 [OF word(1), of _ _ "UpstreamSOCKS5 c"]
      by (cases "UpstreamUsername c = []") (simp_all add: upstream_command_def)
  qed
  ultimately show ?thesis using sent(1) by (auto simp: upstream_command_def reset_credentials_def)
qed

text \<open>Readers of quoted strings exist.\<close>

fun read_quoted_body :: "string \<Rightarrow> (string \<times> string) option" where
  "read_quoted_body [] = None"
| "read_quoted_body (c # cs) =
     (if c = CHR 0x22 then Some ([], cs)
      else if c = CHR 0x5C then
        (case cs of [] \<Rightarrow> None
         | d # ds \<Rightarrow> (case read_quoted_body ds of None \<Rightarrow> None | Some (v, rest) \<Rightarrow> Some (d # v, rest)))
      else (case read_quoted_body cs of None \<Rightarrow> None | Some (v, rest) \<Rightarrow> Some (c # v, rest)))"

lemma read_quoted_body_unescapes: "unescapes body v \<Longrightarrow> read_quoted_body (body @ CHR 0x22 # rest) = Some (v, rest)"
  by (induction rule: unescapes.induct) auto

lemma quoted_strings_example: "quoted_strings (\<lambda>s. read_quoted_body (tl s))"
  by (simp add: quoted_strings_def read_quoted_body_unescapes)

definition sample_upstream :: Config where
  "sample_upstream = (defaultConfig False)\<lparr>UpstreamSOCKS5 := ''10.0.0.1:1080'', UpstreamUsername := [CHR ''a'', CHR 0x22],
     UpstreamPassword := [CHR 0x5C, CHR ''b'']\<rparr>"

theorem upstream_commands_safe_witness:
  "\<exists>options. applyUpstream (\<lambda>k command. Inr ''250 OK'') sample_upstream = (None, [''SETCONF'' @ options])
   \<and> reads_options (\<lambda>s. read_quoted_body (tl s)) options
       [(''Socks5Proxy'', ''10.0.0.1:1080''), (''Socks5ProxyUsername'', [CHR ''a'', CHR 0x22]), (''Socks5ProxyPassword'', [CHR 0x5C, CHR ''b''])]"
proof -
  have v: "validate sample_upstream = None" "fst (applyUpstream (\<lambda>k command. Inr ''250 OK'') sample_upstream) = None" by code_simp+
  have c: "UpstreamSOCKS5 sample_upstream = ''10.0.0.1:1080''" "UpstreamUsername sample_upstream = [CHR ''a'', CHR 0x22]"
      "UpstreamPassword sample_upstream = [CHR 0x5C, CHR ''b'']" by (simp_all add: sample_upstream_def)
  obtain commands where a: "applyUpstream (\<lambda>k command. Inr ''250 OK'') sample_upstream = (None, commands)"
    using v(2) by (metis prod.collapse)
  show ?thesis using upstream_commands_safe [OF v(1) quoted_strings_example a, THEN conjunct2, THEN mp, OF refl] a by (auto simp: c)
qed


definition sample_instance :: Instance where
  "sample_instance = zero_instance\<lparr>ICountry := \<lparr>Code = ''us'', Name = []\<rparr>, SocksPort := 19050, controlPort := 22050\<rparr>"


text \<open>C30: A control command is sent only on a connection that has presented the cookie and was answered
  with 250: whatever the operation returns, the bytes written are nothing, the authentication, or the
  authentication followed by the command, the latter only after such an answer; the connection is
  closed in each case.  And it returns an answer only when the cookie was accepted and the command was sent;
  the answer is then the line that follows the one about the authentication.\<close>

theorem control_command_after_authentication:
  assumes "controlCommand i (Inr c) (Inr cookie) command = (r, Some c')" and "sent c = []"
  shows "closed c' \<and>
    (sent c' = [] \<or> sent c' = ''AUTHENTICATE '' @ hex_text cookie @ crlf
     \<or> sent c' = ''AUTHENTICATE '' @ hex_text cookie @ crlf @ command @ crlf \<and> has_prefix (incoming c) ''250'')
    \<and> (\<forall>answer. r = Inr answer \<longrightarrow>
         sent c' = ''AUTHENTICATE '' @ hex_text cookie @ crlf @ command @ crlf
         \<and> (\<exists>line text rest. incoming c = line @ newline @ answer @ rest \<and> answer = text @ newline
              \<and> CHR 0x0A \<notin> set line \<and> CHR 0x0A \<notin> set text \<and> has_prefix (line @ newline) ''250''))"
proof (cases "controlPort i = 0 \<or> dataDir i = []")
  case True
  with assms show ?thesis by (simp add: controlCommand_def)
next
  case ready: False
  let ?a = "''AUTHENTICATE '' @ hex_text cookie @ crlf"
  obtain r1 c1 where w1: "conn_write ?a c = (r1, c1)" by fastforce
  note f1 = conn_write_frame [OF w1]
  show ?thesis
  proof (cases r1)
    case (Some e)
    with assms ready w1 f1 show ?thesis by (auto simp: controlCommand_def close_conn_def)
  next
    case None
    obtain r2 c2 where l: "read_line c1 = (r2, c2)" by fastforce
    note f2 = read_line_frame [OF l]
    show ?thesis
    proof (cases "\<exists>line. r2 = Inr line \<and> has_prefix line ''250''")
      case False
      with assms ready w1 None l f1 f2 show ?thesis
        by (cases r2) (auto simp: controlCommand_def close_conn_def)
    next
      case True
      then obtain line where line: "r2 = Inr line" "has_prefix line ''250''" by blast
      have pre: "has_prefix (incoming c) ''250''"
        using read_line_prefix [of c1 line c2 "''250''"] l line f1 by simp
      obtain r3 c3 where w3: "conn_write (command @ crlf) c2 = (r3, c3)" by fastforce
      obtain r4 c4 where l4: "read_line c3 = (r4, c4)" by fastforce
      note f3 = conn_write_frame [OF w3] and f4 = read_line_frame [OF l4]
      have c': "c' = close_conn (if r3 = None then c4 else c3)" and r: "r = Inr answer \<Longrightarrow> r3 = None \<and> r4 = Inr answer" for answer
        using assms ready w1 None l line w3 l4 by (cases r3; cases r4; simp add: controlCommand_def)+
      have "\<exists>line text rest. incoming c = line @ newline @ answer @ rest \<and> answer = text @ newline
          \<and> CHR 0x0A \<notin> set line \<and> CHR 0x0A \<notin> set text \<and> has_prefix (line @ newline) ''250''" if "r = Inr answer" for answer
      proof -
        note r4 = r [OF that]
        obtain b where b: "line = b @ newline" "CHR 0x0A \<notin> set b" using read_line_Inr(2) [of c1 line c2] l line by auto
        obtain t where t: "answer = t @ newline" "CHR 0x0A \<notin> set t" using read_line_Inr(2) [of c3 answer c4] r4 l4 by auto
        have "incoming c = b @ newline @ answer @ incoming c4"
          using read_line_Inr(1) [of c1 line c2] read_line_Inr(1) [of c3 answer c4] r4 l l4 line(1) f1 f3 b(1) by simp
        with b t line(2) show ?thesis by blast
      qed
      with assms(2) None pre f1 f2 f3 f4 r show ?thesis
        by (auto simp: c' close_conn_def)
    qed
  qed
qed

definition sample_control :: "string \<Rightarrow> (error + string) \<times> Conn option" where
  "sample_control answers = controlCommand (sample_instance\<lparr>dataDir := ''/s/us/data''\<rparr>) (Inr (sample_conn answers)) (Inr ''k'') ''SIGNAL NEWNYM''"

theorem control_command_after_authentication_witness:
  "(\<exists>r c'. sample_control (''515 no'' @ newline) = (r, Some c') \<and> closed c' \<and> length (sent c') \<le> 17 \<and> (\<exists>e. r = Inl e))
   \<and> (\<exists>c'. sample_control (''250 OK'' @ newline @ ''552 what'' @ newline) = (Inr (''552 what'' @ newline), Some c')
        \<and> length (sent c') = 32)"
proof
  have len: "length (''AUTHENTICATE '' @ hex_text ''k'' @ crlf) = 17"
    "length (''AUTHENTICATE '' @ hex_text ''k'' @ crlf @ ''SIGNAL NEWNYM'' @ crlf) = 32" by code_simp+
  have "snd (sample_control (''515 no'' @ newline)) \<noteq> None" by code_simp
  then obtain r c' where 1: "sample_control (''515 no'' @ newline) = (r, Some c')" by (cases "sample_control (''515 no'' @ newline)") auto
  note a = control_command_after_authentication [OF 1 [unfolded sample_control_def]]
  have in1: "sent (sample_conn (''515 no'' @ newline)) = []" "\<not> has_prefix (''515 no'' @ newline) ''250''"
    "incoming (sample_conn (''515 no'' @ newline)) = ''515 no'' @ newline" by code_simp+
  then have "closed c' \<and> length (sent c') \<le> 17" using a len by auto
  moreover have "r \<noteq> Inr answer" for answer
    using a [OF in1(1), THEN conjunct2, THEN conjunct2, rule_format, of answer] in1(2,3)
      has_prefix_append [of _ "''250''"] append.assoc by metis
  then have "\<exists>e. r = Inl e" by (cases r) auto
  ultimately show "\<exists>r c'. sample_control (''515 no'' @ newline) = (r, Some c') \<and> closed c' \<and> length (sent c') \<le> 17 \<and> (\<exists>e. r = Inl e)"
    using 1 by blast
  let ?x = "sample_control (''250 OK'' @ newline @ ''552 what'' @ newline)"
  have "fst ?x = Inr (''552 what'' @ newline)" "snd ?x \<noteq> None" by code_simp+
  then obtain d where 2: "?x = (Inr (''552 what'' @ newline), Some d)" by (cases ?x) auto
  have "sent (sample_conn (''250 OK'' @ newline @ ''552 what'' @ newline)) = []" by code_simp
  from control_command_after_authentication [OF 2 [unfolded sample_control_def] this] len(2) 2
  show "\<exists>c'. ?x = (Inr (''552 what'' @ newline), Some c') \<and> length (sent c') = 32" by simp
qed

text \<open>The tail of a log of lines below 64 KiB is its last lines, in order, all of them when there
  are no more than asked for.\<close>

lemma tail_is_last_lines:
  assumes "0 < n" and "list_all (\<lambda>l. length l < 65536) (raw_lines content)"
  shows "tailFile (Inr content) n
    = (join_with newline (drop (length (raw_lines content) - n) (map drop_cr (raw_lines content))), None)"
proof -
  have "takeWhile (\<lambda>l. length l < 65536) (raw_lines content) = raw_lines content"
    using assms(2) by (simp add: takeWhile_eq_all_conv list_all_iff)
  then show ?thesis
    using tail_step_last [OF assms(1), of "[]" "map drop_cr (raw_lines content)"]
    by (simp add: tailFile_def scan_lines_def Let_def del: takeWhile_eq_all_conv)
qed

end
