(* ===== verification/Manager_Ops.thy ===== *)
theory Manager_Ops
  imports Torrc
begin

text \<open>
  The lifecycle operations of \<^verbatim>\<open>src/manager.go\<close>: creation, the runtime state file, start, stop,
  the watching goroutine and automatic restarts, connections, and shutdown.

  Each part of an operation that runs under the manager's lock is a definition of its own, and the
  operation is their sequence.  An operation takes its environment as a sequence: \<open>e k\<close> is what it
  learns from outside in its \<open>k\<close>-th part.
\<close>

section \<open>Runtime state\<close>

definition runtimeStatePath :: "Manager \<Rightarrow> string" where
  "runtimeStatePath m = path_join [StateDir (mcfg m), ''runtime-state.json'']"

definition load_node :: "PersistedNode \<Rightarrow> Manager \<Rightarrow> Manager" where
  "load_node node0 m =
     (let code = normalizeCode (Code (P_Country node0));
          node = node0\<lparr>P_Country := (P_Country node0)\<lparr>Code := code\<rparr>\<rparr>
      in if \<not> countryCodePattern code \<or> (P_ExitFingerprint node \<noteq> [] \<and> \<not> fingerprintPattern (P_ExitFingerprint node))
         then m
         else m\<lparr>resumeNodes := AList.update code
                (node\<lparr>P_ExitFingerprint := to_upper (P_ExitFingerprint node)\<rparr>) (resumeNodes m)\<rparr>)"

definition loadRuntimeState :: "bool \<Rightarrow> Manager \<Rightarrow> Manager" where
  "loadRuntimeState readable m =
     (case stateFile m of
        Holds state \<Rightarrow>
          if readable then
            let m1 = fold load_node (PS_Instances state) m
            in if has_key (resumeNodes m1) (normalizeCode (PS_Active state))
               then m1\<lparr>resumeActive := normalizeCode (PS_Active state)\<rparr> else m1
          else m
      | _ \<Rightarrow> m)"

text \<open>In \<^verbatim>\<open>saveRuntimeState\<close> the error of \<^verbatim>\<open>Chmod\<close> and of \<^verbatim>\<open>Write\<close> is assigned to a variable that
  is local to the \<^verbatim>\<open>if\<close> statement: the function goes on and puts the unwritten temporary file in
  place of the state file.\<close>

definition sorted_nodes :: "Manager \<Rightarrow> PersistedNode list" where
  "sorted_nodes m = sort_slice (\<lambda>a b. P_StartedAt a < P_StartedAt b) (map snd (resumeNodes m))"

definition persisted_state :: "Manager \<Rightarrow> persistedManagerState" where
  "persisted_state m = \<lparr>PS_Active = active m, PS_Instances = sorted_nodes m\<rparr>"

definition saveRuntimeState :: "Env \<Rightarrow> Manager \<Rightarrow> Manager" where
  "saveRuntimeState e m =
     (let io = saveIO e in
      if marshalResult io \<noteq> None \<or> mkdirAll io \<noteq> None \<or> createTemp io \<noteq> None then m
      else let content = (if chmodTemp io = None \<and> writeTemp io = None then Holds (persisted_state m) else Damaged)
        in if syncTemp io \<noteq> None \<or> closeTemp io \<noteq> None then m
           else m\<lparr>stateFile := fst (replaceFile (renameTemp io) (rewrite io) content (stateFile m))\<rparr>)"

definition remember_node :: "nat \<Rightarrow> Manager \<Rightarrow> Manager" where
  "remember_node p m = (let i = heap m p in
     m\<lparr>resumeNodes := AList.update (Code (ICountry i))
        \<lparr>P_Country = ICountry i, P_ExitFingerprint = ExitFingerprint i, P_SelectedIP = SelectedIP i,
         P_SelectedNode = SelectedNode i, P_StartedAt = StartedAt i\<rparr> (resumeNodes m)\<rparr>)"

definition rememberInstance :: "Env \<Rightarrow> nat \<Rightarrow> Manager \<Rightarrow> Manager" where
  "rememberInstance e p m = saveRuntimeState e (remember_node p m)"

definition forget_node :: "string \<Rightarrow> Manager \<Rightarrow> Manager" where
  "forget_node code m = m\<lparr>resumeNodes := AList.delete (normalizeCode code) (resumeNodes m),
     active := (if active m = normalizeCode code then [] else active m)\<rparr>"

definition forgetInstance :: "Env \<Rightarrow> string \<Rightarrow> Manager \<Rightarrow> Manager" where
  "forgetInstance e code m = saveRuntimeState e (forget_node code m)"

section \<open>Creation\<close>

definition configured_instance :: "Config \<Rightarrow> nat \<Rightarrow> Country \<Rightarrow> Instance" where
  "configured_instance c index country = zero_instance\<lparr>ICountry := country,
     SocksPort := wrap64 (BaseSocksPort c + int index), Status := Stopped,
     controlPort := wrap64 (BaseSocksPort c + 3000 + int index)\<rparr>"

definition add_instance :: "string \<Rightarrow> Instance \<Rightarrow> Manager \<Rightarrow> Manager" where
  "add_instance code i m = (allocate i m)\<lparr>instances := AList.update code (nextPtr m) (instances m),
     allInstances := List.insert (nextPtr m) (allInstances m)\<rparr>"

fun add_configured :: "Config \<Rightarrow> nat \<Rightarrow> Country list \<Rightarrow> Manager \<Rightarrow> Manager" where
  "add_configured c index [] m = m"
| "add_configured c index (country # rest) m =
     (let code = normalizeCode (Code country)
      in add_configured c (Suc index) rest
           (add_instance code (configured_instance c index (country\<lparr>Code := code\<rparr>)) m))"

definition empty_manager :: "Config \<Rightarrow> persistedManagerState file_state \<Rightarrow> Manager" where
  "empty_manager c f = \<lparr>mcfg = c, reservedPorts = [], heap = (\<lambda>_. zero_instance), instances = [],
     allInstances = [], resumeNodes = [], resumeActive = [], active = [], countryProxyCtx = None,
     countryListeners = [], beingOpened = [], clientAuth = NewRuntimeClientAuth (ClientAPIKey c), shuttingDown = False,
     nextPtr = 0, nextCmd = 0, nextCtx = 0, cancelled = [], tasks = [], signals = [], dirs = [], stateFile = f\<rparr>"

definition NewManager :: "Config \<Rightarrow> bool \<Rightarrow> persistedManagerState file_state \<Rightarrow> Manager" where
  "NewManager c readable f = loadRuntimeState readable (add_configured c 0 (Countries c) (empty_manager c f))"

definition ensureCountry :: "Country \<Rightarrow> Manager \<Rightarrow> Manager \<times> (error + nat)" where
  "ensureCountry country0 m =
     (let code = normalizeCode (Code country0); country = country0\<lparr>Code := code\<rparr> in
      if \<not> countryCodePattern code then (m, Inl (''invalid country code '' @ quote code))
      else case map_of (instances m) code of
        Some p \<Rightarrow>
          (if Name (ICountry (heap m p)) = [] \<and> Name country \<noteq> []
           then (modify p (\<lambda>i. i\<lparr>ICountry := (ICountry i)\<lparr>Name := Name country\<rparr>\<rparr>) m, Inr p) else (m, Inr p))
      | None \<Rightarrow>
          let n = length (Countries (mcfg m)); port = wrap64 (BaseSocksPort (mcfg m) + int n) in
          if port \<ge> 65535 then (m, Inl ''no internal SOCKS ports remain'')
          else ((add_instance code (configured_instance (mcfg m) n country) m)
                  \<lparr>mcfg := (mcfg m)\<lparr>Countries := Countries (mcfg m) @ [country]\<rparr>\<rparr>, Inr (nextPtr m)))"

section \<open>Directories, ports, signals\<close>

text \<open>The directory of an instance with the text of its torrc, which is empty before it is written and after a
  write that failed.\<close>

definition prepareTorCommand :: "Env \<Rightarrow> nat \<Rightarrow> string \<Rightarrow> Manager \<Rightarrow> Manager \<times> error option" where
  "prepareTorCommand e p instanceDir m =
     (let dataDirectory = path_join [instanceDir, ''data'']; logDir = path_join [instanceDir, ''logs''] in
      case mkData e of Some err \<Rightarrow> (m, Some err)
      | None \<Rightarrow> let m1 = m\<lparr>dirs := (if has_key (dirs m) instanceDir then dirs m else AList.update instanceDir [] (dirs m))\<rparr> in
        case mkLogs e of Some err \<Rightarrow> (m1, Some err)
        | None \<Rightarrow> let m2 = modify p (\<lambda>i. i\<lparr>dataDir := dataDirectory\<rparr>) m1 in
          case writeTorrc e of Some err \<Rightarrow> (m2\<lparr>dirs := AList.update instanceDir [] (dirs m2)\<rparr>, Some err)
          | None \<Rightarrow> (m2\<lparr>dirs := AList.update instanceDir
                (torrc (mcfg m2) (heap m2 p) dataDirectory logDir) (dirs m2)\<rparr>, None))"

definition removeInstanceDir :: "Env \<Rightarrow> string \<Rightarrow> Manager \<Rightarrow> Manager" where
  "removeInstanceDir e dir m =
     (if dir = [] \<or> \<not> removeOK e then m else m\<lparr>dirs := AList.delete dir (dirs m)\<rparr>)"

definition releaseReservedPort :: "int \<Rightarrow> Manager \<Rightarrow> Manager" where
  "releaseReservedPort port m = m\<lparr>reservedPorts := removeAll port (reservedPorts m)\<rparr>"

definition releaseInstancePorts :: "nat \<Rightarrow> Manager \<Rightarrow> Manager" where
  "releaseInstancePorts p m =
     (if \<not> dynamicPorts (heap m p) then m
      else releaseReservedPort (controlPort (heap m p)) (releaseReservedPort (SocksPort (heap m p)) m))"

definition signalProcess :: "Env \<Rightarrow> nat \<Rightarrow> nat \<Rightarrow> Manager \<Rightarrow> Manager" where
  "signalProcess e p c m = spawn (KillLater p c)
     (m\<lparr>signals := signals m @ (if interruptOK e then [(c, Interrupt)] else [(c, Interrupt), (c, Kill)])\<rparr>)"

definition cancel_rotation :: "nat \<Rightarrow> Manager \<Rightarrow> Manager" where
  "cancel_rotation p m = (case cancelRotation (heap m p) of None \<Rightarrow> m
     | Some ctx \<Rightarrow> modify p (\<lambda>i. i\<lparr>cancelRotation := None\<rparr>) (m\<lparr>cancelled := List.insert ctx (cancelled m)\<rparr>))"

text \<open>The goroutine that signalProcess starts, after its eight seconds.\<close>

definition kill_later :: "nat \<Rightarrow> nat \<Rightarrow> Manager \<Rightarrow> Manager" where
  "kill_later p c m = (if cmd (heap m p) = Some c then m\<lparr>signals := signals m @ [(c, Kill)]\<rparr> else m)"

section \<open>Stop\<close>

definition stopInstance :: "Env \<Rightarrow> nat \<Rightarrow> Manager \<Rightarrow> Manager" where
  "stopInstance e p m =
     (if stopping (heap m p) then m
      else let m1 = cancel_rotation p m in
        case cmd (heap m1 p) of
          None \<Rightarrow> modify p (\<lambda>i. i\<lparr>Status := Stopped, Error := []\<rparr>) m1
        | Some c \<Rightarrow> signalProcess e p c
            (modify p (\<lambda>i. i\<lparr>stopping := True, draining := True, Status := Stopping\<rparr>) m1))"

datatype stop_mark = Stop_idle | Stop_already | Stop_drain

definition abandon_replacement :: "Instance \<Rightarrow> Instance" where
  "abandon_replacement i = (if pendingReplacement i = None then i
     else i\<lparr>replacementSequence := replacementSequence i + 1, replacement := False,
       replacementPreviousStatus := NoStatus, replacementPreviousError := [], pendingReplacement := None\<rparr>)"

definition stop_section :: "string \<Rightarrow> nat \<Rightarrow> Manager \<Rightarrow> Manager \<times> stop_mark" where
  "stop_section code p m =
     (let m1 = modify p abandon_replacement m; i = heap m1 p in
      if cmd i = None then
        (modify p (\<lambda>i. i\<lparr>Status := Stopped, Error := [], restartScheduled := False, restartAttempts := 0\<rparr>) m1, Stop_idle)
      else if draining i then (m1, Stop_already)
      else ((modify p (\<lambda>i. i\<lparr>draining := True, restartScheduled := False, restartAttempts := 0, Status := Draining\<rparr>) m1)
              \<lparr>active := (if active m1 = code then [] else active m1)\<rparr>, Stop_drain))"

definition stop :: "Env \<Rightarrow> string \<Rightarrow> Manager \<Rightarrow> Manager \<times> error option" where
  "stop e code0 m =
     (let code = normalizeCode code0 in
      case map_of (instances m) code of None \<Rightarrow> (m, Some (''unknown country '' @ quote code))
      | Some p \<Rightarrow>
        let pending = pendingReplacement (heap m p); (m1, mark) = stop_section code p m;
            m2 = (case pending of None \<Rightarrow> m1 | Some r \<Rightarrow> stopInstance e r m1)
        in case mark of
             Stop_idle \<Rightarrow> (forgetInstance e code m2, None)
           | Stop_already \<Rightarrow> (m2, None)
           | Stop_drain \<Rightarrow> (spawn (DrainAndStop p) (forgetInstance e code m2), None))"

definition StopCountry :: "Env \<Rightarrow> string \<Rightarrow> Manager \<Rightarrow> Manager \<times> error option" where
  "StopCountry e code m = stop e code m"

section \<open>Start\<close>

fun room_scan :: "string \<Rightarrow> Manager \<Rightarrow> (string, nat) gomap \<Rightarrow> int \<Rightarrow> nat option \<Rightarrow> (int \<times> nat option) option" where
  "room_scan target m [] running oldest = Some (running, oldest)"
| "room_scan target m ((code, p) # rest) running oldest =
     (if \<not> online (Status (heap m p)) then room_scan target m rest running oldest
      else if code = target then None
      else room_scan target m rest (running + 1)
        (if code \<noteq> active m \<and> (case oldest of None \<Rightarrow> True | Some o' \<Rightarrow> StartedAt (heap m p) < StartedAt (heap m o'))
         then Some p else oldest))"

definition makeRoom :: "Env \<Rightarrow> string \<Rightarrow> Manager \<Rightarrow> Manager \<times> error option" where
  "makeRoom e target m =
     (case room_scan target m (instances m) 0 None of
        None \<Rightarrow> (m, None)
      | Some (running, oldest) \<Rightarrow>
          if running < MaxRunning (mcfg m) then (m, None)
          else case oldest of
            None \<Rightarrow> (m, Some (''maximum of '' @ itoa (MaxRunning (mcfg m)) @ '' running instances reached''))
          | Some p \<Rightarrow> stop e (code_of m p) m)"

definition started :: "time \<Rightarrow> nat \<Rightarrow> Instance \<Rightarrow> Instance" where
  "started t c i = i\<lparr>cmd := Some c, Status := Starting, BootstrapProgress := 0, restartScheduled := False,
     Error := [], ExitIP := [], ExitISP := [], ExitASN := [], ExitCountryName := [], ExitCountryCode := [],
     ExitCity := [], StartedAt := t, stopping := False\<rparr>"

definition launch :: "(Instance \<Rightarrow> Instance) \<Rightarrow> nat \<Rightarrow> Manager \<Rightarrow> Manager" where
  "launch f p m = (modify p f m)\<lparr>nextCmd := Suc (nextCmd m), allInstances := List.insert p (allInstances m)\<rparr>"

definition start_section :: "Env \<Rightarrow> string \<Rightarrow> Manager \<Rightarrow> Manager \<times> (error + (nat \<times> nat \<times> string) option)" where
  "start_section e code m =
     (case map_of (instances m) code of None \<Rightarrow> (m, Inl (''unknown country '' @ quote code))
      | Some p \<Rightarrow>
        let i = heap m p in
        if Status i \<in> {Starting, Connecting, Running, Switching, Draining} then (m, Inr None)
        else if cmd i \<noteq> None then (m, Inl ''previous Tor process has not exited yet'')
        else let instanceDir = path_join [StateDir (mcfg m), code] in
          case prepareTorCommand e p instanceDir m of
            (m1, Some err) \<Rightarrow> (removeInstanceDir e instanceDir m1, Inl err)
          | (m1, None) \<Rightarrow>
             (case startProcess e of
                Some err \<Rightarrow> (removeInstanceDir e instanceDir (modify p (\<lambda>i. i\<lparr>Status := Errored, Error := err\<rparr>) m1),
                              Inl (''start tor: '' @ err))
              | None \<Rightarrow> (launch (started (now e) (nextCmd m1)) p m1, Inr (Some (p, nextCmd m1, instanceDir)))))"

definition Start :: "(nat \<Rightarrow> Env) \<Rightarrow> string \<Rightarrow> Manager \<Rightarrow> Manager \<times> error option" where
  "Start e code0 m =
     (let code = normalizeCode code0 in
      if \<not> has_key (instances m) code then (m, Some (''unknown country '' @ quote code))
      else if shuttingDown m then (m, Some ''manager is shutting down'')
      else case makeRoom (e 0) code m of
        (m1, Some err) \<Rightarrow> (m1, Some err)
      | (m1, None) \<Rightarrow>
        (case start_section (e 1) code m1 of
           (m2, Inl err) \<Rightarrow> (m2, Some err)
         | (m2, Inr None) \<Rightarrow> (m2, None)
         | (m2, Inr (Some (p, c, dir))) \<Rightarrow>
             (spawn (AwaitReady p c) (spawn (Watch p c dir) (rememberInstance (e 2) p m2)), None)))"

end
