(* ===== verification/Manager_Run.thy ===== *)
theory Manager_Run
  imports Manager_Ops
begin

text \<open>
  The rest of \<^verbatim>\<open>src/manager.go\<close>: the goroutines that follow a Tor process, automatic restarts,
  client connections, activation and limits, the replacement of a node, the upstream proxy, circuit
  rotation, reports and shutdown.

  A polling loop with a deadline takes the outcomes of the polls it makes before the deadline.  The
  parts that run under the lock are definitions of their own, because other goroutines can run
  between them.
\<close>

section \<open>Watching a process and automatic restarts\<close>

definition autoRestartLimit :: int where "autoRestartLimit = 3"

definition exited :: "error option \<Rightarrow> Instance \<Rightarrow> Instance" where
  "exited err i = (if stopping i then i\<lparr>cmd := None, Status := Stopped, Error := [], stopping := False\<rparr>
     else i\<lparr>cmd := None, Status := Errored,
       Error := (if Status i = Errored \<and> Error i \<noteq> [] then Error i
                 else case err of Some x \<Rightarrow> x | None \<Rightarrow> ''Tor exited unexpectedly''), stopping := False\<rparr>)"

definition watch_exit :: "error option \<Rightarrow> nat \<Rightarrow> nat \<Rightarrow> Manager \<Rightarrow> Manager \<times> bool" where
  "watch_exit err p c m =
     (if cmd (heap m p) \<noteq> Some c then (m, False)
      else ((modify p (exited err) m)\<lparr>allInstances := removeAll p (allInstances m)\<rparr>, True))"

definition autoRestartEligibleLocked :: "nat \<Rightarrow> Manager \<Rightarrow> bool" where
  "autoRestartEligibleLocked p m = (let i = heap m p in
     \<not> shuttingDown m \<and> map_of (instances m) (Code (ICountry i)) = Some p \<and>
     Status i = Errored \<and> cmd i = None \<and> \<not> stopping i \<and> \<not> draining i \<and>
     \<not> replacement i \<and> pendingReplacement i = None \<and> restartAttempts i < autoRestartLimit)"

definition restart_delay :: "int \<Rightarrow> duration" where
  "restart_delay attempt = second * 2 ^ nat (attempt - 1)"

definition scheduleAutoRestartLocked :: "nat \<Rightarrow> error \<Rightarrow> Manager \<Rightarrow> Manager \<times> bool" where
  "scheduleAutoRestartLocked p reason m =
     (if \<not> autoRestartEligibleLocked p m \<or> restartScheduled (heap m p) then (m, False)
      else let attempt = restartAttempts (heap m p) + 1; delay = restart_delay attempt
        in (spawn (RunAutoRestart p attempt delay)
              (modify p (\<lambda>i. i\<lparr>restartAttempts := attempt, restartScheduled := True,
                 Error := reason @ ''; automatic restart '' @ itoa attempt @ ''/'' @ itoa autoRestartLimit
                   @ '' in '' @ seconds_text delay\<rparr>) m), True))"

definition clear_active_if :: "bool \<Rightarrow> string \<Rightarrow> Manager \<Rightarrow> Manager" where
  "clear_active_if b code m = (if b \<and> active m = code then m\<lparr>active := []\<rparr> else m)"

definition watch_restart :: "nat \<Rightarrow> Manager \<Rightarrow> Manager" where
  "watch_restart p m =
     (let (m1, scheduled) = (if draining (heap m p) then (m, False) else scheduleAutoRestartLocked p (Error (heap m p)) m)
      in if scheduled then m1
         else let here = (map_of (instances m1) (code_of m1 p) = Some p);
                  m2 = (if \<not> shuttingDown m1 \<and> here \<and> restartAttempts (heap m1 p) \<ge> autoRestartLimit
                        then modify p (\<lambda>i. i\<lparr>Error := Error i @ ''; automatic restart limit reached''\<rparr>) m1 else m1)
              in clear_active_if (here \<and> cmd (heap m2 p) = None) (code_of m2 p) m2)"

definition watch :: "Env \<Rightarrow> error option \<Rightarrow> nat \<Rightarrow> nat \<Rightarrow> string \<Rightarrow> Manager \<Rightarrow> Manager" where
  "watch e err p c instanceDir m =
     (let (m1, mine) = watch_exit err p c m;
          m2 = removeInstanceDir e instanceDir (releaseInstancePorts p m1)
      in if mine then watch_restart p m2 else m2)"

definition restart_check :: "nat \<Rightarrow> int \<Rightarrow> Manager \<Rightarrow> Manager \<times> bool" where
  "restart_check p attempt m =
     (if \<not> restartScheduled (heap m p) \<or> restartAttempts (heap m p) \<noteq> attempt \<or> \<not> autoRestartEligibleLocked p m
      then (m, False) else (modify p (\<lambda>i. i\<lparr>restartScheduled := False\<rparr>) m, True))"

definition restart_failed :: "nat \<Rightarrow> error \<Rightarrow> Manager \<Rightarrow> Manager" where
  "restart_failed p err m =
     (let reason = ''automatic restart failed: '' @ err; (m1, scheduled) = scheduleAutoRestartLocked p reason m
      in if scheduled then m1
         else clear_active_if True (code_of m1 p)
           (modify p (\<lambda>i. i\<lparr>Error := reason @ ''; automatic restart limit reached after ''
              @ itoa (restartAttempts i) @ '' attempts''\<rparr>) m1))"

definition runAutoRestart :: "(nat \<Rightarrow> Env) \<Rightarrow> nat \<Rightarrow> int \<Rightarrow> Manager \<Rightarrow> Manager" where
  "runAutoRestart e p attempt m =
     (let (m1, go) = restart_check p attempt m in
      if \<not> go then m1
      else case Start e (code_of m1 p) m1 of (m2, None) \<Rightarrow> m2 | (m2, Some err) \<Rightarrow> restart_failed p err m2)"

section \<open>Becoming ready\<close>

definition failInstance :: "Env \<Rightarrow> nat \<Rightarrow> nat \<Rightarrow> error \<Rightarrow> Manager \<Rightarrow> Manager" where
  "failInstance e p c message m =
     (if cmd (heap m p) \<noteq> Some c \<or> stopping (heap m p) \<or> draining (heap m p) then m
      else signalProcess e p c (modify p (\<lambda>i. i\<lparr>Status := Errored, Error := message\<rparr>) m))"

definition ready_section :: "nat \<Rightarrow> nat \<Rightarrow> Manager \<Rightarrow> Manager \<times> bool" where
  "ready_section p c m =
     (if cmd (heap m p) \<noteq> Some c \<or> Status (heap m p) \<noteq> Starting then (m, False)
      else (modify p (\<lambda>i. i\<lparr>Status := Connecting\<rparr>) m, True))"

definition upstreamConfig :: "Manager \<Rightarrow> Config" where
  "upstreamConfig m = mcfg m"

text \<open>\<open>polls\<close> are the outcomes of the dials made within ninety seconds; \<open>run\<close> answers the control
  commands.  The call of awaitBootstrap at the end goes on in the same goroutine; here it is the
  goroutine that is left.\<close>

definition awaitReady :: "Env \<Rightarrow> bool list \<Rightarrow> (nat \<Rightarrow> string \<Rightarrow> error + string) \<Rightarrow> nat \<Rightarrow> nat \<Rightarrow> Manager \<Rightarrow> Manager" where
  "awaitReady e polls run p c m =
     (if True \<notin> set polls then failInstance e p c ''Tor did not open its SOCKS port within 90 seconds'' m
      else let (m1, mine) = ready_section p c m in
        if \<not> mine then m1
        else case fst (applyUpstream run (upstreamConfig m1)) of
          Some err \<Rightarrow> failInstance e p c (''apply upstream proxy: '' @ err) m1
        | None \<Rightarrow> spawn (AwaitBootstrap p c) m1)"

definition set_progress :: "nat \<Rightarrow> int \<Rightarrow> Manager \<Rightarrow> Manager" where
  "set_progress p progress m =
     (if progress > BootstrapProgress (heap m p) then modify p (\<lambda>i. i\<lparr>BootstrapProgress := progress\<rparr>) m else m)"

definition refreshBootstrapProgress :: "error + string \<Rightarrow> nat \<Rightarrow> Manager \<Rightarrow> Manager" where
  "refreshBootstrapProgress response p m =
     (case response of Inl _ \<Rightarrow> m
      | Inr text \<Rightarrow> (case parseBootstrapProgress text of None \<Rightarrow> m | Some progress \<Rightarrow> set_progress p progress m))"

definition markInstanceRunning :: "nat \<Rightarrow> nat \<Rightarrow> string \<Rightarrow> Manager \<Rightarrow> Manager \<times> bool" where
  "markInstanceRunning p c exitIP m =
     (if cmd (heap m p) \<noteq> Some c \<or> Status (heap m p) \<noteq> Connecting then (m, False)
      else (modify p (\<lambda>i. i\<lparr>ExitIP := exitIP, Status := Running, BootstrapProgress := 100, Error := [],
              restartAttempts := 0, restartScheduled := False\<rparr>) m, True))"

definition startCircuitRotation :: "nat \<Rightarrow> Manager \<Rightarrow> Manager" where
  "startCircuitRotation p m =
     (let minutes = CircuitRotateMinutes (mcfg m) in
      if minutes \<le> 0 then m
      else let m1 = cancel_rotation p m; ctx = nextCtx m1
        in spawn (RotateCircuit p ctx (minutes * minute))
             ((modify p (\<lambda>i. i\<lparr>cancelRotation := Some ctx\<rparr>) m1)\<lparr>nextCtx := Suc ctx\<rparr>))"

text \<open>One tick of the rotation goroutine: whether it goes on, and whether it asks for a new circuit.\<close>

definition rotation_tick :: "nat \<Rightarrow> nat \<Rightarrow> Manager \<Rightarrow> Manager \<times> bool" where
  "rotation_tick p ctx m =
     (if ctx \<in> set (cancelled m) then (m, False)
      else if Status (heap m p) \<noteq> Running then (m\<lparr>cancelled := List.insert ctx (cancelled m)\<rparr>, False)
      else (m, True))"

record exitInfo =
  EI_ASN :: string
  EI_Org :: string
  EI_CountryName :: string
  EI_CountryCode :: string
  EI_City :: string

record ipapi_answer =
  ApiError :: bool
  ApiASN :: string
  ApiOrg :: string
  ApiCountryName :: string
  ApiCountryCode :: string
  ApiCity :: string

record ipwho_answer =
  WhoSuccess :: bool
  WhoCountry :: string
  WhoCountryCode :: string
  WhoCity :: string
  WhoASN :: int
  WhoOrg :: string
  WhoISP :: string

text \<open>An answer is the HTTP status with the decoded body; \<open>None\<close> is a failed request or body.\<close>

definition queryIPAPI :: "(int \<times> ipapi_answer option) option \<Rightarrow> exitInfo option" where
  "queryIPAPI resp = (case resp of
     Some (status, Some a) \<Rightarrow>
       if status \<noteq> 200 \<or> ApiError a \<or> (ApiOrg a = [] \<and> ApiASN a = []) then None
       else Some \<lparr>EI_ASN = ApiASN a, EI_Org = ApiOrg a, EI_CountryName = ApiCountryName a,
              EI_CountryCode = ApiCountryCode a, EI_City = ApiCity a\<rparr>
   | _ \<Rightarrow> None)"

definition queryIPWho :: "(int \<times> ipwho_answer option) option \<Rightarrow> exitInfo option" where
  "queryIPWho resp = (case resp of
     Some (status, Some a) \<Rightarrow>
       let org = (if WhoISP a = [] then WhoOrg a else WhoISP a);
           asn = (if WhoASN a > 0 then ''AS'' @ itoa (WhoASN a) else [])
       in if status \<noteq> 200 \<or> \<not> WhoSuccess a \<or> (org = [] \<and> asn = []) then None
          else Some \<lparr>EI_ASN = asn, EI_Org = org, EI_CountryName = WhoCountry a,
                 EI_CountryCode = WhoCountryCode a, EI_City = WhoCity a\<rparr>
   | _ \<Rightarrow> None)"

fun first_info :: "((int \<times> ipapi_answer option) option \<times> (int \<times> ipwho_answer option) option) list \<Rightarrow> exitInfo option" where
  "first_info [] = None"
| "first_info ((api, who) # rest) = (case queryIPAPI api of Some x \<Rightarrow> Some x
     | None \<Rightarrow> (case queryIPWho who of Some x \<Rightarrow> Some x | None \<Rightarrow> first_info rest))"

definition store_info :: "nat \<Rightarrow> string \<Rightarrow> exitInfo \<Rightarrow> Manager \<Rightarrow> Manager" where
  "store_info p ip info m =
     (if ExitIP (heap m p) = ip then
        modify p (\<lambda>i. i\<lparr>ExitISP := EI_Org info, ExitASN := EI_ASN info, ExitCountryName := EI_CountryName info,
           ExitCountryCode := EI_CountryCode info, ExitCity := EI_City info\<rparr>) m
      else m)"

definition lookupExitInfo :: "((int \<times> ipapi_answer option) option \<times> (int \<times> ipwho_answer option) option) list
    \<Rightarrow> nat \<Rightarrow> string \<Rightarrow> Manager \<Rightarrow> Manager" where
  "lookupExitInfo answers p ip m =
     (if parse_ip ip = None then m
      else case first_info (take 3 answers) of None \<Rightarrow> m | Some info \<Rightarrow> store_info p ip info m)"

record ProbeIO =
  torCheck :: "(string \<times> bool) option"
  ipify :: "string option"
  infoAnswers :: "((int \<times> ipapi_answer option) option \<times> (int \<times> ipwho_answer option) option) list"

definition running_with :: "ProbeIO \<Rightarrow> nat \<Rightarrow> nat \<Rightarrow> string \<Rightarrow> Manager \<Rightarrow> Manager \<times> bool" where
  "running_with io p c ip m =
     (let (m1, ok) = markInstanceRunning p c ip m
      in if \<not> ok then (m1, False)
         else (lookupExitInfo (infoAnswers io) p ip (startCircuitRotation p m1), True))"

definition refreshInstanceExitIP :: "ProbeIO \<Rightarrow> nat \<Rightarrow> nat \<Rightarrow> Manager \<Rightarrow> Manager \<times> bool" where
  "refreshInstanceExitIP io p c m =
     (let fallback = (case ipify io of None \<Rightarrow> (m, False)
            | Some ip \<Rightarrow> if parse_ip ip = None then (m, False) else running_with io p c ip m)
      in case torCheck io of
           Some (ip, isTor) \<Rightarrow> if isTor \<and> parse_ip ip \<noteq> None then running_with io p c ip m else fallback
         | None \<Rightarrow> fallback)"

fun awaitBootstrap :: "Env \<Rightarrow> ((error + string) \<times> ProbeIO) list \<Rightarrow> nat \<Rightarrow> nat \<Rightarrow> Manager \<Rightarrow> Manager" where
  "awaitBootstrap e [] p c m = failInstance e p c
     ''Tor did not obtain a working exit within 3 minutes; the network may block Tor'' m"
| "awaitBootstrap e ((response, io) # polls) p c m =
     (if \<not> (cmd (heap m p) = Some c \<and> Status (heap m p) = Connecting) then m
      else let (m2, done') = refreshInstanceExitIP io p c (refreshBootstrapProgress response p m)
        in if done' then m2 else awaitBootstrap e polls p c m2)"

section \<open>Draining\<close>

text \<open>One round of a drain loop: it stops the instance when no connection is left or the deadline has
  passed, and else waits; the second component tells whether the loop goes on.\<close>

definition drain_deadline :: "time \<Rightarrow> Manager \<Rightarrow> time" where
  "drain_deadline t m = t + DrainTimeoutSec (mcfg m) * second"

definition drainAndStop :: "Env \<Rightarrow> time \<Rightarrow> nat \<Rightarrow> Manager \<Rightarrow> Manager \<times> bool" where
  "drainAndStop e deadline p m =
     (if now e < deadline \<and> ActiveConnections (heap m p) \<noteq> 0 then (m, True) else (stopInstance e p m, False))"

definition drain_poll :: "nat \<Rightarrow> nat \<Rightarrow> Manager \<Rightarrow> Manager" where
  "drain_poll old current m =
     modify current (\<lambda>i. i\<lparr>DrainingConnections := ActiveConnections (heap m old)\<rparr>) m"

definition drain_end :: "nat \<Rightarrow> Manager \<Rightarrow> Manager" where
  "drain_end current m =
     (if map_of (instances m) (code_of m current) = Some current
      then modify current (\<lambda>i. i\<lparr>DrainingConnections := 0\<rparr>) m else m)"

definition drainInstance :: "Env \<Rightarrow> time \<Rightarrow> nat \<Rightarrow> nat \<Rightarrow> Manager \<Rightarrow> Manager \<times> bool" where
  "drainInstance e deadline old current m =
     (if now e < deadline then
        let m1 = drain_poll old current m
        in if ActiveConnections (heap m old) \<noteq> 0 then (m1, True)
           else (drain_end current (stopInstance e old m1), False)
      else (drain_end current (stopInstance e old m), False))"

section \<open>Connections and activation\<close>

definition acquireInstance :: "string \<Rightarrow> Manager \<Rightarrow> Manager \<times> nat option" where
  "acquireInstance code m =
     (case map_of (instances m) (normalizeCode code) of None \<Rightarrow> (m, None)
      | Some p \<Rightarrow> let i = heap m p in
          if (Status i \<noteq> Running \<and> Status i \<noteq> Switching) \<or> draining i then (m, None)
          else (modify p (\<lambda>i. i\<lparr>ActiveConnections := ActiveConnections i + 1\<rparr>) m, Some p))"

definition releaseInstance :: "nat \<Rightarrow> Manager \<Rightarrow> Manager" where
  "releaseInstance p m =
     (if ActiveConnections (heap m p) > 0
      then modify p (\<lambda>i. i\<lparr>ActiveConnections := ActiveConnections i - 1\<rparr>) m else m)"

definition activate_section :: "string \<Rightarrow> Manager \<Rightarrow> Manager \<times> error option" where
  "activate_section code m =
     (case map_of (instances m) code of
        None \<Rightarrow> (m, Some ''Tor instance stopped before it could be activated'')
      | Some p \<Rightarrow>
          if draining (heap m p) \<or> \<not> online (Status (heap m p))
          then (m, Some ''Tor instance stopped before it could be activated'')
          else (m\<lparr>active := code\<rparr>, None))"

definition Activate :: "(nat \<Rightarrow> Env) \<Rightarrow> string \<Rightarrow> Manager \<Rightarrow> Manager \<times> error option" where
  "Activate e code0 m =
     (let code = normalizeCode code0 in
      case Start e code m of (m1, Some err) \<Rightarrow> (m1, Some err) | (m1, None) \<Rightarrow> activate_section code m1)"

definition online_entries :: "Manager \<Rightarrow> (string, nat) gomap" where
  "online_entries m = filter (\<lambda>(code, p). online (Status (heap m p))) (instances m)"

definition victims :: "Manager \<Rightarrow> nat list" where
  "victims m =
     (let candidates = sort_slice (\<lambda>a b. StartedAt (heap m a) < StartedAt (heap m b))
            (map snd (filter (\<lambda>(code, p). code \<noteq> active m) (online_entries m)));
          stopCount = int (length (online_entries m)) - MaxRunning (mcfg m)
      in take (nat stopCount) candidates)"

fun stop_all :: "(nat \<Rightarrow> Env) \<Rightarrow> string list \<Rightarrow> Manager \<Rightarrow> Manager" where
  "stop_all e [] m = m"
| "stop_all e (code # codes) m = stop_all (\<lambda>k. e (Suc k)) codes (fst (stop (e 0) code m))"

definition UpdateMaxRunning :: "(nat \<Rightarrow> Env) \<Rightarrow> int \<Rightarrow> Manager \<Rightarrow> Manager" where
  "UpdateMaxRunning e limit m =
     (let m1 = m\<lparr>mcfg := (mcfg m)\<lparr>MaxRunning := limit\<rparr>\<rparr>
      in stop_all e (map (code_of m1) (victims m1)) m1)"

section \<open>Replacing a node\<close>

definition restoreAfterReplacementLocked :: "nat \<Rightarrow> error \<Rightarrow> Manager \<Rightarrow> Manager \<times> nat option \<times> status" where
  "restoreAfterReplacementLocked p message m =
     (let i = heap m p;
          st = (if replacementPreviousStatus i = NoStatus \<or> replacementPreviousStatus i = Switching then Running
                else replacementPreviousStatus i);
          previousError = replacementPreviousError i;
          cleared = (\<lambda>st err i. i\<lparr>replacement := False, replacementPreviousStatus := NoStatus,
             replacementPreviousError := [], pendingReplacement := None, Status := st, Error := err\<rparr>)
      in if cmd i = None \<or> stopping i \<or> draining i then
           let gone = Status i \<notin> {Errored, Stopped, Stopping};
               st' = (if gone then Errored else Status i);
               err = (if gone then ''old Tor instance is no longer running'' else Error i);
               err' = (if message = [] then err else if err \<noteq> [] then err @ ''; '' @ message else message)
           in (modify p (cleared st' err') m, None, NoStatus)
         else (modify p (cleared st (if message = [] then previousError else message)) m, cmd i, st))"

definition resumeAfterReplacement :: "nat \<Rightarrow> nat option \<Rightarrow> status \<Rightarrow> Manager \<Rightarrow> Manager" where
  "resumeAfterReplacement p c st m =
     (case c of None \<Rightarrow> m
      | Some x \<Rightarrow> if st = Starting then spawn (AwaitReady p x) m
                  else if st = Connecting then spawn (AwaitBootstrap p x) m else m)"

fun reserve_from :: "nat \<Rightarrow> nat \<Rightarrow> (nat \<Rightarrow> error + (int \<times> error option)) \<Rightarrow> Manager \<Rightarrow> Manager \<times> (error + int)" where
  "reserve_from 0 attempt listen m = (m, Inl ''could not reserve a unique replacement port'')"
| "reserve_from (Suc n) attempt listen m =
     (case listen attempt of
        Inl e \<Rightarrow> (m, Inl (''allocate replacement port: '' @ e))
      | Inr (port, closeErr) \<Rightarrow>
          let reserved = (port \<in> set (reservedPorts m));
              m1 = (if reserved then m else m\<lparr>reservedPorts := port # reservedPorts m\<rparr>)
          in case closeErr of
               Some e \<Rightarrow> (if reserved then m1 else releaseReservedPort port m1,
                            Inl (''release replacement port listener: '' @ e))
             | None \<Rightarrow> if reserved then reserve_from n (Suc attempt) listen m1 else (m1, Inr port))"

definition reserveLocalPort :: "Env \<Rightarrow> Manager \<Rightarrow> Manager \<times> (error + int)" where
  "reserveLocalPort e m = reserve_from 32 0 (listenPort e) m"

definition startDetached :: "Env \<Rightarrow> nat \<Rightarrow> string \<Rightarrow> Manager \<Rightarrow> Manager \<times> error option" where
  "startDetached e p suffix m =
     (let instanceDir = path_join [StateDir (mcfg m), code_of m p @ ''-'' @ suffix] in
      case prepareTorCommand e p instanceDir m of
        (m1, Some err) \<Rightarrow> (removeInstanceDir e instanceDir (releaseInstancePorts p m1), Some err)
      | (m1, None) \<Rightarrow>
         (case startProcess e of
            Some err \<Rightarrow> (removeInstanceDir e instanceDir (releaseInstancePorts p m1),
                          Some (''start replacement tor: '' @ err))
          | None \<Rightarrow> let c = nextCmd m1 in
              (spawn (AwaitReady p c) (spawn (Watch p c instanceDir)
                 (launch (\<lambda>i. i\<lparr>cmd := Some c, Status := Starting, BootstrapProgress := 0, StartedAt := now e\<rparr>) p m1)),
               None)))"

definition replacement_instance :: "Instance \<Rightarrow> ExitNode \<Rightarrow> int \<Rightarrow> int \<Rightarrow> Instance" where
  "replacement_instance current node port control = zero_instance\<lparr>ICountry := ICountry current,
     SocksPort := port, Status := Stopped, SelectedIP := N_IP node, SelectedNode := N_Nickname node,
     ExitFingerprint := to_upper (N_Fingerprint node), controlPort := control, dynamicPorts := True\<rparr>"

definition replace_section :: "nat \<Rightarrow> ExitNode \<Rightarrow> int \<Rightarrow> int \<Rightarrow> Manager \<Rightarrow> Manager \<times> (nat \<times> 64 word \<times> nat option) option" where
  "replace_section current node port control m =
     (let i = heap m current in
      if map_of (instances m) (Code (ICountry i)) \<noteq> Some current \<or> cmd i = None \<or> stopping i \<or> draining i
      then (m, None)
      else let r = nextPtr m; sequence = replacementSequence i + 1;
               m1 = allocate (replacement_instance i node port control) m
        in (modify current (\<lambda>i. i\<lparr>
              replacementPreviousStatus := (if replacement i then replacementPreviousStatus i else Status i),
              replacementPreviousError := (if replacement i then replacementPreviousError i else Error i),
              replacementSequence := sequence, replacement := True, Status := Switching,
              pendingReplacement := Some r\<rparr>) m1,
            Some (r, sequence, pendingReplacement i)))"

definition replacement_failed :: "nat \<Rightarrow> nat \<Rightarrow> 64 word \<Rightarrow> error \<Rightarrow> Manager \<Rightarrow> Manager \<times> nat option \<times> status" where
  "replacement_failed current r sequence message m =
     (if replacementSequence (heap m current) = sequence \<and> pendingReplacement (heap m current) = Some r
      then restoreAfterReplacementLocked current message m else (m, None, NoStatus))"

definition replaceNode :: "(nat \<Rightarrow> Env) \<Rightarrow> nat \<Rightarrow> ExitNode \<Rightarrow> bool \<Rightarrow> Manager \<Rightarrow> Manager \<times> error option" where
  "replaceNode e current node activate m =
     (if shuttingDown m then (m, Some ''manager is shutting down'')
      else case reserveLocalPort (e 0) m of (m1, Inl err) \<Rightarrow> (m1, Some err)
      | (m1, Inr port) \<Rightarrow>
       (case reserveLocalPort (e 1) m1 of (m2, Inl err) \<Rightarrow> (releaseReservedPort port m2, Some err)
        | (m2, Inr control) \<Rightarrow>
         (case replace_section current node port control m2 of
            (m3, None) \<Rightarrow> (releaseReservedPort control (releaseReservedPort port m3),
               Some ''current Tor instance is no longer available for replacement'')
          | (m3, Some (r, sequence, previous)) \<Rightarrow>
              let m4 = (case previous of None \<Rightarrow> m3 | Some q \<Rightarrow> stopInstance (e 2) q m3) in
              case startDetached (e 3) r (''replacement-'' @ itoa (unixNano (e 3))) m4 of
                (m5, None) \<Rightarrow> (spawn (CompleteReplacement current r activate sequence) m5, None)
              | (m5, Some err) \<Rightarrow>
                  let (m6, c, st) = replacement_failed current r sequence (''replacement failed: '' @ err) m5
                  in (resumeAfterReplacement current c st m6, Some err))))"

definition CancelReplacement :: "Env \<Rightarrow> string \<Rightarrow> Manager \<Rightarrow> Manager \<times> error option" where
  "CancelReplacement e code0 m =
     (let code = normalizeCode code0 in
      case map_of (instances m) code of None \<Rightarrow> (m, Some (''unknown country '' @ quote code))
      | Some p \<Rightarrow>
        if \<not> replacement (heap m p) then (m, None)
        else case pendingReplacement (heap m p) of None \<Rightarrow> (m, None)
        | Some r \<Rightarrow>
          let m1 = modify p (\<lambda>i. i\<lparr>replacementSequence := replacementSequence i + 1\<rparr>) m;
              (m2, c, st) = restoreAfterReplacementLocked p [] m1
          in (resumeAfterReplacement p c st (stopInstance e r m2), None))"

definition swap_section :: "nat \<Rightarrow> nat \<Rightarrow> bool \<Rightarrow> 64 word \<Rightarrow> Manager \<Rightarrow> Manager \<times> bool" where
  "swap_section current r activate sequence m =
     (let i = heap m current; code = Code (ICountry i) in
      if map_of (instances m) code \<noteq> Some current \<or> replacementSequence i \<noteq> sequence \<or> pendingReplacement i \<noteq> Some r
      then (m, False)
      else (modify r (\<lambda>x. x\<lparr>ActiveConnections := 0, DrainingConnections := ActiveConnections i\<rparr>)
             (modify current (\<lambda>x. x\<lparr>replacement := False, replacementPreviousStatus := NoStatus,
                replacementPreviousError := [], pendingReplacement := None, draining := True, Status := Draining\<rparr>)
              (m\<lparr>instances := AList.update code r (instances m),
                  active := (if activate then code else active m)\<rparr>)), True))"

text \<open>One round of completeReplacement: it ends with the swap, with a cancelled or failed
  replacement (also at the deadline), or goes on.\<close>

definition completeReplacement :: "Env \<Rightarrow> time \<Rightarrow> nat \<Rightarrow> nat \<Rightarrow> bool \<Rightarrow> 64 word \<Rightarrow> Manager \<Rightarrow> Manager \<times> bool" where
  "completeReplacement e deadline current r activate sequence m =
     (let failed = (let (m1, c, st) = replacement_failed current r sequence
             ''replacement instance did not become ready; old route was preserved'' m
            in resumeAfterReplacement current c st (stopInstance e r m1));
          status = Status (heap m r)
      in if \<not> now e < deadline then (failed, False)
         else if \<not> (replacementSequence (heap m current) = sequence \<and> pendingReplacement (heap m current) = Some r)
         then (stopInstance e r m, False)
         else if status = Running then
           (let (m1, swapped) = swap_section current r activate sequence m
            in if \<not> swapped then (stopInstance e r m1, False)
               else (spawn (DrainInstance current r) (rememberInstance e r m1), False))
         else if status = Errored \<or> status = Stopped then (failed, False)
         else (m, True))"

section \<open>Starting a node\<close>

definition choose_node :: "nat \<Rightarrow> ExitNode \<Rightarrow> Manager \<Rightarrow> Manager" where
  "choose_node p node m = modify p (\<lambda>i. i\<lparr>ExitFingerprint := to_upper (N_Fingerprint node),
     SelectedIP := N_IP node, SelectedNode := N_Nickname node\<rparr>) m"

definition startNode :: "(nat \<Rightarrow> Env) \<Rightarrow> ExitNode \<Rightarrow> bool \<Rightarrow> Manager \<Rightarrow> Manager \<times> error option" where
  "startNode e node activate m =
     (if \<not> fingerprintPattern (N_Fingerprint node) then (m, Some ''invalid Tor relay fingerprint'')
      else case ensureCountry \<lparr>Code = N_CountryCode node, Name = N_CountryName node\<rparr> m of
        (m1, Inl err) \<Rightarrow> (m1, Some err)
      | (m1, Inr p) \<Rightarrow>
        let i = heap m1 p; alreadyRunning = (ExitFingerprint i = to_upper (N_Fingerprint node) \<and> Status i = Running) in
        if alreadyRunning then (if activate then m1\<lparr>active := Code (ICountry i)\<rparr> else m1, None)
        else if cmd i \<noteq> None then replaceNode e p node activate m1
        else let m2 = choose_node p node m1 in
          if activate then Activate e (code_of m2 p) m2 else Start e (code_of m2 p) m2)"

definition ActivateNode :: "(nat \<Rightarrow> Env) \<Rightarrow> ExitNode \<Rightarrow> Manager \<Rightarrow> Manager \<times> error option" where
  "ActivateNode e node m = startNode e node True m"

definition StartNode :: "(nat \<Rightarrow> Env) \<Rightarrow> ExitNode \<Rightarrow> Manager \<Rightarrow> Manager \<times> error option" where
  "StartNode e node m = startNode e node False m"

definition restore_node :: "(nat \<Rightarrow> Env) \<Rightarrow> PersistedNode \<Rightarrow> Manager \<Rightarrow> Manager" where
  "restore_node e node m =
     (case ensureCountry (P_Country node) m of (m1, Inl _) \<Rightarrow> m1
      | (m1, Inr p) \<Rightarrow> fst (Start e (Code (P_Country node))
          (modify p (\<lambda>i. i\<lparr>SelectedIP := P_SelectedIP node, SelectedNode := P_SelectedNode node,
             ExitFingerprint := P_ExitFingerprint node\<rparr>) m1)))"

fun restore_all :: "(nat \<Rightarrow> nat \<Rightarrow> Env) \<Rightarrow> PersistedNode list \<Rightarrow> Manager \<Rightarrow> Manager" where
  "restore_all e [] m = m"
| "restore_all e (node # nodes) m = restore_all (\<lambda>k. e (Suc k)) nodes (restore_node (e 0) node m)"

definition Restore :: "(nat \<Rightarrow> nat \<Rightarrow> Env) \<Rightarrow> Manager \<Rightarrow> Manager" where
  "Restore e m = restore_all e (sorted_nodes m) (m\<lparr>active := resumeActive m\<rparr>)"

end
