(* ===== verification/Manager_Reports.thy ===== *)
theory Manager_Reports
  imports Manager_Run
begin

text \<open>
  The operations of \<^verbatim>\<open>src/manager.go\<close> on all instances at once: the upstream proxy, circuit
  rotation, the reports to the web interface, the clean-up of old directories and shutdown.
\<close>

section \<open>Upstream proxy and rotation\<close>

definition upstream_targets :: "Manager \<Rightarrow> nat list" where
  "upstream_targets m = map snd (filter (\<lambda>(code, p). let i = heap m p in
     Status i \<in> {Running, Connecting, Errored} \<and> cmd i \<noteq> None \<and> \<not> stopping i \<and> \<not> draining i) (instances m))"

definition retry_section :: "nat \<Rightarrow> Manager \<Rightarrow> Manager" where
  "retry_section p m =
     (case cmd (heap m p) of
        Some c \<Rightarrow> if Status (heap m p) = Errored
          then spawn (AwaitBootstrap p c) (modify p (\<lambda>i. i\<lparr>Status := Connecting, Error := []\<rparr>) m) else m
      | None \<Rightarrow> m)"

fun apply_to_all :: "(nat \<Rightarrow> nat \<Rightarrow> string \<Rightarrow> error + string) \<Rightarrow> Config \<Rightarrow> nat list \<Rightarrow> Manager \<Rightarrow> Manager \<times> error option" where
  "apply_to_all run c [] m = (m, None)"
| "apply_to_all run c (p # ps) m =
     (case fst (applyUpstream (run p) c) of
        Some e \<Rightarrow> (m, Some (''apply upstream proxy to '' @ code_of m p @ '': '' @ e))
      | None \<Rightarrow>
        (case run p 2 ''SIGNAL NEWNYM'' of
           Inl e \<Rightarrow> (m, Some (''rotate circuit for '' @ code_of m p @ '': '' @ e))
         | Inr _ \<Rightarrow> apply_to_all run c ps (retry_section p m)))"

definition UpdateUpstreamProxy :: "(nat \<Rightarrow> nat \<Rightarrow> string \<Rightarrow> error + string) \<Rightarrow> Config \<Rightarrow> Manager \<Rightarrow> Manager \<times> error option" where
  "UpdateUpstreamProxy run c m =
     (case apply_to_all run c (upstream_targets m) m of
        (m1, Some e) \<Rightarrow> (m1, Some e)
      | (m1, None) \<Rightarrow> (m1\<lparr>mcfg := (mcfg m1)\<lparr>UpstreamSOCKS5 := UpstreamSOCKS5 c,
            UpstreamUsername := UpstreamUsername c, UpstreamPassword := UpstreamPassword c\<rparr>\<rparr>, None))"

definition RestartRotations :: "Manager \<Rightarrow> Manager" where
  "RestartRotations m = fold startCircuitRotation
     (map snd (filter (\<lambda>(code, p). Status (heap m p) = Running) (instances m))) m"

definition UpdateCircuitRotateMinutes :: "int \<Rightarrow> Manager \<Rightarrow> Manager" where
  "UpdateCircuitRotateMinutes minutes m =
     RestartRotations (m\<lparr>mcfg := (mcfg m)\<lparr>CircuitRotateMinutes := minutes\<rparr>\<rparr>)"

section \<open>Reports\<close>

record StateReport =
  S_Active :: string
  S_ProxyAddress :: string
  S_MaxRunning :: int
  S_Instances :: "Instance list"

definition InstanceOf :: "string \<Rightarrow> Manager \<Rightarrow> Instance option" where
  "InstanceOf code m = (case map_of (instances m) (normalizeCode code) of None \<Rightarrow> None
     | Some p \<Rightarrow> Some ((heap m p)\<lparr>cmd := None\<rparr>))"

definition reported :: "Manager \<Rightarrow> nat \<Rightarrow> Instance" where
  "reported m p = (let i = heap m p in
     (case (Status i, pendingReplacement i) of
        (Switching, Some r) \<Rightarrow> i\<lparr>BootstrapProgress := BootstrapProgress (heap m r),
            SelectedIP := SelectedIP (heap m r), SelectedNode := SelectedNode (heap m r)\<rparr>
      | _ \<Rightarrow> i)\<lparr>cmd := None\<rparr>)"

text \<open>State dereferences the instance of every configured country; \<open>None\<close> is the nil dereference of
  a country without one.\<close>

definition State :: "Manager \<Rightarrow> StateReport option" where
  "State m =
     (let ps = map (\<lambda>c. map_of (instances m) (normalizeCode (Code c))) (Countries (mcfg m)) in
      if None \<in> set ps then None
      else Some \<lparr>S_Active = active m, S_ProxyAddress = ProxyAddress (mcfg m), S_MaxRunning = MaxRunning (mcfg m),
              S_Instances = map (\<lambda>p. reported m (the p)) ps\<rparr>)"

definition InstanceLogPath :: "string \<Rightarrow> Manager \<Rightarrow> error + string" where
  "InstanceLogPath code0 m =
     (let code = normalizeCode code0; missing = Inl (''no Tor log is available for country '' @ quote code) in
      case map_of (instances m) code of None \<Rightarrow> missing
      | Some p \<Rightarrow> if dataDir (heap m p) = [] then missing
                  else Inr (path_join [path_dir (dataDir (heap m p)), ''logs'', ''tor.log'']))"

section \<open>Clean-up and shutdown\<close>

datatype dir_scan = Scan_missing | Scan_error error | Scan_entries "(string \<times> bool) list"

text \<open>\<open>remove\<close> is the outcome of removing a directory.  The result lists the errors.\<close>

definition stale_dirs :: "Manager \<Rightarrow> (string \<times> bool) list \<Rightarrow> string list" where
  "stale_dirs m entries = map (\<lambda>(name, _). path_join [StateDir (mcfg m), name])
     (filter (\<lambda>(name, isDir). isDir \<and> instanceDirPattern name) entries)"

definition CleanupStaleInstanceDirs :: "dir_scan \<Rightarrow> (string \<Rightarrow> error option) \<Rightarrow> Manager \<Rightarrow> Manager \<times> error list" where
  "CleanupStaleInstanceDirs scan remove m =
     (case scan of Scan_missing \<Rightarrow> (m, [])
      | Scan_error e \<Rightarrow> (m, [''scan stale Tor instance directories: '' @ e])
      | Scan_entries entries \<Rightarrow>
         (m\<lparr>dirs := filter (\<lambda>(d, _). \<not> (d \<in> set (stale_dirs m entries) \<and> remove d = None)) (dirs m)\<rparr>,
          concat (map (\<lambda>d. case remove d of None \<Rightarrow> [] | Some e \<Rightarrow> [''remove '' @ d @ '': '' @ e]) (stale_dirs m entries))))"

definition begin_shutdown :: "Manager \<Rightarrow> Manager" where
  "begin_shutdown m = m\<lparr>shuttingDown := True\<rparr>"

text \<open>One round of the shutdown loop: it asks every process that is not yet stopping to stop, and ends
  when no instance has one.\<close>

definition shutdown_round :: "Env \<Rightarrow> Manager \<Rightarrow> Manager \<times> bool" where
  "shutdown_round e m =
     (let live = filter (\<lambda>p. cmd (heap m p) \<noteq> None) (allInstances m)
      in (fold (stopInstance e) (filter (\<lambda>p. \<not> stopping (heap m p)) live) m, live = []))"

text \<open>The loop of Shutdown.  \<open>waits\<close> are the waits for the ticker that end before the context is done:
  what the other goroutines do during the wait, and what the next round learns from outside.\<close>

fun shutdown_rounds :: "error \<Rightarrow> Env \<Rightarrow> ((Manager \<Rightarrow> Manager) \<times> Env) list \<Rightarrow> Manager \<Rightarrow> Manager \<times> error option" where
  "shutdown_rounds ctxErr e [] m = (let (m1, finished) = shutdown_round e m
     in (m1, if finished then None else Some (''wait for Tor processes to exit: '' @ ctxErr)))"
| "shutdown_rounds ctxErr e ((others, e') # waits) m = (let (m1, finished) = shutdown_round e m
     in if finished then (m1, None) else shutdown_rounds ctxErr e' waits (others m1))"

definition Shutdown :: "error \<Rightarrow> Env \<Rightarrow> ((Manager \<Rightarrow> Manager) \<times> Env) list \<Rightarrow> Manager \<Rightarrow> Manager \<times> error option" where
  "Shutdown ctxErr e waits m = shutdown_rounds ctxErr e waits (begin_shutdown m)"

end
