(* ===== verification/Catalog_Names.thy ===== *)
theory Catalog_Names
  imports Configuration
begin

text \<open>
  The tables of \<^verbatim>\<open>src/catalog.go\<close>: continents, their order, and Chinese country names, as the
  UTF-8 bytes of the source.
\<close>

definition utf8 :: "nat list \<Rightarrow> string" where
  "utf8 bs = map char_of bs"
definition asia :: string where "asia = utf8 [0xE4, 0xBA, 0x9A, 0xE6, 0xB4, 0xB2]"
definition europe :: string where "europe = utf8 [0xE6, 0xAC, 0xA7, 0xE6, 0xB4, 0xB2]"
definition north_america :: string where "north_america = utf8 [0xE5, 0x8C, 0x97, 0xE7, 0xBE, 0x8E, 0xE6, 0xB4, 0xB2]"
definition south_america :: string where "south_america = utf8 [0xE5, 0x8D, 0x97, 0xE7, 0xBE, 0x8E, 0xE6, 0xB4, 0xB2]"
definition africa :: string where "africa = utf8 [0xE9, 0x9D, 0x9E, 0xE6, 0xB4, 0xB2]"
definition oceania :: string where "oceania = utf8 [0xE5, 0xA4, 0xA7, 0xE6, 0xB4, 0x8B, 0xE6, 0xB4, 0xB2]"
definition antarctica :: string where "antarctica = utf8 [0xE5, 0x8D, 0x97, 0xE6, 0x9E, 0x81, 0xE6, 0xB4, 0xB2]"
definition elsewhere :: string where "elsewhere = utf8 [0xE5, 0x85, 0xB6, 0xE4, 0xBB, 0x96]"

text \<open>\<^verbatim>\<open>strings.Fields\<close> on a text whose only white space are blanks.\<close>

definition fields :: "string \<Rightarrow> string list" where
  "fields s = filter (\<lambda>w. w \<noteq> []) (split_on CHR 0x20 s)"

definition add_continent :: "string \<Rightarrow> string \<Rightarrow> (string, string) gomap \<Rightarrow> (string, string) gomap" where
  "add_continent name codes continents =
     fold (\<lambda>code cs. AList.update (to_lower code) name cs) (fields codes) continents"

definition buildContinentMap :: "(string, string) gomap" where
  "buildContinentMap =
     (add_continent antarctica ''AQ BV TF HM GS''
      \<circ> add_continent oceania ''AS AU CK FJ PF GU KI MH FM NR NC NZ NU MP PW PG WS SB TK TO TV VU WF''
      \<circ> add_continent africa ''DZ AO BJ BW BF BI CV CM CF TD KM CG CD CI DJ EG GQ ER SZ ET GA GM GH GN GW KE LS LR LY MG MW ML MR MU YT MA MZ NA NE NG RE RW SH ST SN SC SL SO ZA SS SD TZ TG TN UG EH ZM ZW''
      \<circ> add_continent south_america ''AR BO BR CL CO EC FK GF GY PY PE SR UY VE''
      \<circ> add_continent north_america ''AG BS BB BZ BM CA CR CU DM DO SV GL GD GT HT HN JM MX NI PA PM KN LC VC TT US''
      \<circ> add_continent europe ''AL AD AT BY BE BA BG HR CZ DK EE FI FR DE GR HU IS IE IT LV LI LT LU MT MD MC ME NL MK NO PL PT RO RU SM RS SK SI ES SE CH UA GB VA XK''
      \<circ> add_continent asia ''AF AM AZ BH BD BT BN KH CN CY GE HK IN ID IR IQ IL JP JO KZ KW KG LA LB MO MY MV MN MM NP KP KR OM PK PS PH QA SA SG LK SY TW TJ TH TL TR TM AE UZ VN YE'') []"

definition continentFor :: "string \<Rightarrow> string" where
  "continentFor code = (case map_of buildContinentMap (normalizeCode code) of Some continent \<Rightarrow> continent
     | None \<Rightarrow> elsewhere)"

definition continentOrder :: "string \<Rightarrow> int" where
  "continentOrder name = (case map_of [(asia, 0), (europe, 1), (north_america, 2), (south_america, 3), (africa, 4), (oceania, 5), (antarctica, 6), (elsewhere, 7)] name of Some value \<Rightarrow> value
     | None \<Rightarrow> 99)"

definition chineseCountryNames :: "(string, string) gomap" where
  "chineseCountryNames =
    [(''us'', utf8 [0xE7, 0xBE, 0x8E, 0xE5, 0x9B, 0xBD]),
     (''ca'', utf8 [0xE5, 0x8A, 0xA0, 0xE6, 0x8B, 0xBF, 0xE5, 0xA4, 0xA7]),
     (''mx'', utf8 [0xE5, 0xA2, 0xA8, 0xE8, 0xA5, 0xBF, 0xE5, 0x93, 0xA5]),
     (''cr'', utf8 [0xE5, 0x93, 0xA5, 0xE6, 0x96, 0xAF, 0xE8, 0xBE, 0xBE, 0xE9, 0xBB, 0x8E, 0xE5, 0x8A, 0xA0]),
     (''pa'', utf8 [0xE5, 0xB7, 0xB4, 0xE6, 0x8B, 0xBF, 0xE9, 0xA9, 0xAC]),
     (''gt'', utf8 [0xE5, 0x8D, 0xB1, 0xE5, 0x9C, 0xB0, 0xE9, 0xA9, 0xAC, 0xE6, 0x8B, 0x89]),
     (''hn'', utf8 [0xE6, 0xB4, 0xAA, 0xE9, 0x83, 0xBD, 0xE6, 0x8B, 0x89, 0xE6, 0x96, 0xAF]),
     (''sv'', utf8 [0xE8, 0x90, 0xA8, 0xE5, 0xB0, 0x94, 0xE7, 0x93, 0xA6, 0xE5, 0xA4, 0x9A]),
     (''do'', utf8 [0xE5, 0xA4, 0x9A, 0xE7, 0xB1, 0xB3, 0xE5, 0xB0, 0xBC, 0xE5, 0x8A, 0xA0]),
     (''br'', utf8 [0xE5, 0xB7, 0xB4, 0xE8, 0xA5, 0xBF]),
     (''ar'', utf8 [0xE9, 0x98, 0xBF, 0xE6, 0xA0, 0xB9, 0xE5, 0xBB, 0xB7]),
     (''cl'', utf8 [0xE6, 0x99, 0xBA, 0xE5, 0x88, 0xA9]),
     (''co'', utf8 [0xE5, 0x93, 0xA5, 0xE4, 0xBC, 0xA6, 0xE6, 0xAF, 0x94, 0xE4, 0xBA, 0x9A]),
     (''pe'', utf8 [0xE7, 0xA7, 0x98, 0xE9, 0xB2, 0x81]),
     (''uy'', utf8 [0xE4, 0xB9, 0x8C, 0xE6, 0x8B, 0x89, 0xE5, 0x9C, 0xAD]),
     (''py'', utf8 [0xE5, 0xB7, 0xB4, 0xE6, 0x8B, 0x89, 0xE5, 0x9C, 0xAD]),
     (''ec'', utf8 [0xE5, 0x8E, 0x84, 0xE7, 0x93, 0x9C, 0xE5, 0xA4, 0x9A, 0xE5, 0xB0, 0x94]),
     (''ve'', utf8 [0xE5, 0xA7, 0x94, 0xE5, 0x86, 0x85, 0xE7, 0x91, 0x9E, 0xE6, 0x8B, 0x89]),
     (''gb'', utf8 [0xE8, 0x8B, 0xB1, 0xE5, 0x9B, 0xBD]),
     (''de'', utf8 [0xE5, 0xBE, 0xB7, 0xE5, 0x9B, 0xBD]),
     (''fr'', utf8 [0xE6, 0xB3, 0x95, 0xE5, 0x9B, 0xBD]),
     (''nl'', utf8 [0xE8, 0x8D, 0xB7, 0xE5, 0x85, 0xB0]),
     (''se'', utf8 [0xE7, 0x91, 0x9E, 0xE5, 0x85, 0xB8]),
     (''no'', utf8 [0xE6, 0x8C, 0xAA, 0xE5, 0xA8, 0x81]),
     (''fi'', utf8 [0xE8, 0x8A, 0xAC, 0xE5, 0x85, 0xB0]),
     (''dk'', utf8 [0xE4, 0xB8, 0xB9, 0xE9, 0xBA, 0xA6]),
     (''is'', utf8 [0xE5, 0x86, 0xB0, 0xE5, 0xB2, 0x9B]),
     (''ie'', utf8 [0xE7, 0x88, 0xB1, 0xE5, 0xB0, 0x94, 0xE5, 0x85, 0xB0]),
     (''be'', utf8 [0xE6, 0xAF, 0x94, 0xE5, 0x88, 0xA9, 0xE6, 0x97, 0xB6]),
     (''lu'', utf8 [0xE5, 0x8D, 0xA2, 0xE6, 0xA3, 0xAE, 0xE5, 0xA0, 0xA1]),
     (''ch'', utf8 [0xE7, 0x91, 0x9E, 0xE5, 0xA3, 0xAB]),
     (''at'', utf8 [0xE5, 0xA5, 0xA5, 0xE5, 0x9C, 0xB0, 0xE5, 0x88, 0xA9]),
     (''es'', utf8 [0xE8, 0xA5, 0xBF, 0xE7, 0x8F, 0xAD, 0xE7, 0x89, 0x99]),
     (''pt'', utf8 [0xE8, 0x91, 0xA1, 0xE8, 0x90, 0x84, 0xE7, 0x89, 0x99]),
     (''it'', utf8 [0xE6, 0x84, 0x8F, 0xE5, 0xA4, 0xA7, 0xE5, 0x88, 0xA9]),
     (''pl'', utf8 [0xE6, 0xB3, 0xA2, 0xE5, 0x85, 0xB0]),
     (''cz'', utf8 [0xE6, 0x8D, 0xB7, 0xE5, 0x85, 0x8B]),
     (''sk'', utf8 [0xE6, 0x96, 0xAF, 0xE6, 0xB4, 0x9B, 0xE4, 0xBC, 0x90, 0xE5, 0x85, 0x8B]),
     (''hu'', utf8 [0xE5, 0x8C, 0x88, 0xE7, 0x89, 0x99, 0xE5, 0x88, 0xA9]),
     (''ro'', utf8 [0xE7, 0xBD, 0x97, 0xE9, 0xA9, 0xAC, 0xE5, 0xB0, 0xBC, 0xE4, 0xBA, 0x9A]),
     (''bg'', utf8 [0xE4, 0xBF, 0x9D, 0xE5, 0x8A, 0xA0, 0xE5, 0x88, 0xA9, 0xE4, 0xBA, 0x9A]),
     (''gr'', utf8 [0xE5, 0xB8, 0x8C, 0xE8, 0x85, 0x8A]),
     (''hr'', utf8 [0xE5, 0x85, 0x8B, 0xE7, 0xBD, 0x97, 0xE5, 0x9C, 0xB0, 0xE4, 0xBA, 0x9A]),
     (''si'', utf8 [0xE6, 0x96, 0xAF, 0xE6, 0xB4, 0x9B, 0xE6, 0x96, 0x87, 0xE5, 0xB0, 0xBC, 0xE4, 0xBA, 0x9A]),
     (''rs'', utf8 [0xE5, 0xA1, 0x9E, 0xE5, 0xB0, 0x94, 0xE7, 0xBB, 0xB4, 0xE4, 0xBA, 0x9A]),
     (''ba'', utf8 [0xE6, 0xB3, 0xA2, 0xE9, 0xBB, 0x91]),
     (''me'', utf8 [0xE9, 0xBB, 0x91, 0xE5, 0xB1, 0xB1]),
     (''mk'', utf8 [0xE5, 0x8C, 0x97, 0xE9, 0xA9, 0xAC, 0xE5, 0x85, 0xB6, 0xE9, 0xA1, 0xBF]),
     (''al'', utf8 [0xE9, 0x98, 0xBF, 0xE5, 0xB0, 0x94, 0xE5, 0xB7, 0xB4, 0xE5, 0xB0, 0xBC, 0xE4, 0xBA, 0x9A]),
     (''ee'', utf8 [0xE7, 0x88, 0xB1, 0xE6, 0xB2, 0x99, 0xE5, 0xB0, 0xBC, 0xE4, 0xBA, 0x9A]),
     (''lv'', utf8 [0xE6, 0x8B, 0x89, 0xE8, 0x84, 0xB1, 0xE7, 0xBB, 0xB4, 0xE4, 0xBA, 0x9A]),
     (''lt'', utf8 [0xE7, 0xAB, 0x8B, 0xE9, 0x99, 0xB6, 0xE5, 0xAE, 0x9B]),
     (''ua'', utf8 [0xE4, 0xB9, 0x8C, 0xE5, 0x85, 0x8B, 0xE5, 0x85, 0xB0]),
     (''md'', utf8 [0xE6, 0x91, 0xA9, 0xE5, 0xB0, 0x94, 0xE5, 0xA4, 0x9A, 0xE7, 0x93, 0xA6]),
     (''by'', utf8 [0xE7, 0x99, 0xBD, 0xE4, 0xBF, 0x84, 0xE7, 0xBD, 0x97, 0xE6, 0x96, 0xAF]),
     (''ru'', utf8 [0xE4, 0xBF, 0x84, 0xE7, 0xBD, 0x97, 0xE6, 0x96, 0xAF]),
     (''cn'', utf8 [0xE4, 0xB8, 0xAD, 0xE5, 0x9B, 0xBD]),
     (''jp'', utf8 [0xE6, 0x97, 0xA5, 0xE6, 0x9C, 0xAC]),
     (''sg'', utf8 [0xE6, 0x96, 0xB0, 0xE5, 0x8A, 0xA0, 0xE5, 0x9D, 0xA1]),
     (''in'', utf8 [0xE5, 0x8D, 0xB0, 0xE5, 0xBA, 0xA6]),
     (''id'', utf8 [0xE5, 0x8D, 0xB0, 0xE5, 0xBA, 0xA6, 0xE5, 0xB0, 0xBC, 0xE8, 0xA5, 0xBF, 0xE4, 0xBA, 0x9A]),
     (''my'', utf8 [0xE9, 0xA9, 0xAC, 0xE6, 0x9D, 0xA5, 0xE8, 0xA5, 0xBF, 0xE4, 0xBA, 0x9A]),
     (''th'', utf8 [0xE6, 0xB3, 0xB0, 0xE5, 0x9B, 0xBD]),
     (''ph'', utf8 [0xE8, 0x8F, 0xB2, 0xE5, 0xBE, 0x8B, 0xE5, 0xAE, 0xBE]),
     (''kr'', utf8 [0xE9, 0x9F, 0xA9, 0xE5, 0x9B, 0xBD]),
     (''hk'', utf8 [0xE4, 0xB8, 0xAD, 0xE5, 0x9B, 0xBD, 0xE9, 0xA6, 0x99, 0xE6, 0xB8, 0xAF]),
     (''tw'', utf8 [0xE4, 0xB8, 0xAD, 0xE5, 0x9B, 0xBD, 0xE5, 0x8F, 0xB0, 0xE6, 0xB9, 0xBE]),
     (''vn'', utf8 [0xE8, 0xB6, 0x8A, 0xE5, 0x8D, 0x97]),
     (''il'', utf8 [0xE4, 0xBB, 0xA5, 0xE8, 0x89, 0xB2, 0xE5, 0x88, 0x97]),
     (''tr'', utf8 [0xE5, 0x9C, 0x9F, 0xE8, 0x80, 0xB3, 0xE5, 0x85, 0xB6]),
     (''cy'', utf8 [0xE5, 0xA1, 0x9E, 0xE6, 0xB5, 0xA6, 0xE8, 0xB7, 0xAF, 0xE6, 0x96, 0xAF]),
     (''ae'', utf8 [0xE9, 0x98, 0xBF, 0xE8, 0x81, 0x94, 0xE9, 0x85, 0x8B]),
     (''kz'', utf8 [0xE5, 0x93, 0x88, 0xE8, 0x90, 0xA8, 0xE5, 0x85, 0x8B, 0xE6, 0x96, 0xAF, 0xE5, 0x9D, 0xA6]),
     (''ge'', utf8 [0xE6, 0xA0, 0xBC, 0xE9, 0xB2, 0x81, 0xE5, 0x90, 0x89, 0xE4, 0xBA, 0x9A]),
     (''am'', utf8 [0xE4, 0xBA, 0x9A, 0xE7, 0xBE, 0x8E, 0xE5, 0xB0, 0xBC, 0xE4, 0xBA, 0x9A]),
     (''az'', utf8 [0xE9, 0x98, 0xBF, 0xE5, 0xA1, 0x9E, 0xE6, 0x8B, 0x9C, 0xE7, 0x96, 0x86]),
     (''au'', utf8 [0xE6, 0xBE, 0xB3, 0xE5, 0xA4, 0xA7, 0xE5, 0x88, 0xA9, 0xE4, 0xBA, 0x9A]),
     (''nz'', utf8 [0xE6, 0x96, 0xB0, 0xE8, 0xA5, 0xBF, 0xE5, 0x85, 0xB0]),
     (''za'', utf8 [0xE5, 0x8D, 0x97, 0xE9, 0x9D, 0x9E]),
     (''ma'', utf8 [0xE6, 0x91, 0xA9, 0xE6, 0xB4, 0x9B, 0xE5, 0x93, 0xA5]),
     (''tn'', utf8 [0xE7, 0xAA, 0x81, 0xE5, 0xB0, 0xBC, 0xE6, 0x96, 0xAF]),
     (''eg'', utf8 [0xE5, 0x9F, 0x83, 0xE5, 0x8F, 0x8A]),
     (''ng'', utf8 [0xE5, 0xB0, 0xBC, 0xE6, 0x97, 0xA5, 0xE5, 0x88, 0xA9, 0xE4, 0xBA, 0x9A]),
     (''ke'', utf8 [0xE8, 0x82, 0xAF, 0xE5, 0xB0, 0xBC, 0xE4, 0xBA, 0x9A]),
     (''gh'', utf8 [0xE5, 0x8A, 0xA0, 0xE7, 0xBA, 0xB3]),
     (''sc'', utf8 [0xE5, 0xA1, 0x9E, 0xE8, 0x88, 0x8C, 0xE5, 0xB0, 0x94])]"

definition countryDisplayName :: "string \<Rightarrow> string \<Rightarrow> string" where
  "countryDisplayName code fallback =
     (case map_of chineseCountryNames (normalizeCode code) of Some name \<Rightarrow> name
      | None \<Rightarrow> if fallback \<noteq> [] then fallback else to_upper code)"

end
