(* ===== verification/Catalog.thy ===== *)
theory Catalog
  imports Catalog_Names Manager_State Socks
begin

text \<open>
  The catalogue of Tor exits (\<^verbatim>\<open>src/catalog.go\<close>): fetching the directory, choosing addresses, the
  order of the nodes, the choice of a node for a list of countries, and the latency checks.

  The goroutines of the latency checks are part of the state: those that wait for a slot of the
  semaphore and those that hold one.  The HTTP client is the upstream it dials through.
\<close>

section \<open>State\<close>

record HttpClient =
  viaSOCKS5 :: "(string \<times> string \<times> string) option"
  clientTimeout :: duration

record ExitCountry =
  EC_Code :: string
  EC_Name :: string
  EC_Continent :: string
  EC_NodeCount :: int

record ExitCatalog =
  C_cfg :: Config
  C_client :: HttpClient
  C_nodes :: "(string, ExitNode) gomap"
  C_fetchedAt :: time
  C_lastError :: error
  C_waiting :: "(string \<times> string) list"
  C_measuring :: "((string \<times> string) \<times> Config option) list"

record CatalogStatus =
  CS_LastUpdated :: time
  CS_LastError :: error
  CS_NodeCount :: int
  CS_Stale :: bool

definition latencySlots :: nat where "latencySlots = 10"

definition catalogClient :: "Config \<Rightarrow> HttpClient" where
  "catalogClient conf = \<lparr>viaSOCKS5 = (if UpstreamSOCKS5 conf \<noteq> []
       then Some (UpstreamSOCKS5 conf, UpstreamUsername conf, UpstreamPassword conf) else None),
     clientTimeout = 35 * second\<rparr>"

definition NewExitCatalog :: "Config \<Rightarrow> ExitCatalog" where
  "NewExitCatalog conf = \<lparr>C_cfg = conf, C_client = catalogClient conf, C_nodes = [], C_fetchedAt = 0,
     C_lastError = [], C_waiting = [], C_measuring = []\<rparr>"

definition UpdateCatalogUpstream :: "Config \<Rightarrow> ExitCatalog \<Rightarrow> ExitCatalog" where
  "UpdateCatalogUpstream conf c =
     (let conf' = (C_cfg c)\<lparr>UpstreamSOCKS5 := UpstreamSOCKS5 conf, UpstreamUsername := UpstreamUsername conf,
            UpstreamPassword := UpstreamPassword conf\<rparr>
      in c\<lparr>C_cfg := conf', C_client := catalogClient conf', C_fetchedAt := 0\<rparr>)"

section \<open>Exit policies and addresses\<close>

fun rangesContainPort :: "string list \<Rightarrow> int \<Rightarrow> bool" where
  "rangesContainPort [] port = False"
| "rangesContainPort (value # ranges) port =
     (let parts = split2 CHR ''-'' value in
      case atoi (parts ! 0) of None \<Rightarrow> rangesContainPort ranges port
      | Some start \<Rightarrow>
         (case (if length parts = 2 then atoi (parts ! 1) else Some start) of
            None \<Rightarrow> rangesContainPort ranges port
          | Some end' \<Rightarrow> if port \<ge> start \<and> port \<le> end' then True else rangesContainPort ranges port))"

definition allowsPort :: "string list \<Rightarrow> string list \<Rightarrow> int \<Rightarrow> bool" where
  "allowsPort accept reject port =
     (if length accept > 0 then rangesContainPort accept port
      else if length reject > 0 then \<not> rangesContainPort reject port else False)"

definition ipv4_of :: "string \<Rightarrow> nat list option" where
  "ipv4_of s = Option.bind (parse_ip s) to4"

fun first_exit_ip :: "string list \<Rightarrow> string option" where
  "first_exit_ip [] = None"
| "first_exit_ip (address # rest) =
     (case ipv4_of (trim_chars [CHR ''['', CHR '']''] address) of
        Some ip \<Rightarrow> Some (ipv4_text ip) | None \<Rightarrow> first_exit_ip rest)"

fun first_or_host :: "string list \<Rightarrow> (string \<times> string \<times> nat list) option" where
  "first_or_host [] = None"
| "first_or_host (address # rest) =
     (case split_host_port address of None \<Rightarrow> first_or_host rest
      | Some (host, port) \<Rightarrow>
         (case ipv4_of host of Some ip \<Rightarrow> Some (host, port, ip) | None \<Rightarrow> first_or_host rest))"

definition chooseExitIP :: "string list \<Rightarrow> string list \<Rightarrow> string" where
  "chooseExitIP exitAddresses orAddresses =
     (case first_exit_ip exitAddresses of Some ip \<Rightarrow> ip
      | None \<Rightarrow> (case first_or_host orAddresses of Some (host, port, ip) \<Rightarrow> ipv4_text ip | None \<Rightarrow> []))"

definition chooseORAddress :: "string list \<Rightarrow> string" where
  "chooseORAddress addresses =
     (case first_or_host addresses of Some (host, port, ip) \<Rightarrow> join_host_port host port | None \<Rightarrow> [])"

section \<open>Fetching the directory\<close>

record Relay =
  R_Fingerprint :: string
  R_Nickname :: string
  R_ORAddresses :: "string list"
  R_ExitAddresses :: "string list"
  R_Country :: string
  R_CountryName :: string
  R_ASN :: string
  R_ASName :: string
  R_ConsensusWeight :: int
  R_Accept :: "string list"
  R_Reject :: "string list"

text \<open>The outcome of the HTTP request: no request, no answer, an answer with its status, and for status
  200 the decoded document or the error of the decoder.\<close>

datatype fetch =
  Fetch_unbuilt error | Fetch_failed error | Fetch_status int | Fetch_undecoded error | Fetch_document "Relay list"

definition usable_relay :: "Relay \<Rightarrow> bool" where
  "usable_relay r \<longleftrightarrow> \<not> (normalizeCode (R_Country r) = [] \<or> chooseExitIP (R_ExitAddresses r) (R_ORAddresses r) = []
     \<or> \<not> countryCodePattern (normalizeCode (R_Country r)) \<or> \<not> allowsPort (R_Accept r) (R_Reject r) 443)"

definition node_of :: "Relay \<Rightarrow> ExitNode" where
  "node_of r = (let code = normalizeCode (R_Country r) in
     \<lparr>N_Fingerprint = to_upper (R_Fingerprint r), N_Nickname = R_Nickname r,
      N_IP = chooseExitIP (R_ExitAddresses r) (R_ORAddresses r), N_ORAddress = chooseORAddress (R_ORAddresses r),
      N_CountryCode = code, N_CountryName = countryDisplayName code (R_CountryName r),
      N_Continent = continentFor code, N_ASN = R_ASN r, N_ISP = R_ASName r,
      N_ConsensusWeight = R_ConsensusWeight r, N_LatencyMS = -1, N_LatencyChecked = 0\<rparr>)"

definition keep_latency :: "time \<Rightarrow> (string, ExitNode) gomap \<Rightarrow> ExitNode \<Rightarrow> ExitNode" where
  "keep_latency t old node =
     (case map_of old (N_Fingerprint node) of None \<Rightarrow> node
      | Some previous \<Rightarrow> if t - N_LatencyChecked previous < 5 * minute
          then node\<lparr>N_LatencyMS := N_LatencyMS previous, N_LatencyChecked := N_LatencyChecked previous\<rparr> else node)"

fun merge_relays :: "time \<Rightarrow> (string, ExitNode) gomap \<Rightarrow> Relay list \<Rightarrow> (string, ExitNode) gomap \<Rightarrow> (string, ExitNode) gomap" where
  "merge_relays t old [] updated = updated"
| "merge_relays t old (relay # relays) updated =
     (if \<not> usable_relay relay then merge_relays t old relays updated
      else let node = keep_latency t old (node_of relay)
        in merge_relays t old relays (AList.update (N_Fingerprint node) node updated))"

text \<open>The section under the lock that takes over a document; the loop's clock readings are one.\<close>

definition accept_document :: "time \<Rightarrow> Relay list \<Rightarrow> ExitCatalog \<Rightarrow> ExitCatalog" where
  "accept_document t relays c =
     c\<lparr>C_nodes := merge_relays t (C_nodes c) relays [], C_fetchedAt := t, C_lastError := []\<rparr>"

definition setError :: "error \<Rightarrow> ExitCatalog \<Rightarrow> ExitCatalog" where
  "setError err c = c\<lparr>C_lastError := err\<rparr>"

definition fresh :: "bool \<Rightarrow> time \<Rightarrow> ExitCatalog \<Rightarrow> bool" where
  "fresh force t c \<longleftrightarrow> \<not> force \<and> length (C_nodes c) > 0 \<and> t - C_fetchedAt c < 10 * minute"

text \<open>\<open>t\<close> are the clock readings before and after waiting for \<^verbatim>\<open>refreshMu\<close> and at the end; \<open>queued\<close> and
  \<open>meanwhile\<close> are what other goroutines do to the catalogue in between.\<close>

definition refresh :: "(nat \<Rightarrow> time) \<Rightarrow> (ExitCatalog \<Rightarrow> ExitCatalog) \<Rightarrow> (ExitCatalog \<Rightarrow> ExitCatalog) \<Rightarrow> (HttpClient \<Rightarrow> fetch)
    \<Rightarrow> bool \<Rightarrow> ExitCatalog \<Rightarrow> ExitCatalog \<times> error option" where
  "refresh t queued meanwhile fetch force c0 =
     (if fresh force (t 0) c0 then (c0, None)
      else let c = queued c0 in
        if fresh force (t 1) c then (c, None)
        else let answer = fetch (C_client c); c1 = meanwhile c in
          case answer of
            Fetch_unbuilt err \<Rightarrow> (c1, Some err)
          | Fetch_failed err \<Rightarrow> (setError err c1, Some (''load Tor exit directory: '' @ err))
          | Fetch_status code \<Rightarrow> let err = ''Tor exit directory returned HTTP '' @ itoa code in (setError err c1, Some err)
          | Fetch_undecoded err \<Rightarrow> (setError err c1, Some (''parse Tor exit directory: '' @ err))
          | Fetch_document relays \<Rightarrow> (accept_document (t 2) relays c1, None))"

definition Refresh :: "(nat \<Rightarrow> time) \<Rightarrow> (ExitCatalog \<Rightarrow> ExitCatalog) \<Rightarrow> (ExitCatalog \<Rightarrow> ExitCatalog) \<Rightarrow> (HttpClient \<Rightarrow> fetch)
    \<Rightarrow> ExitCatalog \<Rightarrow> ExitCatalog \<times> error option" where
  "Refresh t queued meanwhile fetch c = refresh t queued meanwhile fetch True c"

definition CatalogStatusOf :: "time \<Rightarrow> ExitCatalog \<Rightarrow> CatalogStatus" where
  "CatalogStatusOf t c = \<lparr>CS_LastUpdated = C_fetchedAt c, CS_LastError = C_lastError c,
     CS_NodeCount = int (length (C_nodes c)),
     CS_Stale = (C_fetchedAt c = 0 \<or> t - C_fetchedAt c \<ge> 10 * minute \<or> C_lastError c \<noteq> [])\<rparr>"

definition EnsureFresh :: "(nat \<Rightarrow> time) \<Rightarrow> (ExitCatalog \<Rightarrow> ExitCatalog) \<Rightarrow> (ExitCatalog \<Rightarrow> ExitCatalog) \<Rightarrow> (HttpClient \<Rightarrow> fetch)
    \<Rightarrow> ExitCatalog \<Rightarrow> ExitCatalog \<times> error option" where
  "EnsureFresh t queued meanwhile fetch c =
     (case refresh t queued meanwhile fetch False c of (c1, err) \<Rightarrow>
        if err \<noteq> None \<and> CS_NodeCount (CatalogStatusOf (t 3) c1) > 0 then (c1, None) else (c1, err))"

section \<open>The order of the nodes\<close>

definition latencyRank :: "int \<Rightarrow> int" where
  "latencyRank latency = (if latency \<ge> 0 then 0 else if latency = -1 then 1 else 2)"

definition lessExitNode :: "ExitNode \<Rightarrow> ExitNode \<Rightarrow> bool" where
  "lessExitNode left right =
     (if latencyRank (N_LatencyMS left) \<noteq> latencyRank (N_LatencyMS right)
      then latencyRank (N_LatencyMS left) < latencyRank (N_LatencyMS right)
      else if N_LatencyMS left \<ge> 0 \<and> N_LatencyMS left \<noteq> N_LatencyMS right then N_LatencyMS left < N_LatencyMS right
      else N_ConsensusWeight left > N_ConsensusWeight right)"

definition NodesForCountry :: "string \<Rightarrow> ExitCatalog \<Rightarrow> ExitNode list" where
  "NodesForCountry code c = sort_slice lessExitNode
     (filter (\<lambda>node. N_CountryCode node = normalizeCode code) (map snd (C_nodes c)))"

definition NodeOf :: "string \<Rightarrow> ExitCatalog \<Rightarrow> ExitNode option" where
  "NodeOf fingerprint c = map_of (C_nodes c) (to_upper fingerprint)"

section \<open>Countries\<close>

definition count_country :: "ExitNode \<Rightarrow> (string, ExitCountry) gomap \<Rightarrow> (string, ExitCountry) gomap" where
  "count_country node byCode =
     (let code = N_CountryCode node;
          country = (case map_of byCode code of Some x \<Rightarrow> x
             | None \<Rightarrow> \<lparr>EC_Code = [], EC_Name = [], EC_Continent = [], EC_NodeCount = 0\<rparr>)
      in AList.update code \<lparr>EC_Code = code, EC_Name = countryDisplayName code (N_CountryName node),
           EC_Continent = N_Continent node, EC_NodeCount = EC_NodeCount country + 1\<rparr> byCode)"

definition less_country :: "ExitCountry \<Rightarrow> ExitCountry \<Rightarrow> bool" where
  "less_country a b =
     (let left = continentOrder (EC_Continent a); right = continentOrder (EC_Continent b)
      in if left \<noteq> right then left < right else string_less (EC_Name a) (EC_Name b))"

definition CatalogCountries :: "ExitCatalog \<Rightarrow> ExitCountry list" where
  "CatalogCountries c = sort_slice less_country (map snd (fold count_country (map snd (C_nodes c)) []))"

section \<open>Latency checks\<close>

definition check_due :: "time \<Rightarrow> ExitNode \<Rightarrow> bool" where
  "check_due t node \<longleftrightarrow> \<not> (N_LatencyChecked node \<noteq> 0 \<and> t - N_LatencyChecked node < 5 * minute)"

definition startLatencyChecks :: "time \<Rightarrow> string \<Rightarrow> int \<Rightarrow> ExitCatalog \<Rightarrow> ExitCatalog" where
  "startLatencyChecks t code limit c =
     (let nodes0 = NodesForCountry code c;
          nodes = (if limit > 0 \<and> int (length nodes0) > limit then take (nat limit) nodes0 else nodes0)
      in c\<lparr>C_waiting := C_waiting c @ map (\<lambda>node. (N_Fingerprint node, N_ORAddress node)) (filter (check_due t) nodes)\<rparr>)"

definition StartLatencyChecks :: "time \<Rightarrow> string \<Rightarrow> ExitCatalog \<Rightarrow> ExitCatalog" where
  "StartLatencyChecks t code c = startLatencyChecks t code 0 c"

text \<open>A waiting goroutine takes a slot of the semaphore when one is free.  Then it reads the configuration of the
  upstream, in a section of its own, before it dials.\<close>

definition take_slot :: "string \<times> string \<Rightarrow> ExitCatalog \<Rightarrow> ExitCatalog" where
  "take_slot check c =
     (if check \<in> set (C_waiting c) \<and> length (C_measuring c) < latencySlots
      then c\<lparr>C_waiting := remove1 check (C_waiting c), C_measuring := (check, None) # C_measuring c\<rparr> else c)"

definition read_upstream :: "string \<times> string \<Rightarrow> ExitCatalog \<Rightarrow> ExitCatalog" where
  "read_upstream check c =
     (if (check, None) \<in> set (C_measuring c)
      then c\<lparr>C_measuring := (check, Some (C_cfg c)) # remove1 (check, None) (C_measuring c)\<rparr> else c)"

text \<open>\<open>dial address timeout\<close> is the outcome of a TCP dial, \<open>elapsed\<close> the time it took.\<close>

definition measureTCPLatency :: "(string \<Rightarrow> error) \<Rightarrow> (string \<Rightarrow> duration \<Rightarrow> error + Conn) \<Rightarrow> duration \<Rightarrow> Config
    \<Rightarrow> string \<Rightarrow> int" where
  "measureTCPLatency splitError dial elapsed conf address =
     (if address = [] then -2
      else let err = (if UpstreamSOCKS5 conf \<noteq> []
             then snd (dialViaUpstreamSOCKS5 splitError (dial (UpstreamSOCKS5 conf)) address
                    (UpstreamUsername conf) (UpstreamPassword conf))
             else (case dial address (4 * second) of Inl e \<Rightarrow> Some e | Inr _ \<Rightarrow> None))
        in if err \<noteq> None then -2
           else if elapsed div millisecond < 1 then 1 else elapsed div millisecond)"

definition finish_check :: "(string \<Rightarrow> error) \<Rightarrow> (string \<Rightarrow> duration \<Rightarrow> error + Conn) \<Rightarrow> duration \<Rightarrow> time
    \<Rightarrow> (string \<times> string) \<times> Config \<Rightarrow> ExitCatalog \<Rightarrow> ExitCatalog" where
  "finish_check splitError dial elapsed t check c =
     (case check of ((fingerprint, address), conf) \<Rightarrow>
        let measured = ((fingerprint, address), Some conf) in
        if measured \<notin> set (C_measuring c) then c
        else let latency = measureTCPLatency splitError dial elapsed conf address;
                 c1 = c\<lparr>C_measuring := remove1 measured (C_measuring c)\<rparr>
          in case map_of (C_nodes c1) fingerprint of None \<Rightarrow> c1
             | Some current \<Rightarrow> c1\<lparr>C_nodes := AList.update fingerprint
                 (current\<lparr>N_LatencyMS := latency, N_LatencyChecked := t\<rparr>) (C_nodes c1)\<rparr>)"

section \<open>Choosing a node\<close>

definition eligible :: "bool \<Rightarrow> ExitNode \<Rightarrow> bool" where
  "eligible requireMeasured node \<longleftrightarrow> \<not> requireMeasured \<or> N_LatencyMS node \<ge> 0"

fun best_loop :: "ExitCatalog \<Rightarrow> string \<Rightarrow> bool \<Rightarrow> string list \<Rightarrow> ExitNode list \<Rightarrow> ExitNode option" where
  "best_loop c policy requireMeasured [] candidates =
     (if candidates = [] then None else Some (hd (sort_slice lessExitNode candidates)))"
| "best_loop c policy requireMeasured (code # codes) candidates =
     (let nodes = NodesForCountry code c; chosen = filter (eligible requireMeasured) nodes
      in if policy = ''failover'' \<and> nodes \<noteq> [] \<and> chosen \<noteq> [] then Some (hd chosen)
         else if policy = ''failover'' \<and> nodes \<noteq> [] \<and> \<not> requireMeasured then Some (hd nodes)
         else best_loop c policy requireMeasured codes (candidates @ chosen))"

definition bestCandidate :: "string list \<Rightarrow> string \<Rightarrow> bool \<Rightarrow> ExitCatalog \<Rightarrow> ExitNode option" where
  "bestCandidate countries policy requireMeasured c = best_loop c policy requireMeasured countries []"

fun normalize_countries :: "string list \<Rightarrow> string list \<Rightarrow> error + string list" where
  "normalize_countries [] normalized = Inr normalized"
| "normalize_countries (country # countries) normalized =
     (let code = normalizeCode country in
      if \<not> countryCodePattern code then Inl (''invalid country code '' @ quote country)
      else normalize_countries countries (if code \<in> set normalized then normalized else normalized @ [code]))"

text \<open>\<open>others\<close> is what the goroutines do to the catalogue in the two seconds of the timer, \<open>cancelled\<close> the
  error of a context that is done before.  The choice after the timer looks at one state of the catalogue: the
  source takes the lock anew for each country of each pass, so a check that ends between two of them may be
  seen by the later one only.\<close>

definition SelectNode :: "time \<Rightarrow> (ExitCatalog \<Rightarrow> ExitCatalog) \<Rightarrow> error option \<Rightarrow> string list \<Rightarrow> string
    \<Rightarrow> ExitCatalog \<Rightarrow> ExitCatalog \<times> (error + ExitNode)" where
  "SelectNode t others ctxErr countries policy0 c =
     (if countries = [] then (c, Inl ''at least one country is required'')
      else case normalize_countries countries [] of Inl err \<Rightarrow> (c, Inl err)
      | Inr normalized \<Rightarrow>
        if length normalized > 20 then (c, Inl ''no more than 20 candidate countries are allowed'')
        else let policy = (if policy0 = [] then ''lowest_latency'' else policy0) in
          if policy \<noteq> ''lowest_latency'' \<and> policy \<noteq> ''failover'' then (c, Inl ''policy must be lowest_latency or failover'')
          else let c1 = others (fold (\<lambda>code. startLatencyChecks t code 10) normalized c) in
            case ctxErr of Some err \<Rightarrow> (c1, Inl err)
            | None \<Rightarrow>
             (case bestCandidate normalized policy True c1 of Some node \<Rightarrow> (c1, Inr node)
              | None \<Rightarrow>
               (case bestCandidate normalized policy False c1 of Some node \<Rightarrow> (c1, Inr node)
                | None \<Rightarrow> (c1, Inl ''none of the requested countries currently has a usable Tor exit node''))))"

end
