(* ===== verification/Health.thy ===== *)
theory Health
  imports Manager_Reports Catalog
begin

text \<open>
  The health monitor (\<^verbatim>\<open>src/health.go\<close>): probing the running routes, counting failures, switching a
  failing country to another node, and the public report.  The monitor shares the manager and the
  catalogue, so its operations work on the three together.
\<close>

section \<open>State\<close>

definition routeHealthInterval :: duration where "routeHealthInterval = 60 * second"
definition routeHealthFailures :: int where "routeHealthFailures = 3"
definition routeHealthSwitchDelay :: duration where "routeHealthSwitchDelay = 10 * minute"

record routeHealthRecord =
  H_LatencyMS :: int
  H_ObservedExitIP :: string
  H_LastChecked :: time
  H_LastSuccess :: time
  H_ConsecutiveFailures :: int
  H_LastError :: error
  H_LastSwitchAt :: time
  H_LastSwitchNode :: string
  H_LastSwitchError :: error
  H_AutomaticSwitchAttempts :: int

record RouteHealthMonitor =
  records :: "(string, routeHealthRecord) gomap"
  globalFailure :: bool
  interval :: duration
  failures :: int
  cooldown :: duration

record routeProbeResult =
  PR_instance :: Instance
  PR_active :: bool
  PR_exitIP :: string
  PR_latency :: duration
  PR_err :: "error option"

record Routes =
  W_monitor :: RouteHealthMonitor
  W_manager :: Manager
  W_catalog :: ExitCatalog

definition zero_record :: routeHealthRecord where
  "zero_record = \<lparr>H_LatencyMS = 0, H_ObservedExitIP = [], H_LastChecked = 0, H_LastSuccess = 0,
     H_ConsecutiveFailures = 0, H_LastError = [], H_LastSwitchAt = 0, H_LastSwitchNode = [],
     H_LastSwitchError = [], H_AutomaticSwitchAttempts = 0\<rparr>"

definition NewRouteHealthMonitor :: RouteHealthMonitor where
  "NewRouteHealthMonitor = \<lparr>records = [], globalFailure = False, interval = routeHealthInterval,
     failures = routeHealthFailures, cooldown = routeHealthSwitchDelay\<rparr>"

text \<open>\<^verbatim>\<open>m.records[code]\<close>: the zero record when there is none.\<close>

definition record_of :: "string \<Rightarrow> RouteHealthMonitor \<Rightarrow> routeHealthRecord" where
  "record_of code mon = (case map_of (records mon) code of Some r \<Rightarrow> r | None \<Rightarrow> zero_record)"

definition set_record :: "string \<Rightarrow> (routeHealthRecord \<Rightarrow> routeHealthRecord) \<Rightarrow> Routes \<Rightarrow> Routes" where
  "set_record code f w = w\<lparr>W_monitor := (W_monitor w)\<lparr>records :=
     AList.update code (f (record_of code (W_monitor w))) (records (W_monitor w))\<rparr>\<rparr>"

section \<open>Probes\<close>

text \<open>\<open>Answer status body\<close> is an HTTP answer; a body that does not decode is \<open>Inl\<close> of the decoder's error.\<close>

datatype 'b answer = NoAnswer error | Answer int "error + 'b"

definition probeTorProject :: "(string \<times> bool) answer \<Rightarrow> error + string" where
  "probeTorProject response =
     (case response of NoAnswer err \<Rightarrow> Inl err
      | Answer status body \<Rightarrow>
         if status \<noteq> 200 then Inl (''Tor check returned HTTP '' @ itoa status)
         else case body of Inl err \<Rightarrow> Inl err
         | Inr (ip, isTor) \<Rightarrow>
            if \<not> isTor \<or> parse_ip ip = None then Inl ''Tor check did not confirm the route'' else Inr ip)"

definition probeIPify :: "string answer \<Rightarrow> error + string" where
  "probeIPify response =
     (case response of NoAnswer err \<Rightarrow> Inl err
      | Answer status body \<Rightarrow>
         if status \<noteq> 200 then Inl (''fallback check returned HTTP '' @ itoa status)
         else case body of Inl err \<Rightarrow> Inl err
         | Inr ip \<Rightarrow> if parse_ip ip = None then Inl ''fallback check returned an invalid IP'' else Inr ip)"

definition probeTorRoute :: "(string \<times> bool) answer \<times> duration \<Rightarrow> string answer \<times> duration \<Rightarrow> string \<times> duration \<times> error option" where
  "probeTorRoute primary fallback =
     (case probeTorProject (fst primary) of Inr ip \<Rightarrow> (ip, snd primary, None)
      | Inl _ \<Rightarrow>
         (case probeIPify (fst fallback) of Inl err \<Rightarrow> ([], snd fallback, Some (''Tor route check failed: '' @ err))
          | Inr ip \<Rightarrow> (ip, snd fallback, None)))"

text \<open>\<open>m\<close> is the manager after the probe, which can have changed meanwhile.\<close>

definition probeInstance :: "string \<times> duration \<times> error option \<Rightarrow> Instance \<Rightarrow> bool \<Rightarrow> Manager \<Rightarrow> routeProbeResult option" where
  "probeInstance outcome i act m =
     (case InstanceOf (Code (ICountry i)) m of None \<Rightarrow> None
      | Some current \<Rightarrow>
         if Status current \<noteq> Running \<or> SocksPort current \<noteq> SocksPort i \<or> ExitFingerprint current \<noteq> ExitFingerprint i
         then None
         else case outcome of (exitIP, latency, err) \<Rightarrow>
           Some \<lparr>PR_instance = i, PR_active = act, PR_exitIP = exitIP, PR_latency = latency, PR_err = err\<rparr>)"

section \<open>Applying a result\<close>

text \<open>\<^verbatim>\<open>Duration.Round(time.Millisecond) / time.Millisecond\<close> of a duration that is not negative.\<close>

definition round_ms :: "duration \<Rightarrow> int" where
  "round_ms d = (d + millisecond div 2) div millisecond"

definition record_success :: "time \<Rightarrow> routeProbeResult \<Rightarrow> routeHealthRecord \<Rightarrow> routeHealthRecord" where
  "record_success t res r = r\<lparr>H_LatencyMS := round_ms (PR_latency res), H_ObservedExitIP := PR_exitIP res,
     H_LastChecked := t, H_LastSuccess := t, H_ConsecutiveFailures := 0, H_LastError := [], H_LastSwitchError := []\<rparr>"

definition record_failure :: "time \<Rightarrow> error \<Rightarrow> routeHealthRecord \<Rightarrow> routeHealthRecord" where
  "record_failure t err r = r\<lparr>H_LastChecked := t, H_ConsecutiveFailures := H_ConsecutiveFailures r + 1, H_LastError := err\<rparr>"

definition shouldSwitch :: "bool \<Rightarrow> time \<Rightarrow> RouteHealthMonitor \<Rightarrow> routeHealthRecord \<Rightarrow> bool" where
  "shouldSwitch allowSwitch t mon r \<longleftrightarrow> allowSwitch \<and> H_ConsecutiveFailures r \<ge> failures mon
     \<and> (H_LastSwitchAt r = 0 \<or> t - H_LastSwitchAt r \<ge> cooldown mon)"

definition recordSwitchError :: "string \<Rightarrow> error \<Rightarrow> Routes \<Rightarrow> Routes" where
  "recordSwitchError code message w = set_record code (\<lambda>r. r\<lparr>H_LastSwitchError := message\<rparr>) w"

definition alternate :: "Instance \<Rightarrow> ExitNode \<Rightarrow> bool" where
  "alternate i node \<longleftrightarrow> to_upper (N_Fingerprint node) \<noteq> to_upper (ExitFingerprint i) \<and> N_IP node \<noteq> SelectedIP i"

definition alternateNode :: "time \<Rightarrow> Instance \<Rightarrow> ExitCatalog \<Rightarrow> ExitCatalog \<times> ExitNode option" where
  "alternateNode t i c =
     (let c1 = StartLatencyChecks t (Code (ICountry i)) c
      in (c1, List.find (alternate i) (NodesForCountry (Code (ICountry i)) c1)))"

text \<open>What the switch of a node learns from outside: the refresh of the catalogue and the manager's
  operation.\<close>

record SwitchIO =
  SW_times :: "nat \<Rightarrow> time"
  SW_queued :: "ExitCatalog \<Rightarrow> ExitCatalog"
  SW_meanwhile :: "ExitCatalog \<Rightarrow> ExitCatalog"
  SW_fetch :: "HttpClient \<Rightarrow> fetch"
  SW_env :: "nat \<Rightarrow> Env"

definition switchNode :: "(nat \<Rightarrow> Env) \<Rightarrow> ExitNode \<Rightarrow> bool \<Rightarrow> Manager \<Rightarrow> Manager \<times> error option" where
  "switchNode e node activate m = (if activate then ActivateNode e node m else StartNode e node m)"

text \<open>The node a due switch goes to, or the reason why there is none.\<close>

definition switch_target :: "SwitchIO \<Rightarrow> Instance \<Rightarrow> ExitCatalog \<Rightarrow> ExitCatalog \<times> (error + ExitNode)" where
  "switch_target io i c =
     (case EnsureFresh (SW_times io) (SW_queued io) (SW_meanwhile io) (SW_fetch io) c of
        (c1, Some err) \<Rightarrow> (c1, Inl (''refresh exit catalog: '' @ err))
      | (c1, None) \<Rightarrow>
         (case alternateNode (SW_times io 4) i c1 of
            (c2, None) \<Rightarrow> (c2, Inl ''no alternate exit node is available in the same country'')
          | (c2, Some node) \<Rightarrow> (c2, Inr node)))"

definition applyProbeResult :: "time \<Rightarrow> SwitchIO \<Rightarrow> bool \<Rightarrow> routeProbeResult \<Rightarrow> Routes \<Rightarrow> Routes" where
  "applyProbeResult t io allowSwitch res w =
     (let i = PR_instance res; code = Code (ICountry i) in
      case PR_err res of
        None \<Rightarrow> set_record code (record_success t res) w
      | Some err \<Rightarrow>
         let w1 = set_record code (record_failure t err) w in
         if \<not> shouldSwitch allowSwitch t (W_monitor w1) (record_of code (W_monitor w1)) then w1
         else case switch_target io i (W_catalog w1) of
           (c, Inl message) \<Rightarrow> recordSwitchError code message (w1\<lparr>W_catalog := c\<rparr>)
         | (c, Inr node) \<Rightarrow>
            let w2 = set_record code (\<lambda>r. r\<lparr>H_LastSwitchAt := t, H_LastSwitchNode := N_IP node, H_LastSwitchError := []\<rparr>)
                  (w1\<lparr>W_catalog := c\<rparr>) in
            case switchNode (SW_env io) node (PR_active res) (W_manager w2) of
              (m, Some message) \<Rightarrow> recordSwitchError code message (w2\<lparr>W_manager := m\<rparr>)
            | (m, None) \<Rightarrow> set_record code (\<lambda>r. r\<lparr>H_ConsecutiveFailures := 0,
                  H_AutomaticSwitchAttempts := H_AutomaticSwitchAttempts r + 1\<rparr>) (w2\<lparr>W_manager := m\<rparr>))"

definition checkInstance :: "string \<times> duration \<times> error option \<Rightarrow> time \<Rightarrow> SwitchIO \<Rightarrow> Instance \<Rightarrow> bool \<Rightarrow> Routes \<Rightarrow> Routes" where
  "checkInstance outcome t io i act w =
     (case probeInstance outcome i act (W_manager w) of None \<Rightarrow> w | Some res \<Rightarrow> applyProbeResult t io True res w)"

section \<open>A round\<close>

fun apply_results :: "(nat \<Rightarrow> time) \<Rightarrow> (nat \<Rightarrow> SwitchIO) \<Rightarrow> bool \<Rightarrow> routeProbeResult list \<Rightarrow> Routes \<Rightarrow> Routes" where
  "apply_results t io allowSwitch [] w = w"
| "apply_results t io allowSwitch (res # results) w =
     apply_results (\<lambda>k. t (Suc k)) (\<lambda>k. io (Suc k)) allowSwitch results (applyProbeResult (t 0) (io 0) allowSwitch res w)"

definition collect :: "(Instance \<Rightarrow> string \<times> duration \<times> error option) \<Rightarrow> StateReport \<Rightarrow> Manager \<Rightarrow> routeProbeResult list" where
  "collect probe state m = List.map_filter
     (\<lambda>i. probeInstance (probe i) i (S_Active state = Code (ICountry i)) m)
     (filter (\<lambda>i. Status i = Running) (S_Instances state))"

text \<open>\<open>meanwhile\<close> is what the manager's other users do while the routes are probed, \<open>arrive\<close> the order
  in which the results come out of the channel.\<close>

definition runOnce :: "(Instance \<Rightarrow> string \<times> duration \<times> error option) \<Rightarrow> (Manager \<Rightarrow> Manager)
    \<Rightarrow> (routeProbeResult list \<Rightarrow> routeProbeResult list) \<Rightarrow> (nat \<Rightarrow> time) \<Rightarrow> (nat \<Rightarrow> SwitchIO) \<Rightarrow> Routes \<Rightarrow> Routes option" where
  "runOnce probe meanwhile arrive t io w =
     (case State (W_manager w) of None \<Rightarrow> None
      | Some state \<Rightarrow>
         let m = meanwhile (W_manager w);
             collected = arrive (collect probe state m);
             successes = length (filter (\<lambda>res. PR_err res = None) collected);
             global = (length collected > 1 \<and> successes = 0)
         in Some (apply_results t io (\<not> global) collected
              (w\<lparr>W_manager := m, W_monitor := (W_monitor w)\<lparr>globalFailure := global\<rparr>\<rparr>)))"

section \<open>The report\<close>

datatype health_status = Idle | Ok | Degraded

record HealthCountry =
  HC_Country :: Country
  HC_Status :: status
  HC_Active :: bool
  HC_ExitIP :: string
  HC_ObservedExitIP :: string
  HC_SelectedIP :: string
  HC_SelectedNode :: string
  HC_ExitFingerprint :: string
  HC_LatencyMS :: int
  HC_NodeTCPLatencyMS :: int
  HC_ActiveConnections :: int
  HC_DrainingConnections :: int
  HC_LastChecked :: time
  HC_LastSuccess :: time
  HC_ConsecutiveFailures :: int
  HC_LastError :: error
  HC_LastSwitchAt :: time
  HC_LastSwitchNode :: string
  HC_LastSwitchError :: error
  HC_AutomaticSwitchAttempts :: int

record HealthReport =
  HR_Status :: health_status
  HR_CheckedAt :: time
  HR_GlobalFailure :: bool
  HR_Active :: string
  HR_ProxyAddress :: string
  HR_OnlineCountries :: int
  HR_FailedCountries :: int
  HR_CheckIntervalSeconds :: int
  HR_FailureThreshold :: int
  HR_SwitchCooldownSeconds :: int
  HR_Countries :: "HealthCountry list"

definition health_country :: "Routes \<Rightarrow> string \<Rightarrow> Instance \<Rightarrow> HealthCountry" where
  "health_country w act i = (let r = record_of (Code (ICountry i)) (W_monitor w) in
     \<lparr>HC_Country = ICountry i, HC_Status = Status i, HC_Active = (act = Code (ICountry i)), HC_ExitIP = ExitIP i,
      HC_ObservedExitIP = H_ObservedExitIP r, HC_SelectedIP = SelectedIP i, HC_SelectedNode = SelectedNode i,
      HC_ExitFingerprint = ExitFingerprint i,
      HC_LatencyMS = (if H_LastChecked r = 0 then -1 else H_LatencyMS r),
      HC_NodeTCPLatencyMS = (case NodeOf (ExitFingerprint i) (W_catalog w) of Some node \<Rightarrow> N_LatencyMS node | None \<Rightarrow> -1),
      HC_ActiveConnections = ActiveConnections i, HC_DrainingConnections = DrainingConnections i,
      HC_LastChecked = H_LastChecked r, HC_LastSuccess = H_LastSuccess r,
      HC_ConsecutiveFailures = H_ConsecutiveFailures r,
      HC_LastError = (if H_LastError r = [] then Error i else H_LastError r),
      HC_LastSwitchAt = H_LastSwitchAt r, HC_LastSwitchNode = H_LastSwitchNode r,
      HC_LastSwitchError = H_LastSwitchError r, HC_AutomaticSwitchAttempts = H_AutomaticSwitchAttempts r\<rparr>)"

definition report_step :: "Routes \<Rightarrow> string \<Rightarrow> Instance \<Rightarrow> HealthReport \<times> bool \<Rightarrow> HealthReport \<times> bool" where
  "report_step w act i acc =
     (case acc of (rep, degraded) \<Rightarrow>
        if Status i \<noteq> Running \<and> Status i \<noteq> Switching \<and> Status i \<noteq> Errored then (rep, degraded)
        else let r = record_of (Code (ICountry i)) (W_monitor w) in
          ((if Status i = Errored then rep\<lparr>HR_FailedCountries := HR_FailedCountries rep + 1\<rparr>
            else rep\<lparr>HR_OnlineCountries := HR_OnlineCountries rep + 1\<rparr>)
             \<lparr>HR_Countries := HR_Countries rep @ [health_country w act i]\<rparr>,
           degraded \<or> Status i = Errored \<or> H_ConsecutiveFailures r > 0 \<or> H_LastSwitchError r \<noteq> []))"

definition Report :: "time \<Rightarrow> Routes \<Rightarrow> HealthReport option" where
  "Report t w =
     (case State (W_manager w) of None \<Rightarrow> None
      | Some state \<Rightarrow>
         let mon = W_monitor w;
             rep0 = \<lparr>HR_Status = Idle, HR_CheckedAt = t, HR_GlobalFailure = globalFailure mon, HR_Active = S_Active state,
               HR_ProxyAddress = S_ProxyAddress state, HR_OnlineCountries = 0, HR_FailedCountries = 0,
               HR_CheckIntervalSeconds = interval mon div second, HR_FailureThreshold = failures mon,
               HR_SwitchCooldownSeconds = cooldown mon div second, HR_Countries = []\<rparr>;
             (rep, degraded) = fold (report_step w (S_Active state)) (S_Instances state) (rep0, False);
             rep1 = (if HR_OnlineCountries rep > 0 then rep\<lparr>HR_Status := Ok\<rparr> else rep)
         in Some (if degraded then rep1\<lparr>HR_Status := Degraded\<rparr> else rep1))"

end
