(* ===== verification/Client_Routes.thy ===== *)
theory Client_Routes
  imports Manager_Reports Socks
begin

text \<open>
  The two proxies for clients (\<^verbatim>\<open>src/client_routes.go\<close> and \<^verbatim>\<open>src/proxy.go\<close>): the listeners of the
  countries, the session of a client on a country port, the proxy of the active country, and the
  description of a route for the client API.

  The context of the country proxies is \<open>countryProxyCtx\<close>: \<open>None\<close> before StartCountryProxies, then
  \<open>Some done\<close>.  A listener is known by its port.
\<close>

section \<open>Listeners\<close>

definition StartCountryProxies :: "Manager \<Rightarrow> Manager" where
  "StartCountryProxies m = m\<lparr>countryProxyCtx := Some False\<rparr>"

text \<open>The end of the context, and the goroutine that closes the listeners after it.\<close>

definition proxies_cancelled :: "Manager \<Rightarrow> Manager" where
  "proxies_cancelled m = m\<lparr>countryProxyCtx := map_option (\<lambda>_. True) (countryProxyCtx m)\<rparr>"

definition close_listeners :: "Manager \<Rightarrow> Manager" where
  "close_listeners m = m\<lparr>countryListeners := []\<rparr>"

text \<open>The two sections of EnsureCountryProxy: its checks, and the registration after the listener has been opened.
  Between them it listens, without the lock; \<open>beingOpened\<close> has the calls that are there.  The registration does not
  look at the context again.\<close>

definition country_check :: "string \<Rightarrow> int \<Rightarrow> Manager \<Rightarrow> Manager \<times> (error + bool)" where
  "country_check code port m =
     (if \<not> has_key (instances m) code then (m, Inl (''unknown country '' @ quote code))
      else if has_key (countryListeners m) code then (m, Inr True)
      else if countryProxyCtx m \<noteq> Some False then (m, Inl ''country proxy service is not running'')
      else (m\<lparr>beingOpened := (code, port) # beingOpened m\<rparr>, Inr False))"

definition country_listening :: "string \<Rightarrow> int \<Rightarrow> Manager \<Rightarrow> Manager" where
  "country_listening code port m = spawn (ServeCountryProxy code)
     (m\<lparr>countryListeners := AList.update code port (countryListeners m), beingOpened := remove1 (code, port) (beingOpened m)\<rparr>)"

definition country_not_listening :: "string \<Rightarrow> int \<Rightarrow> Manager \<Rightarrow> Manager" where
  "country_not_listening code port m = m\<lparr>beingOpened := remove1 (code, port) (beingOpened m)\<rparr>"

definition EnsureCountryProxy :: "(string \<Rightarrow> error option) \<Rightarrow> string \<Rightarrow> Manager \<Rightarrow> Manager \<times> (error + int)" where
  "EnsureCountryProxy listen code0 m =
     (let code = normalizeCode code0 in
      case countryPort (CountryProxyPort (mcfg m)) code of Inl err \<Rightarrow> (m, Inl err)
      | Inr port \<Rightarrow>
         if Key (clientAuth m) = [] then (m, Inl ''client API key is not configured'')
         else case country_check code port m of
           (m1, Inl err) \<Rightarrow> (m1, Inl err)
         | (m1, Inr True) \<Rightarrow> (m1, Inr port)
         | (m1, Inr False) \<Rightarrow>
             let address = join_host_port (CountryProxyHost (mcfg m)) (itoa port) in
             case listen address of
               Some err \<Rightarrow> (country_not_listening code port m1, Inl (''listen on country proxy '' @ address @ '': '' @ err))
             | None \<Rightarrow> (country_listening code port m1, Inr port))"

text \<open>The connections that the accept loops hand to a goroutine: the country proxy ends with the first
  failure, the other one only when its context is done.\<close>

fun serveCountryProxy :: "(error + Conn) list \<Rightarrow> Conn list" where
  "serveCountryProxy (Inr client # rest) = client # serveCountryProxy rest"
| "serveCountryProxy _ = []"

fun serve_loop :: "((error \<times> bool) + Conn) list \<Rightarrow> Conn list" where
  "serve_loop [] = []"
| "serve_loop (Inr client # rest) = client # serve_loop rest"
| "serve_loop (Inl (err, ctxDone) # rest) = (if ctxDone then [] else serve_loop rest)"

definition ServeProxy :: "error option \<Rightarrow> ((error \<times> bool) + Conn) list \<Rightarrow> Conn list \<times> error option" where
  "ServeProxy listened accepts = (case listened of Some err \<Rightarrow> ([], Some (''listen on proxy address: '' @ err))
     | None \<Rightarrow> (serve_loop accepts, None))"

section \<open>Sessions\<close>

text \<open>One direction of a session: \<open>n\<close> bytes pass before the source ends or the destination fails; then the
  destination is told that no more will come.  (Both connections are TCP connections, which have
  \<^verbatim>\<open>CloseWrite\<close>.)  The two directions share nothing but the connections, of which one reads what the
  other does not, so their interleaving makes no difference.\<close>

definition proxyCopy :: "nat \<Rightarrow> Conn \<Rightarrow> Conn \<Rightarrow> Conn \<times> Conn" where
  "proxyCopy n destination source =
     (close_write (destination\<lparr>sent := sent destination @ take n (incoming source)\<rparr>), source\<lparr>incoming := drop n (incoming source)\<rparr>)"

definition proxyBothWays :: "nat \<Rightarrow> nat \<Rightarrow> Conn \<Rightarrow> Conn \<Rightarrow> Conn \<times> Conn" where
  "proxyBothWays up down client server =
     (let (server1, client1) = proxyCopy up server client; (client2, server2) = proxyCopy down client1 server1
      in (client2, server2))"

text \<open>What a session learns from outside: the dial of the Tor port, how many bytes pass in each
  direction, and what the manager's other users do while it lasts.\<close>

record SessionIO =
  dialTor :: "string \<Rightarrow> error + Conn"
  bytesUp :: nat
  bytesDown :: nat
  during :: "Manager \<Rightarrow> Manager"

text \<open>The result is the manager, the client's connection and the connection to Tor if there is one.\<close>

definition forwardCountry :: "SessionIO \<Rightarrow> string \<Rightarrow> Conn \<Rightarrow> Manager \<Rightarrow> Manager \<times> Conn \<times> Conn option" where
  "forwardCountry io code client m =
     (case negotiateClientAuth code (Key (clientAuth m)) client of
        (False, c1) \<Rightarrow> (m, close_conn c1, None)
      | (True, c1) \<Rightarrow>
        (let refuse = (\<lambda>c. close_conn (writeSOCKS5Failure (CHR 0x01) c)) in
         case acquireInstance code m of
           (m1, None) \<Rightarrow> (m1, refuse c1, None)
         | (m1, Some p) \<Rightarrow>
           (let m2 = releaseInstance p (during io m1) in
            case dialTor io (join_host_port ''127.0.0.1'' (itoa (SocksPort (heap m1 p)))) of
              Inl err \<Rightarrow> (m2, refuse c1, None)
            | Inr tor \<Rightarrow>
              (case conn_write [CHR 0x05, CHR 0x01, CHR 0x00] tor of
                 (Some err, t1) \<Rightarrow> (m2, refuse c1, Some (close_conn t1))
               | (None, t1) \<Rightarrow>
                 (case read_full 2 t1 of
                    (Inl err, t2) \<Rightarrow> (m2, refuse c1, Some (close_conn t2))
                  | (Inr response, t2) \<Rightarrow>
                     if response ! 0 \<noteq> CHR 0x05 \<or> response ! 1 \<noteq> CHR 0x00 then (m2, refuse c1, Some (close_conn t2))
                     else (case conn_write [CHR 0x01, CHR 0x00] c1 of
                        (Some err, c2) \<Rightarrow> (m2, close_conn c2, Some (close_conn t2))
                      | (None, c2) \<Rightarrow>
                        (let (c3, t3) = proxyBothWays (bytesUp io) (bytesDown io) c2 t2
                         in (m2, close_conn c3, Some (close_conn t3)))))))))"

definition forward :: "SessionIO \<Rightarrow> Conn \<Rightarrow> Manager \<Rightarrow> Manager \<times> Conn \<times> Conn option" where
  "forward io client m =
     (case acquireInstance (active m) m of
        (m1, None) \<Rightarrow> (m1, close_conn client, None)
      | (m1, Some p) \<Rightarrow>
        (let m2 = releaseInstance p (during io m1) in
         case dialTor io (join_host_port ''127.0.0.1'' (itoa (SocksPort (heap m1 p)))) of
           Inl err \<Rightarrow> (m2, close_conn client, None)
         | Inr tor \<Rightarrow>
           (let (c1, t1) = proxyBothWays (bytesUp io) (bytesDown io) client tor
            in (m2, close_conn c1, Some (close_conn t1)))))"

definition UpdateClientAPIKey :: "string \<Rightarrow> Manager \<Rightarrow> Manager" where
  "UpdateClientAPIKey k m = m\<lparr>clientAuth := UpdateKey k (clientAuth m)\<rparr>"

section \<open>Routes for the client API\<close>

record RouteRequest =
  RR_Country :: string
  RR_Countries :: "string list"
  RR_Policy :: string

record ClientRoute =
  CL_Country :: Country
  CL_Address :: string
  CL_Username :: string
  CL_Authentication :: string
  CL_Status :: status
  CL_Ready :: bool
  CL_ExitIP :: string
  CL_SelectedIP :: string
  CL_SelectedNode :: string
  CL_LatencyMS :: int

definition publicRouteHost :: "string \<Rightarrow> string \<Rightarrow> string" where
  "publicRouteHost requestHost configuredHost =
     (if configuredHost \<noteq> [] \<and> configuredHost \<noteq> ''0.0.0.0'' \<and> configuredHost \<noteq> ''::'' then configuredHost
      else case split_host_port requestHost of Some (host, port) \<Rightarrow> host
      | None \<Rightarrow> trim_chars [CHR ''['', CHR '']''] requestHost)"

definition clientRouteForRequest :: "(string \<Rightarrow> error option) \<Rightarrow> Config \<Rightarrow> Request \<Rightarrow> string \<Rightarrow> Manager
    \<Rightarrow> Manager \<times> (error + ClientRoute)" where
  "clientRouteForRequest listen conf r code0 m =
     (let code = normalizeCode code0 in
      case InstanceOf code m of None \<Rightarrow> (m, Inl (''unknown country '' @ quote code))
      | Some i \<Rightarrow>
        (case EnsureCountryProxy listen code m of (m1, Inl err) \<Rightarrow> (m1, Inl err)
         | (m1, Inr port) \<Rightarrow>
            (m1, Inr \<lparr>CL_Country = ICountry i,
               CL_Address = join_host_port (publicRouteHost (Host r) (CountryProxyHost conf)) (itoa port),
               CL_Username = code, CL_Authentication = ''password_is_client_api_key'', CL_Status = Status i,
               CL_Ready = (Status i = Running \<or> Status i = Switching), CL_ExitIP = ExitIP i,
               CL_SelectedIP = SelectedIP i, CL_SelectedNode = SelectedNode i, CL_LatencyMS = 0\<rparr>)))"

end
