(* ===== verification/Http_Api.thy ===== *)
theory Http_Api
  imports Health Client_Routes
begin

text \<open>
  The web server (\<^verbatim>\<open>src/main.go\<close>): the table of routes, the authorisation in front of it, and every
  handler with the operations of the other components that it calls.

  A request body is known by the outcome of decoding it as each of the types the handlers expect, and
  by whether it holds exactly one JSON value.  The outcomes of everything outside - clock, random bytes,
  files, Tor processes, the directory server, environment variables, the parser of URLs - are the
  record \<open>ApiIO\<close>.  The path of a request is the decoded one; a path with an encoded slash inside a
  segment is not modelled.
\<close>

section \<open>The application\<close>

record App =
  A_routes :: Routes
  A_store :: ConfigStore
  A_auth :: AuthStore
  A_cfg :: Config

record JsonBody =
  asPassword :: "error + string"
  asChange :: "error + string \<times> string"
  asClient :: "error + ClientUpdate"
  asRuntime :: "error + RuntimeSettings"
  asUpstream :: "error + UpstreamUpdate"
  asRoute :: "error + RouteRequest"
  oneValue :: bool

datatype body =
  B_error error
| B_flags "(string \<times> bool) list"
| B_health "HealthReport option"
| B_state "StateReport option"
| B_upstream UpstreamSettings
| B_upstream_applied UpstreamSettings bool
| B_runtime RuntimeSettings
| B_runtime_applied RuntimeSettings
| B_client ClientSettings
| B_client_applied ClientSettings bool bool string
| B_log string
| B_countries "ExitCountry list" CatalogStatus
| B_nodes "ExitNode list"
| B_public_countries "(ExitCountry \<times> int) list"
| B_route ClientRoute

record Response =
  RespStatus :: int
  RespBody :: body
  RespHeaders :: "(string \<times> string) list"
  RespCookie :: "SetCookie option"

record ApiIO =
  IO_body :: JsonBody
  IO_now :: "nat \<Rightarrow> time"
  IO_token_now :: "string \<Rightarrow> time"
  IO_password :: PasswordIO
  IO_session :: "error + string"
  IO_keyBytes :: "error + string"
  IO_save :: SaveIO
  IO_env :: "nat \<Rightarrow> Env"
  IO_control :: "nat \<Rightarrow> nat \<Rightarrow> string \<Rightarrow> error + string"
  IO_queued :: "ExitCatalog \<Rightarrow> ExitCatalog"
  IO_meanwhile :: "ExitCatalog \<Rightarrow> ExitCatalog"
  IO_others :: "ExitCatalog \<Rightarrow> ExitCatalog"
  IO_fetch :: "HttpClient \<Rightarrow> fetch"
  IO_ctxErr :: "error option"
  IO_listen :: "string \<Rightarrow> error option"
  IO_file :: "string \<Rightarrow> error + string"
  IO_getenv :: "string \<Rightarrow> string"
  IO_files :: "Request \<Rightarrow> Response"
  IO_parseURL :: "string \<Rightarrow> (string \<times> string) option"

definition writeJSON :: "int \<Rightarrow> body \<Rightarrow> Response" where
  "writeJSON st b = \<lparr>RespStatus = st, RespBody = b,
     RespHeaders = [(''Content-Type'', ''application/json; charset=utf-8'')], RespCookie = None\<rparr>"

definition writeError :: "error \<Rightarrow> Response" where
  "writeError err = writeJSON 400 (B_error err)"

definition decodeJSON :: "(JsonBody \<Rightarrow> error + 'a) \<Rightarrow> JsonBody \<Rightarrow> error + 'a" where
  "decodeJSON target b =
     (case target b of Inl err \<Rightarrow> Inl (''invalid JSON request: '' @ err)
      | Inr x \<Rightarrow> if oneValue b then Inr x else Inl ''invalid JSON request: request body must contain one JSON value'')"

definition set_manager :: "Manager \<Rightarrow> App \<Rightarrow> App" where
  "set_manager m app = app\<lparr>A_routes := (A_routes app)\<lparr>W_manager := m\<rparr>\<rparr>"

definition set_catalog :: "ExitCatalog \<Rightarrow> App \<Rightarrow> App" where
  "set_catalog c app = app\<lparr>A_routes := (A_routes app)\<lparr>W_catalog := c\<rparr>\<rparr>"

abbreviation app_manager :: "App \<Rightarrow> Manager" where "app_manager app \<equiv> W_manager (A_routes app)"
abbreviation app_catalog :: "App \<Rightarrow> ExitCatalog" where "app_catalog app \<equiv> W_catalog (A_routes app)"

section \<open>Sessions\<close>

definition loginClientKey :: "Request \<Rightarrow> string" where
  "loginClientKey r =
     (case split_host_port (trim_space (RemoteAddr r)) of
        Some (host, port) \<Rightarrow> if host \<noteq> [] then host else trim_space (RemoteAddr r)
      | None \<Rightarrow> trim_space (RemoteAddr r))"

definition open_session :: "ApiIO \<Rightarrow> Request \<Rightarrow> int \<Rightarrow> body \<Rightarrow> App \<Rightarrow> App \<times> Response" where
  "open_session io r st b app =
     (case CreateSession (IO_session io) (IO_now io 1) (IO_token_now io) r (A_auth app) of
        (a, Inl err) \<Rightarrow> (app\<lparr>A_auth := a\<rparr>, writeError err)
      | (a, Inr cookie) \<Rightarrow> (app\<lparr>A_auth := a\<rparr>, (writeJSON st b)\<lparr>RespCookie := Some cookie\<rparr>))"

definition get_session :: "ApiIO \<Rightarrow> Request \<Rightarrow> App \<Rightarrow> App \<times> Response" where
  "get_session io r app = (app, writeJSON 200 (B_flags [(''configured'', Configured (A_auth app)),
     (''authenticated'', ValidSession (IO_now io 0) r (A_auth app))]))"

definition post_setup_password :: "ApiIO \<Rightarrow> Request \<Rightarrow> App \<Rightarrow> App \<times> Response" where
  "post_setup_password io r app =
     (case decodeJSON asPassword (IO_body io) of Inl err \<Rightarrow> (app, writeError err)
      | Inr password \<Rightarrow>
        (case Setup (IO_password io) password (A_auth app) of
           (a, Some err) \<Rightarrow> (app\<lparr>A_auth := a\<rparr>, writeError err)
         | (a, None) \<Rightarrow> open_session io r 201 (B_flags [(''authenticated'', True)]) (app\<lparr>A_auth := a\<rparr>)))"

definition post_login :: "ApiIO \<Rightarrow> Request \<Rightarrow> App \<Rightarrow> App \<times> Response" where
  "post_login io r app =
     (case decodeJSON asPassword (IO_body io) of Inl err \<Rightarrow> (app, writeError err)
      | Inr password \<Rightarrow>
        (case Authenticate (IO_now io 0) (loginClientKey r) password (A_auth app) of (a, authenticated, retryAfter) \<Rightarrow>
           let app1 = app\<lparr>A_auth := a\<rparr> in
           if retryAfter > 0 then
             (app1, (writeJSON 429 (B_error ''too many login attempts; try again later''))
                \<lparr>RespHeaders := [(''Retry-After'', itoa ((retryAfter + second - 1) div second)),
                   (''Content-Type'', ''application/json; charset=utf-8'')]\<rparr>)
           else if \<not> authenticated then (app1, writeJSON 401 (B_error ''administrator password is incorrect''))
           else open_session io r 200 (B_flags [(''authenticated'', True)]) app1))"

definition post_logout :: "Request \<Rightarrow> App \<Rightarrow> App \<times> Response" where
  "post_logout r app =
     (case DeleteSession r (A_auth app) of (a, cookie) \<Rightarrow>
        (app\<lparr>A_auth := a\<rparr>, (writeJSON 200 (B_flags [(''authenticated'', False)]))\<lparr>RespCookie := Some cookie\<rparr>))"

section \<open>Settings\<close>

definition put_client :: "ApiIO \<Rightarrow> App \<Rightarrow> App \<times> Response" where
  "put_client io app =
     (case decodeJSON asClient (IO_body io) of Inl err \<Rightarrow> (app, writeError err)
      | Inr update \<Rightarrow>
        let restartRequired = (CU_Host update \<noteq> CountryProxyHost (A_cfg app) \<or> CU_BasePort update \<noteq> CountryProxyPort (A_cfg app)) in
        (case UpdateClient (IO_keyBytes io) (IO_save io) update (A_store app) of
           (s, Inl err) \<Rightarrow> (app\<lparr>A_store := s\<rparr>, writeError err)
         | (s, Inr generated) \<Rightarrow>
           let externalKey = IO_getenv io ''TOR_CLIENT_API_KEY'';
               effectiveKey = (if externalKey \<noteq> [] then externalKey else StoredClientAPIKey s);
               app1 = app\<lparr>A_store := s\<rparr>
           in (set_manager (UpdateClientAPIKey effectiveKey (app_manager app1)) app1,
               writeJSON 200 (B_client_applied (Client (effectiveKey \<noteq> []) s) restartRequired (externalKey \<noteq> []) generated))))"

definition put_runtime :: "ApiIO \<Rightarrow> App \<Rightarrow> App \<times> Response" where
  "put_runtime io app =
     (case decodeJSON asRuntime (IO_body io) of Inl err \<Rightarrow> (app, writeError err)
      | Inr settings \<Rightarrow>
        (case UpdateRuntime (IO_save io) settings (A_store app) of
           (s, Some err) \<Rightarrow> (app\<lparr>A_store := s\<rparr>, writeError err)
         | (s, None) \<Rightarrow>
           let m = UpdateCircuitRotateMinutes (RS_CircuitRotateMinutes settings)
                 (UpdateMaxRunning (IO_env io) (RS_MaxRunning settings) (app_manager app))
           in (set_manager m (app\<lparr>A_store := s\<rparr>), writeJSON 200 (B_runtime_applied (Runtime s)))))"

definition environment_upstream :: "(string \<Rightarrow> string) \<Rightarrow> Config \<Rightarrow> Config" where
  "environment_upstream getenv c =
     (if getenv ''TOR_UPSTREAM_SOCKS5'' \<noteq> [] then c\<lparr>UpstreamSOCKS5 := getenv ''TOR_UPSTREAM_SOCKS5'',
        UpstreamUsername := getenv ''TOR_UPSTREAM_USERNAME'', UpstreamPassword := getenv ''TOR_UPSTREAM_PASSWORD''\<rparr> else c)"

definition put_upstream :: "ApiIO \<Rightarrow> App \<Rightarrow> App \<times> Response" where
  "put_upstream io app =
     (case decodeJSON asUpstream (IO_body io) of Inl err \<Rightarrow> (app, writeError err)
      | Inr update \<Rightarrow>
        (case UpdateUpstream (IO_save io) update (A_store app) of
           (s, Some err) \<Rightarrow> (app\<lparr>A_store := s\<rparr>, writeError err)
         | (s, None) \<Rightarrow>
           let conf = environment_upstream (IO_getenv io) (ConfigOf s); app1 = app\<lparr>A_store := s\<rparr> in
           (case UpdateUpstreamProxy (IO_control io) conf (app_manager app1) of
              (m, Some err) \<Rightarrow> (set_manager m app1, writeError err)
            | (m, None) \<Rightarrow>
               (set_catalog (UpdateCatalogUpstream conf (app_catalog app1)) (set_manager m app1),
                writeJSON 200 (B_upstream_applied (Upstream s) (IO_getenv io ''TOR_UPSTREAM_SOCKS5'' \<noteq> []))))))"

definition put_password :: "ApiIO \<Rightarrow> Request \<Rightarrow> App \<Rightarrow> App \<times> Response" where
  "put_password io r app =
     (case decodeJSON asChange (IO_body io) of Inl err \<Rightarrow> (app, writeError err)
      | Inr (current, new) \<Rightarrow>
        (case Change (IO_password io) current new (A_auth app) of
           (a, Some err) \<Rightarrow> (app\<lparr>A_auth := a\<rparr>, writeError err)
         | (a, None) \<Rightarrow>
           (case ClearLegacyAuth (IO_save io) (A_store app) of
              (s, Some err) \<Rightarrow> (app\<lparr>A_auth := a, A_store := s\<rparr>, writeError err)
            | (s, None) \<Rightarrow> open_session io r 200 (B_flags [(''changed'', True)]) (app\<lparr>A_auth := a, A_store := s\<rparr>))))"

section \<open>Countries and exits\<close>

definition country_action :: "Manager \<times> error option \<Rightarrow> body option \<Rightarrow> App \<Rightarrow> App \<times> Response" where
  "country_action outcome b app =
     (case outcome of (m, Some err) \<Rightarrow> (set_manager m app, writeError err)
      | (m, None) \<Rightarrow> (set_manager m app, writeJSON 202 (case b of Some x \<Rightarrow> x | None \<Rightarrow> B_state (State m))))"

definition get_log :: "ApiIO \<Rightarrow> string \<Rightarrow> App \<Rightarrow> App \<times> Response" where
  "get_log io code0 app =
     (let code = normalizeCode code0 in
      if \<not> countryCodePattern code then (app, writeError ''invalid country code'')
      else case InstanceLogPath code (app_manager app) of Inl err \<Rightarrow> (app, writeError err)
      | Inr logPath \<Rightarrow>
        (case tailFile (IO_file io logPath) 200 of (text, Some err) \<Rightarrow> (app, writeError err)
         | (text, None) \<Rightarrow> (app, writeJSON 200 (B_log text))))"

definition ensure_fresh :: "ApiIO \<Rightarrow> App \<Rightarrow> App \<times> error option" where
  "ensure_fresh io app =
     (case EnsureFresh (IO_now io) (IO_queued io) (IO_meanwhile io) (IO_fetch io) (app_catalog app) of
        (c, err) \<Rightarrow> (set_catalog c app, err))"

definition get_exit_countries :: "ApiIO \<Rightarrow> App \<Rightarrow> App \<times> Response" where
  "get_exit_countries io app =
     (case ensure_fresh io app of (app1, Some err) \<Rightarrow> (app1, writeError err)
      | (app1, None) \<Rightarrow> (app1, writeJSON 200 (B_countries (CatalogCountries (app_catalog app1))
            (CatalogStatusOf (IO_now io 4) (app_catalog app1)))))"

definition post_refresh :: "ApiIO \<Rightarrow> App \<Rightarrow> App \<times> Response" where
  "post_refresh io app =
     (case Refresh (IO_now io) (IO_queued io) (IO_meanwhile io) (IO_fetch io) (app_catalog app) of
        (c, err) \<Rightarrow>
          let status = CatalogStatusOf (IO_now io 4) c in
          if err \<noteq> None \<and> CS_NodeCount status = 0 then (set_catalog c app, writeError (the err))
          else (set_catalog c app, writeJSON 200 (B_countries (CatalogCountries c) status)))"

definition get_exit_nodes :: "ApiIO \<Rightarrow> string \<Rightarrow> App \<Rightarrow> App \<times> Response" where
  "get_exit_nodes io code0 app =
     (let code = normalizeCode code0 in
      if \<not> countryCodePattern code then (app, writeError ''invalid country code'')
      else case ensure_fresh io app of (app1, Some err) \<Rightarrow> (app1, writeError err)
      | (app1, None) \<Rightarrow>
         let c = StartLatencyChecks (IO_now io 4) code (app_catalog app1)
         in (set_catalog c app1, writeJSON 200 (B_nodes (NodesForCountry code c))))"

definition post_activate_node :: "ApiIO \<Rightarrow> string \<Rightarrow> App \<Rightarrow> App \<times> Response" where
  "post_activate_node io fingerprint app =
     (case ensure_fresh io app of (app1, Some err) \<Rightarrow> (app1, writeError err)
      | (app1, None) \<Rightarrow>
        (case NodeOf fingerprint (app_catalog app1) of None \<Rightarrow> (app1, writeError ''Tor exit node is no longer available'')
         | Some node \<Rightarrow> country_action (ActivateNode (IO_env io) node (app_manager app1)) None app1))"

section \<open>The client API\<close>

definition get_public_countries :: "ApiIO \<Rightarrow> App \<Rightarrow> App \<times> Response" where
  "get_public_countries io app =
     (case ensure_fresh io app of (app1, Some err) \<Rightarrow> (app1, writeError err)
      | (app1, None) \<Rightarrow> (app1, writeJSON 200 (B_public_countries (map (\<lambda>x. (x,
           case countryPort (CountryProxyPort (A_cfg app)) (EC_Code x) of Inr port \<Rightarrow> port | Inl _ \<Rightarrow> 0))
           (CatalogCountries (app_catalog app1))))))"

definition zero_route :: ClientRoute where
  "zero_route = \<lparr>CL_Country = \<lparr>Code = [], Name = []\<rparr>, CL_Address = [], CL_Username = [], CL_Authentication = [],
     CL_Status = NoStatus, CL_Ready = False, CL_ExitIP = [], CL_SelectedIP = [], CL_SelectedNode = [], CL_LatencyMS = 0\<rparr>"

definition post_route :: "ApiIO \<Rightarrow> Request \<Rightarrow> App \<Rightarrow> App \<times> Response" where
  "post_route io r app =
     (case decodeJSON asRoute (IO_body io) of Inl err \<Rightarrow> (app, writeError err)
      | Inr input \<Rightarrow>
        let candidates = (if RR_Country input \<noteq> [] then RR_Country input # RR_Countries input else RR_Countries input) in
        (case ensure_fresh io app of (app1, Some err) \<Rightarrow> (app1, writeError err)
         | (app1, None) \<Rightarrow>
           (case SelectNode (IO_now io 4) (IO_others io) (IO_ctxErr io) candidates (RR_Policy input) (app_catalog app1) of
              (c, Inl err) \<Rightarrow> (set_catalog c app1, writeError err)
            | (c, Inr node) \<Rightarrow>
              let app2 = set_catalog c app1 in
              (case StartNode (IO_env io) node (app_manager app2) of
                 (m, Some err) \<Rightarrow> (set_manager m app2, writeError err)
               | (m, None) \<Rightarrow>
                 (case EnsureCountryProxy (IO_listen io) (N_CountryCode node) m of
                    (m1, Inl err) \<Rightarrow> (set_manager m1 app2, writeError err)
                  | (m1, Inr port) \<Rightarrow>
                    (case clientRouteForRequest (IO_listen io) (A_cfg app) r (N_CountryCode node) m1 of
                       (m2, route) \<Rightarrow>
                         (set_manager m2 app2, writeJSON 202 (B_route ((case route of Inr x \<Rightarrow> x | Inl _ \<Rightarrow> zero_route)
                            \<lparr>CL_LatencyMS := N_LatencyMS node\<rparr>)))))))))"

definition get_route :: "ApiIO \<Rightarrow> Request \<Rightarrow> string \<Rightarrow> App \<Rightarrow> App \<times> Response" where
  "get_route io r code app =
     (case clientRouteForRequest (IO_listen io) (A_cfg app) r code (app_manager app) of
        (m, Inl err) \<Rightarrow> (set_manager m app, writeError err)
      | (m, Inr route) \<Rightarrow> (set_manager m app, writeJSON 200 (B_route route)))"

section \<open>The table of routes\<close>

text \<open>A pattern for GET also serves HEAD; a wildcard matches one segment that is not empty; a path that is
  not clean is redirected, and everything else goes to the embedded files: both answers are
  \<open>IO_files\<close>.\<close>

definition is_get :: "Request \<Rightarrow> bool" where
  "is_get r \<longleftrightarrow> Method r = ''GET'' \<or> Method r = ''HEAD''"

definition country_handler :: "ApiIO \<Rightarrow> Request \<Rightarrow> string \<Rightarrow> string \<Rightarrow> App \<Rightarrow> App \<times> Response" where
  "country_handler io r code what app =
     (let m = app_manager app in
      if Method r = ''POST'' \<and> what = ''start'' then country_action (Start (IO_env io) code m) None app
      else if Method r = ''POST'' \<and> what = ''stop'' then country_action (StopCountry (IO_env io 0) code m) None app
      else if Method r = ''POST'' \<and> what = ''cancel-switch'' then country_action (CancelReplacement (IO_env io 0) code m) None app
      else if Method r = ''POST'' \<and> what = ''activate'' then country_action (Activate (IO_env io) code m) None app
      else if is_get r \<and> what = ''log'' then get_log io code app
      else (app, IO_files io r))"

definition settings_handler :: "ApiIO \<Rightarrow> Request \<Rightarrow> string \<Rightarrow> App \<Rightarrow> App \<times> Response" where
  "settings_handler io r what app =
     (if is_get r \<and> what = ''upstream'' then (app, writeJSON 200 (B_upstream (Upstream (A_store app))))
      else if is_get r \<and> what = ''runtime'' then (app, writeJSON 200 (B_runtime (Runtime (A_store app))))
      else if is_get r \<and> what = ''client'' then
        (app, writeJSON 200 (B_client (Client (ClientAPIKey (A_cfg app) \<noteq> []) (A_store app))))
      else if Method r = ''PUT'' \<and> what = ''client'' then put_client io app
      else if Method r = ''PUT'' \<and> what = ''runtime'' then put_runtime io app
      else if Method r = ''PUT'' \<and> what = ''upstream'' then put_upstream io app
      else if Method r = ''PUT'' \<and> what = ''password'' then put_password io r app
      else (app, IO_files io r))"

definition client_handler :: "ApiIO \<Rightarrow> Request \<Rightarrow> string list \<Rightarrow> App \<Rightarrow> App \<times> Response" where
  "client_handler io r segments app =
     (if is_get r \<and> segments = [''countries''] then get_public_countries io app
      else if Method r = ''POST'' \<and> segments = [''routes''] then post_route io r app
      else if length segments = 2 \<and> segments ! 0 = ''routes'' \<and> segments ! 1 \<noteq> [] then
        (if is_get r then get_route io r (segments ! 1) app
         else if Method r = ''DELETE'' then
           country_action (StopCountry (IO_env io 0) (segments ! 1) (app_manager app)) (Some (B_flags [(''stopping'', True)])) app
         else (app, IO_files io r))
      else (app, IO_files io r))"

definition api_handler :: "ApiIO \<Rightarrow> Request \<Rightarrow> string list \<Rightarrow> App \<Rightarrow> App \<times> Response" where
  "api_handler io r segments app =
     (if is_get r \<and> segments = [''session''] then get_session io r app
      else if Method r = ''POST'' \<and> segments = [''setup-password''] then post_setup_password io r app
      else if Method r = ''POST'' \<and> segments = [''login''] then post_login io r app
      else if Method r = ''POST'' \<and> segments = [''logout''] then post_logout r app
      else if is_get r \<and> segments = [''state''] then (app, writeJSON 200 (B_state (State (app_manager app))))
      else if length segments = 2 \<and> segments ! 0 = ''settings'' then settings_handler io r (segments ! 1) app
      else if length segments = 3 \<and> segments ! 0 = ''countries'' \<and> segments ! 1 \<noteq> []
        then country_handler io r (segments ! 1) (segments ! 2) app
      else if is_get r \<and> segments = [''exits'', ''countries''] then get_exit_countries io app
      else if Method r = ''POST'' \<and> segments = [''exits'', ''refresh''] then post_refresh io app
      else if is_get r \<and> length segments = 3 \<and> take 2 segments = [''exits'', ''countries''] \<and> segments ! 2 \<noteq> []
        then get_exit_nodes io (segments ! 2) app
      else if Method r = ''POST'' \<and> length segments = 4 \<and> take 2 segments = [''exits'', ''nodes''] \<and> segments ! 2 \<noteq> []
          \<and> segments ! 3 = ''activate''
        then post_activate_node io (segments ! 2) app
      else if segments \<noteq> [] \<and> hd segments = ''v1'' then client_handler io r (tl segments) app
      else (app, IO_files io r))"

definition serve :: "ApiIO \<Rightarrow> Request \<Rightarrow> App \<Rightarrow> App \<times> Response" where
  "serve io r app =
     (let segments = split_on CHR ''/'' (Path r) in
      if clean_path (Path r) \<noteq> Path r then (app, IO_files io r)
      else if is_get r \<and> Path r = ''/healthz'' then (app, writeJSON 200 (B_health (Report (IO_now io 0) (A_routes app))))
      else if take 2 segments = [[], ''api''] then api_handler io r (drop 2 segments) app
      else (app, IO_files io r))"

section \<open>Authorisation\<close>

definition publicAPIPath :: "string \<Rightarrow> bool" where
  "publicAPIPath p \<longleftrightarrow> p = ''/api/session'' \<or> p = ''/api/login'' \<or> p = ''/api/setup-password''"

definition sameOriginRequest :: "(string \<Rightarrow> (string \<times> string) option) \<Rightarrow> Request \<Rightarrow> bool" where
  "sameOriginRequest parse r =
     (let origin = Header r ''Origin'' in
      if origin = [] then True
      else case parse origin of None \<Rightarrow> False
      | Some (scheme, host) \<Rightarrow> host = Host r \<and> (scheme = ''http'' \<or> scheme = ''https''))"

definition authAPI :: "(ApiIO \<Rightarrow> Request \<Rightarrow> App \<Rightarrow> App \<times> Response) \<Rightarrow> ApiIO \<Rightarrow> Request \<Rightarrow> App \<Rightarrow> App \<times> Response" where
  "authAPI handler io r app =
     (if has_prefix (Path r) ''/api/v1/'' then
        (if \<not> validBearerToken r (Some (clientAuth (app_manager app)))
         then (app, writeJSON 401 (B_error ''valid client API Bearer token required'')) else handler io r app)
      else if has_prefix (Path r) ''/api/'' \<and> \<not> publicAPIPath (Path r) then
        (if \<not> Configured (A_auth app) then (app, writeJSON 428 (B_error ''administrator password has not been configured''))
         else if \<not> ValidSession (IO_now io 0) r (A_auth app) then (app, writeJSON 401 (B_error ''login required''))
         else if Method r \<noteq> ''GET'' \<and> \<not> sameOriginRequest (IO_parseURL io) r
         then (app, writeJSON 403 (B_error ''cross-origin request rejected'')) else handler io r app)
      else handler io r app)"

definition security_headers :: "(string \<times> string) list" where
  "security_headers = [(''X-Content-Type-Options'', ''nosniff''), (''X-Frame-Options'', ''DENY''),
     (''Referrer-Policy'', ''no-referrer''),
     (''Content-Security-Policy'', ''default-src 'self'; style-src 'self' 'unsafe-inline'; script-src 'self' 'unsafe-inline'; connect-src 'self'' @ [CHR 0x27])]"

definition securityHeaders :: "(ApiIO \<Rightarrow> Request \<Rightarrow> App \<Rightarrow> App \<times> Response) \<Rightarrow> ApiIO \<Rightarrow> Request \<Rightarrow> App \<Rightarrow> App \<times> Response" where
  "securityHeaders handler io r app =
     (case handler io r app of (app1, resp) \<Rightarrow> (app1, resp\<lparr>RespHeaders := security_headers @ RespHeaders resp\<rparr>))"

definition web_routes :: "ApiIO \<Rightarrow> Request \<Rightarrow> App \<Rightarrow> App \<times> Response" where
  "web_routes = securityHeaders (authAPI serve)"

end
