(* ===== verification/Program.thy ===== *)
theory Program
  imports Http_Api
begin

text \<open>
  The whole program (main of \<^verbatim>\<open>src/main.go\<close>): the start with its reasons to give up, the loop of the health
  monitor, the goroutines of the servers, and the phases of its end.  What it learns from outside at start is the record \<open>MainIO\<close>.
\<close>

section \<open>The example configuration\<close>

text \<open>\<^verbatim>\<open>os.WriteFile\<close> truncates the file before it writes, so a failed write leaves a damaged one.\<close>

record ExampleIO =
  EX_marshal :: "error option"
  EX_mkdir :: "error option"
  EX_open :: "error option"
  EX_write :: "error option"

definition writeExampleConfig :: "bool \<Rightarrow> ExampleIO \<Rightarrow> Config file_state \<Rightarrow> Config file_state \<times> error option" where
  "writeExampleConfig windows io file =
     (case EX_marshal io of Some err \<Rightarrow> (file, Some err)
      | None \<Rightarrow> (case EX_mkdir io of Some err \<Rightarrow> (file, Some err)
        | None \<Rightarrow> (case EX_open io of Some err \<Rightarrow> (file, Some err)
          | None \<Rightarrow> (case EX_write io of Some err \<Rightarrow> (Damaged, Some err)
            | None \<Rightarrow> (Holds (defaultConfig windows), None)))))"

section \<open>Start\<close>

record MainIO =
  M_getenv :: "string \<Rightarrow> string"
  M_configFile :: file_read
  M_mkdirState :: "error option"
  M_stateReadable :: bool
  M_stateFile :: "persistedManagerState file_state"
  M_scan :: dir_scan
  M_remove :: "string \<Rightarrow> error option"
  M_passwordFile :: "error + string option"
  M_restore :: "nat \<Rightarrow> nat \<Rightarrow> Env"

text \<open>The configuration that the file on disk stands for.\<close>

definition config_file :: "bool \<Rightarrow> file_read \<Rightarrow> Config file_state" where
  "config_file windows file = (case file of File_missing \<Rightarrow> Absent
     | File_decoded f \<Rightarrow> Holds (f (defaultConfig windows)) | _ \<Rightarrow> Damaged)"

definition start_manager :: "MainIO \<Rightarrow> Config \<Rightarrow> Manager" where
  "start_manager io conf =
     (let m = NewManager conf (M_stateReadable io) (M_stateFile io)
      in Restore (M_restore io) (StartCountryProxies (fst (CleanupStaleInstanceDirs (M_scan io) (M_remove io) m))))"

definition start_program :: "bool \<Rightarrow> MainIO \<Rightarrow> string \<Rightarrow> error + App" where
  "start_program windows io configPath =
     (case loadConfig windows (M_getenv io) (M_configFile io) of Inl err \<Rightarrow> Inl err
      | Inr loaded \<Rightarrow>
        let conf = Effective loaded in
        (case M_mkdirState io of Some err \<Rightarrow> Inl err
         | None \<Rightarrow>
           (case NewAuthStore conf (M_passwordFile io) of Inl err \<Rightarrow> Inl err
            | Inr auth \<Rightarrow>
              Inr \<lparr>A_routes = \<lparr>W_monitor = NewRouteHealthMonitor, W_manager = start_manager io conf,
                     W_catalog = NewExitCatalog conf\<rparr>,
                   A_store = NewConfigStore configPath (Stored loaded) (config_file windows (M_configFile io)),
                   A_auth = auth, A_cfg = conf\<rparr>)))"

datatype main_result = Wrote_config "Config file_state" | Fatal error | Serving App

definition main_start :: "bool \<Rightarrow> MainIO \<Rightarrow> ExampleIO \<Rightarrow> string \<Rightarrow> bool \<Rightarrow> main_result" where
  "main_start windows io ex configPath writeConfig =
     (if writeConfig then
        (case writeExampleConfig windows ex (config_file windows (M_configFile io)) of
           (_, Some err) \<Rightarrow> Fatal err | (file, None) \<Rightarrow> Wrote_config file)
      else case start_program windows io configPath of Inl err \<Rightarrow> Fatal err | Inr app \<Rightarrow> Serving app)"

section \<open>The loop of the health monitor\<close>

text \<open>A round of the monitor: what the rest of the program does until it is due, the outcomes of the probes,
  what the manager's other users do meanwhile, the order of the results, and the clock and the
  environment of each result.  The rounds are those that are due before the context is done.\<close>

record RoundIO =
  RO_before :: "Routes \<Rightarrow> Routes"
  RO_probe :: "Instance \<Rightarrow> string \<times> duration \<times> error option"
  RO_meanwhile :: "Manager \<Rightarrow> Manager"
  RO_arrive :: "routeProbeResult list \<Rightarrow> routeProbeResult list"
  RO_times :: "nat \<Rightarrow> time"
  RO_switch :: "nat \<Rightarrow> SwitchIO"

fun StartMonitor :: "RoundIO list \<Rightarrow> Routes \<Rightarrow> Routes option" where
  "StartMonitor [] w = Some w"
| "StartMonitor (x # rounds) w =
     (case runOnce (RO_probe x) (RO_meanwhile x) (RO_arrive x) (RO_times x) (RO_switch x) (RO_before x w) of
        None \<Rightarrow> None | Some w' \<Rightarrow> StartMonitor rounds w')"

section \<open>The goroutines of the servers\<close>

text \<open>The goroutine of the proxy of the active country: the clients it serves, and whether it ends the program
  by calling \<^verbatim>\<open>stop\<close>.  \<^verbatim>\<open>ListenAndServe\<close> of the web server always returns an error.\<close>

definition proxy_goroutine :: "error option \<Rightarrow> ((error \<times> bool) + Conn) list \<Rightarrow> Conn list \<times> bool" where
  "proxy_goroutine listened accepts =
     (case ServeProxy listened accepts of (clients, Some err) \<Rightarrow> (clients, True) | (clients, None) \<Rightarrow> (clients, False))"

datatype serve_error = ErrServerClosed | Serve_error error

definition web_goroutine :: "serve_error \<Rightarrow> bool" where
  "web_goroutine err = (case err of ErrServerClosed \<Rightarrow> False | Serve_error _ \<Rightarrow> True)"

section \<open>The end\<close>

text \<open>Where main is: it waits for the end of the context, waits for the web server to finish its requests
  (ten seconds at most), waits for the Tor processes (fifteen seconds at most), and returns.\<close>

datatype phase = Waiting | Closing_web | Stopping_tor | Ended

fun phase_number :: "phase \<Rightarrow> nat" where
  "phase_number Waiting = 0"
| "phase_number Closing_web = 1"
| "phase_number Stopping_tor = 2"
| "phase_number Ended = 3"

instantiation phase :: linorder
begin

definition less_eq_phase :: "phase \<Rightarrow> phase \<Rightarrow> bool" where
  "a \<le> b \<longleftrightarrow> phase_number a \<le> phase_number b"

definition less_phase :: "phase \<Rightarrow> phase \<Rightarrow> bool" where
  "a < b \<longleftrightarrow> phase_number a < phase_number b"

instance
proof
  fix a b :: phase
  assume "a \<le> b" "b \<le> a"
  then show "a = b" by (cases a; cases b) (simp_all add: less_eq_phase_def)
qed (auto simp: less_eq_phase_def less_phase_def)

end

text \<open>The context is the one that the country proxies hold.\<close>

record Life =
  L_phase :: phase
  L_app :: App
  L_error :: "error option"

abbreviation life_manager :: "Life \<Rightarrow> Manager" where "life_manager l \<equiv> app_manager (L_app l)"

definition serving :: "App \<Rightarrow> Life" where
  "serving app = \<lparr>L_phase = Waiting, L_app = app, L_error = None\<rparr>"

definition with_manager :: "(Manager \<Rightarrow> Manager) \<Rightarrow> Life \<Rightarrow> Life" where
  "with_manager f l = l\<lparr>L_app := set_manager (f (life_manager l)) (L_app l)\<rparr>"

definition stop_context :: "Life \<Rightarrow> Life" where
  "stop_context l = with_manager proxies_cancelled l"

definition wake :: "Life \<Rightarrow> Life" where
  "wake l = (if countryProxyCtx (life_manager l) = Some True then l\<lparr>L_phase := Closing_web\<rparr> else l)"

definition web_closed :: "Life \<Rightarrow> Life" where
  "web_closed l = (with_manager begin_shutdown l)\<lparr>L_phase := Stopping_tor\<rparr>"

definition tor_round :: "Env \<Rightarrow> Life \<Rightarrow> Life" where
  "tor_round e l = (case shutdown_round e (life_manager l) of
     (m, finished) \<Rightarrow> (with_manager (\<lambda>_. m) l)\<lparr>L_phase := (if finished then Ended else L_phase l)\<rparr>)"

definition tor_timeout :: "error \<Rightarrow> Life \<Rightarrow> Life" where
  "tor_timeout ctxErr l = l\<lparr>L_phase := Ended, L_error := Some (''wait for Tor processes to exit: '' @ ctxErr)\<rparr>"

text \<open>The same as one function, for a context that is done: the goroutine that closes the listeners, the web
  server, then the manager; an error of either is only logged.\<close>

definition stop_program :: "error \<Rightarrow> Env \<Rightarrow> ((Manager \<Rightarrow> Manager) \<times> Env) list \<Rightarrow> App \<Rightarrow> App \<times> error option" where
  "stop_program ctxErr e waits app =
     (case Shutdown ctxErr e waits (close_listeners (app_manager app)) of (m, err) \<Rightarrow> (set_manager m app, err))"

end
