(* ===== verification/Manager_Inv.thy ===== *)
theory Manager_Inv
  imports Manager_Reports
begin

text \<open>
  The invariant of the manager and the lemmas that carry it through the parts of the operations.
  \<open>inst_ok\<close> speaks about one instance; the other parts about the maps, the pointers between
  instances, the processes and the ports.
\<close>

section \<open>The invariant\<close>

definition fingerprint_ok :: "string \<Rightarrow> bool" where
  "fingerprint_ok s \<longleftrightarrow> s = [] \<or> (fingerprintPattern s \<and> to_upper s = s)"

definition inst_ok :: "Instance \<Rightarrow> bool" where
  "inst_ok i \<longleftrightarrow> (online (Status i) \<longrightarrow> cmd i \<noteq> None) \<and> 0 \<le> restartAttempts i \<and> restartAttempts i \<le> autoRestartLimit
     \<and> 0 \<le> ActiveConnections i \<and> 0 \<le> DrainingConnections i \<and> 0 \<le> BootstrapProgress i \<and> BootstrapProgress i \<le> 100
     \<and> replacement i = (pendingReplacement i \<noteq> None) \<and> (stopping i \<longrightarrow> draining i \<and> cmd i \<noteq> None)
     \<and> fingerprint_ok (ExitFingerprint i)"

definition heap_ok :: "Manager \<Rightarrow> bool" where
  "heap_ok m \<longleftrightarrow> (\<forall>p. inst_ok (heap m p))"

definition maps_ok :: "Manager \<Rightarrow> bool" where
  "maps_ok m \<longleftrightarrow> distinct (map fst (instances m)) \<and>
     (\<forall>code p. (code, p) \<in> set (instances m) \<longrightarrow> p < nextPtr m \<and> code_of m p = code \<and> canonical_code code)"

definition pending_ok :: "Manager \<Rightarrow> bool" where
  "pending_ok m \<longleftrightarrow> (\<forall>p q. pendingReplacement (heap m p) = Some q \<longrightarrow>
     q < nextPtr m \<and> code_of m q = code_of m p \<and> q \<notin> snd ` set (instances m)
     \<and> map_of (instances m) (code_of m p) = Some p)"

definition procs_ok :: "Manager \<Rightarrow> bool" where
  "procs_ok m \<longleftrightarrow> (\<forall>p c. cmd (heap m p) = Some c \<longrightarrow> c < nextCmd m \<and> p \<in> set (allInstances m) \<and> p < nextPtr m)
     \<and> (\<forall>p q c. cmd (heap m p) = Some c \<longrightarrow> cmd (heap m q) = Some c \<longrightarrow> p = q)"

definition codes_of :: "Config \<Rightarrow> string list" where
  "codes_of c = map (normalizeCode \<circ> Code) (Countries c)"

definition range_ok :: "Config \<Rightarrow> bool" where
  "range_ok c \<longleftrightarrow> 1024 \<le> BaseSocksPort c \<and> BaseSocksPort c + 3675 < 65535
     \<and> (CountryProxyPort c + 675 < BaseSocksPort c \<or> BaseSocksPort c + 675 < CountryProxyPort c)
     \<and> (CountryProxyPort c + 675 < BaseSocksPort c + 3000 \<or> BaseSocksPort c + 3675 < CountryProxyPort c)"

lemma range_ok_countries [simp]: "range_ok (c\<lparr>Countries := x\<rparr>) = range_ok c"
  by (simp add: range_ok_def)

definition countries_ok :: "Manager \<Rightarrow> bool" where
  "countries_ok m \<longleftrightarrow> range_ok (mcfg m) \<and> distinct (codes_of (mcfg m)) \<and> list_all canonical_code (codes_of (mcfg m))
     \<and> fst ` set (instances m) = set (codes_of (mcfg m))"

definition port_of :: "Config \<Rightarrow> Instance \<Rightarrow> bool" where
  "port_of c i \<longleftrightarrow> (\<exists>k < length (codes_of c). codes_of c ! k = Code (ICountry i)
     \<and> SocksPort i = wrap64 (BaseSocksPort c + int k) \<and> controlPort i = wrap64 (BaseSocksPort c + 3000 + int k))"

definition ports_ok :: "Manager \<Rightarrow> bool" where
  "ports_ok m \<longleftrightarrow> (\<forall>p < nextPtr m. \<not> dynamicPorts (heap m p) \<longrightarrow> port_of (mcfg m) (heap m p))"

definition node_ok :: "string \<times> PersistedNode \<Rightarrow> bool" where
  "node_ok kn \<longleftrightarrow> canonical_code (fst kn) \<and> Code (P_Country (snd kn)) = fst kn
     \<and> fingerprint_ok (P_ExitFingerprint (snd kn))"

definition resume_ok :: "Manager \<Rightarrow> bool" where
  "resume_ok m \<longleftrightarrow> distinct (map fst (resumeNodes m)) \<and> list_all node_ok (resumeNodes m)"

definition active_ok :: "Manager \<Rightarrow> bool" where
  "active_ok m \<longleftrightarrow> active m = [] \<or> has_key (instances m) (active m) \<or> has_key (resumeNodes m) (active m)"

definition minv :: "Manager \<Rightarrow> bool" where
  "minv m \<longleftrightarrow> heap_ok m \<and> maps_ok m \<and> pending_ok m \<and> procs_ok m \<and> countries_ok m \<and> ports_ok m
     \<and> resume_ok m \<and> active_ok m"

lemma minvD:
  assumes "minv m"
  shows "heap_ok m" "maps_ok m" "pending_ok m" "procs_ok m" "countries_ok m" "ports_ok m" "resume_ok m" "active_ok m"
  using assms by (simp_all add: minv_def)

lemma minvI:
  "heap_ok m \<Longrightarrow> maps_ok m \<Longrightarrow> pending_ok m \<Longrightarrow> procs_ok m \<Longrightarrow> countries_ok m \<Longrightarrow> ports_ok m
     \<Longrightarrow> resume_ok m \<Longrightarrow> active_ok m \<Longrightarrow> minv m"
  by (simp add: minv_def)

lemmas inv_parts = heap_ok_def maps_ok_def pending_ok_def procs_ok_def countries_ok_def ports_ok_def
  resume_ok_def active_ok_def code_of_def

section \<open>Lookups\<close>

lemma instances_lookup:
  "maps_ok m \<Longrightarrow> map_of (instances m) code = Some p \<Longrightarrow> p < nextPtr m \<and> code_of m p = code \<and> canonical_code code"
  by (auto simp: maps_ok_def dest: map_of_SomeD)

lemma instances_value: "maps_ok m \<Longrightarrow> p \<in> snd ` set (instances m) \<Longrightarrow> map_of (instances m) (code_of m p) = Some p"
  by (auto simp: maps_ok_def)

lemma instances_inj:
  "maps_ok m \<Longrightarrow> map_of (instances m) a = Some p \<Longrightarrow> map_of (instances m) b = Some p \<Longrightarrow> a = b"
  using instances_lookup by metis

lemma has_key_iff: "has_key al k \<longleftrightarrow> k \<in> fst ` set al"
  by (simp add: has_key_def map_of_eq_None_iff)

section \<open>Changes that leave the shape alone\<close>

text \<open>\<open>frame_of m m'\<close>: the two states agree in everything the invariant looks at beside the heap.\<close>

definition frame_of :: "Manager \<Rightarrow> Manager \<Rightarrow> bool" where
  "frame_of m m' \<longleftrightarrow> instances m' = instances m \<and> allInstances m' = allInstances m \<and> nextPtr m' = nextPtr m
     \<and> nextCmd m' = nextCmd m \<and> Countries (mcfg m') = Countries (mcfg m) \<and> BaseSocksPort (mcfg m') = BaseSocksPort (mcfg m)
     \<and> CountryProxyPort (mcfg m') = CountryProxyPort (mcfg m)
     \<and> resumeNodes m' = resumeNodes m \<and> active m' = active m"

lemma minv_frame: "minv m \<Longrightarrow> frame_of m m' \<Longrightarrow> heap m' = heap m \<Longrightarrow> minv m'"
  by (simp add: minv_def frame_of_def inv_parts codes_of_def port_of_def range_ok_def)

text \<open>\<open>same_shape\<close>: an instance keeps its country code, process and ports, and keeps or loses its
  pending replacement.\<close>

definition same_shape :: "Instance \<Rightarrow> Instance \<Rightarrow> bool" where
  "same_shape i j \<longleftrightarrow> Code (ICountry j) = Code (ICountry i) \<and> cmd j = cmd i \<and> SocksPort j = SocksPort i
     \<and> controlPort j = controlPort i \<and> dynamicPorts j = dynamicPorts i
     \<and> (pendingReplacement j = None \<or> pendingReplacement j = pendingReplacement i)"

lemma minv_modify:
  assumes "minv m" and "inst_ok (f (heap m p))" and "same_shape (heap m p) (f (heap m p))"
  shows "minv (modify p f m)"
proof (rule minvI)
  note inv = minvD [OF assms(1)]
  note s = assms(3) [unfolded same_shape_def]
  have code: "code_of (modify p f m) q = code_of m q" for q
    using s by (simp add: code_of_def)
  have pend: "pendingReplacement (heap (modify p f m) q) = Some r \<Longrightarrow> pendingReplacement (heap m q) = Some r" for q r
    using s by (auto split: if_splits)
  have cmds: "cmd (heap (modify p f m) q) = cmd (heap m q)" for q
    using s by simp
  show "heap_ok (modify p f m)" using inv(1) assms(2) by (simp add: heap_ok_def)
  show "maps_ok (modify p f m)" using inv(2) unfolding maps_ok_def code modify_simps .
  show "pending_ok (modify p f m)" using inv(3) pend
    unfolding pending_ok_def code modify_simps(3,9) by blast
  show "procs_ok (modify p f m)" using inv(4) unfolding procs_ok_def cmds modify_simps(4,9,10) .
  show "countries_ok (modify p f m)" using inv(5) by (simp add: countries_ok_def)
  show "ports_ok (modify p f m)" using inv(6) s by (simp add: ports_ok_def port_of_def)
  show "resume_ok (modify p f m)" using inv(7) by (simp add: resume_ok_def)
  show "active_ok (modify p f m)" using inv(8) by (simp add: active_ok_def)
qed

lemma inst_okD: "minv m \<Longrightarrow> inst_ok (heap m p)"
  by (simp add: minv_def heap_ok_def)

lemma same_shape_refl [simp]: "same_shape i i"
  by (simp add: same_shape_def)

lemma fingerprint_upper:
  assumes "fingerprintPattern s"
  shows "fingerprintPattern (to_upper s)" "to_upper (to_upper s) = to_upper s"
proof -
  from assms have h: "list_all is_hex s" by (simp add: fingerprintPattern_def)
  then have u: "to_upper s = map upper_byte s" by (rule to_upper_hex)
  have h': "list_all is_hex (map upper_byte s)" using h by (auto simp: list_all_iff upper_byte_hex)
  show "fingerprintPattern (to_upper s)" using assms h' by (simp add: u fingerprintPattern_def)
  show "to_upper (to_upper s) = to_upper s" using h' by (simp add: u to_upper_hex)
qed

named_theorems keeps_minv "parts of operations that keep the invariant"

lemma minv_spawn [keeps_minv]: "minv m \<Longrightarrow> minv (spawn t m)"
  by (rule minv_frame) (simp_all add: frame_of_def)

lemma minv_modify_simple:
  assumes "minv m" and "\<And>i. inst_ok i \<Longrightarrow> inst_ok (f i)" and "\<And>i. same_shape i (f i)"
  shows "minv (modify p f m)"
  using assms by (intro minv_modify) (auto simp: inst_okD)

lemma minv_clear_active [keeps_minv]: "minv m \<Longrightarrow> minv (m\<lparr>active := []\<rparr>)"
  by (simp add: minv_def inv_parts)

lemma minv_set_active: "minv m \<Longrightarrow> has_key (instances m) code \<Longrightarrow> minv (m\<lparr>active := code\<rparr>)"
  by (simp add: minv_def inv_parts)

lemma minv_world:
  assumes "minv m"
  shows "minv (m\<lparr>cancelled := cs\<rparr>)" "minv (m\<lparr>signals := ss\<rparr>)" "minv (m\<lparr>dirs := ds\<rparr>)"
    "minv (m\<lparr>stateFile := sf\<rparr>)" "minv (m\<lparr>reservedPorts := rs\<rparr>)" "minv (m\<lparr>shuttingDown := b\<rparr>)"
    "minv (m\<lparr>nextCtx := n\<rparr>)" "minv (m\<lparr>countryListeners := ls\<rparr>)" "minv (m\<lparr>beingOpened := ks\<rparr>)"
    "minv (m\<lparr>countryProxyCtx := x\<rparr>)" "minv (m\<lparr>clientAuth := a\<rparr>)"
  using assms by (auto elim!: minv_frame simp: frame_of_def)

lemma minv_config:
  "minv m \<Longrightarrow> Countries c = Countries (mcfg m) \<Longrightarrow> BaseSocksPort c = BaseSocksPort (mcfg m)
    \<Longrightarrow> CountryProxyPort c = CountryProxyPort (mcfg m) \<Longrightarrow> minv (m\<lparr>mcfg := c\<rparr>)"
  by (rule minv_frame) (simp_all add: frame_of_def)

lemma minv_signalProcess [keeps_minv]: "minv m \<Longrightarrow> minv (signalProcess e p c m)"
  by (simp add: signalProcess_def minv_spawn minv_world)

lemma minv_kill_later [keeps_minv]: "minv m \<Longrightarrow> minv (kill_later p c m)"
  by (simp add: kill_later_def minv_world)

lemma minv_cancel_rotation [keeps_minv]: "minv m \<Longrightarrow> minv (cancel_rotation p m)"
  by (auto simp: cancel_rotation_def same_shape_def inst_ok_def intro!: minv_modify_simple minv_world split: option.splits)

lemma cancel_rotation_same [simp]:
  "cmd (heap (cancel_rotation p m) q) = cmd (heap m q)" "stopping (heap (cancel_rotation p m) q) = stopping (heap m q)"
  "Status (heap (cancel_rotation p m) q) = Status (heap m q)" "draining (heap (cancel_rotation p m) q) = draining (heap m q)"
  "pendingReplacement (heap (cancel_rotation p m) q) = pendingReplacement (heap m q)"
  "code_of (cancel_rotation p m) q = code_of m q" "instances (cancel_rotation p m) = instances m"
  "StartedAt (heap (cancel_rotation p m) q) = StartedAt (heap m q)" "active (cancel_rotation p m) = active m"
  "mcfg (cancel_rotation p m) = mcfg m" "shuttingDown (cancel_rotation p m) = shuttingDown m"
  "resumeNodes (cancel_rotation p m) = resumeNodes m" "nextPtr (cancel_rotation p m) = nextPtr m"
  "allInstances (cancel_rotation p m) = allInstances m" "nextCmd (cancel_rotation p m) = nextCmd m"
  "signals (cancel_rotation p m) = signals m" "stateFile (cancel_rotation p m) = stateFile m" "tasks (cancel_rotation p m) = tasks m"
  "ActiveConnections (heap (cancel_rotation p m) q) = ActiveConnections (heap m q)"
  "dynamicPorts (heap (cancel_rotation p m) q) = dynamicPorts (heap m q)"
  by (auto simp: cancel_rotation_def code_of_def split: option.splits)

lemma minv_stopInstance [keeps_minv]: "minv m \<Longrightarrow> minv (stopInstance e p m)"
proof -
  assume m: "minv m"
  show ?thesis
  proof (cases "stopping (heap m p)")
    case True
    with m show ?thesis by (simp add: stopInstance_def)
  next
    case False
    note c = minv_cancel_rotation [OF m, of p]
    show ?thesis
    proof (cases "cmd (heap m p)")
      case None
      with False c inst_okD [OF c, of p] show ?thesis
        by (simp add: stopInstance_def) (rule minv_modify, auto simp: inst_ok_def same_shape_def)
    next
      case (Some x)
      with False c inst_okD [OF c, of p] show ?thesis
        by (simp add: stopInstance_def)
          (rule minv_signalProcess, rule minv_modify, auto simp: inst_ok_def same_shape_def)
    qed
  qed
qed

lemma abandon_ok: "inst_ok i \<Longrightarrow> inst_ok (abandon_replacement i)"
  by (simp add: abandon_replacement_def inst_ok_def)

lemma abandon_shape: "same_shape i (abandon_replacement i)"
  by (simp add: abandon_replacement_def same_shape_def)

lemma minv_stop_section [keeps_minv]: "minv m \<Longrightarrow> minv (fst (stop_section code p m))"
proof -
  assume m: "minv m"
  let ?m1 = "modify p abandon_replacement m"
  have m1: "minv ?m1" by (rule minv_modify_simple) (use m abandon_ok abandon_shape in auto)
  note i = inst_okD [OF m1, of p]
  have a: "minv (m'\<lparr>active := if active m' = code then [] else active m'\<rparr>)" if "minv m'" for m'
    using that by (cases "active m' = code") (simp_all add: minv_clear_active)
  have idle: "minv (modify p (\<lambda>i. i\<lparr>Status := Stopped, Error := [], restartScheduled := False, restartAttempts := 0\<rparr>) ?m1)"
    by (rule minv_modify_simple [OF m1]) (auto simp: inst_ok_def same_shape_def autoRestartLimit_def)
  have drain: "minv (modify p (\<lambda>i. i\<lparr>draining := True, restartScheduled := False, restartAttempts := 0, Status := Draining\<rparr>) ?m1)"
    by (rule minv_modify_simple [OF m1]) (auto simp: inst_ok_def same_shape_def autoRestartLimit_def)
  from m1 idle a [OF drain] show ?thesis
    unfolding stop_section_def Let_def by (auto simp del: modify_simps simp: modify_simps(7))
qed

section \<open>The runtime state\<close>

lemma minv_save [keeps_minv]: "minv m \<Longrightarrow> minv (saveRuntimeState e m)"
  by (simp add: saveRuntimeState_def Let_def minv_world)

lemma update_node_ok: "list_all node_ok al \<Longrightarrow> node_ok (k, v) \<Longrightarrow> list_all node_ok (AList.update k v al)"
  by (induction al) auto

lemma delete_node_ok: "list_all P al \<Longrightarrow> list_all P (AList.delete k al)"
  by (induction al) auto

lemma minv_remember [keeps_minv]:
  assumes "minv m" and "canonical_code (code_of m p)"
  shows "minv (remember_node p m)"
proof -
  let ?v = "\<lparr>P_Country = ICountry (heap m p), P_ExitFingerprint = ExitFingerprint (heap m p), P_SelectedIP = SelectedIP (heap m p),
         P_SelectedNode = SelectedNode (heap m p), P_StartedAt = StartedAt (heap m p)\<rparr>"
  have "node_ok (code_of m p, ?v)"
    using assms inst_okD [OF assms(1), of p] by (simp add: node_ok_def code_of_def inst_ok_def)
  then have "resume_ok (remember_node p m)"
    using minvD(7) [OF assms(1)]
    by (simp add: resume_ok_def remember_node_def Let_def code_of_def distinct_update update_node_ok)
  moreover have "active_ok (remember_node p m)"
    using minvD(8) [OF assms(1)] by (auto simp: active_ok_def remember_node_def Let_def)
  ultimately show ?thesis
    using assms(1) by (simp add: minv_def remember_node_def Let_def inv_parts)
qed

lemma minv_forget [keeps_minv]: "minv m \<Longrightarrow> minv (forget_node code m)"
  by (simp add: minv_def forget_node_def inv_parts delete_node_ok distinct_delete)

lemma minv_forgetInstance [keeps_minv]: "minv m \<Longrightarrow> minv (forgetInstance e code m)"
  by (simp add: forgetInstance_def minv_save minv_forget)

section \<open>Processes\<close>

definition launched :: "Manager \<Rightarrow> Instance \<Rightarrow> Instance \<Rightarrow> bool" where
  "launched m i j \<longleftrightarrow> cmd j = Some (nextCmd m) \<and> Code (ICountry j) = Code (ICountry i) \<and> SocksPort j = SocksPort i
     \<and> controlPort j = controlPort i \<and> dynamicPorts j = dynamicPorts i \<and> pendingReplacement j = pendingReplacement i"

lemma minv_launch:
  assumes m: "minv m" and p: "p < nextPtr m" "cmd (heap m p) = None"
    and f: "inst_ok (f (heap m p))" "launched m (heap m p) (f (heap m p))"
  shows "minv (launch f p m)"
proof (rule minvI)
  note inv = minvD [OF m]
  note f2 = f(2) [unfolded launched_def]
  let ?m = "launch f p m"
  have l: "instances ?m = instances m" "nextPtr ?m = nextPtr m" "heap ?m = (heap m)(p := f (heap m p))"
    "mcfg ?m = mcfg m" "allInstances ?m = List.insert p (allInstances m)" "nextCmd ?m = Suc (nextCmd m)"
    "resumeNodes ?m = resumeNodes m" "active ?m = active m"
    by (simp_all add: launch_def)
  have code: "code_of ?m q = code_of m q" for q using f2 by (simp add: code_of_def l)
  have pend: "pendingReplacement (heap ?m q) = pendingReplacement (heap m q)" for q using f2 by (simp add: l)
  show "heap_ok ?m" using inv(1) f(1) by (simp add: heap_ok_def l)
  show "maps_ok ?m" using inv(2) unfolding maps_ok_def code l(1,2) .
  show "pending_ok ?m" using inv(3) unfolding pending_ok_def code pend l(1,2) .
  show "procs_ok ?m" using inv(4) p f2 unfolding procs_ok_def
    by (auto simp: l less_Suc_eq split: if_splits)
  show "countries_ok ?m" using inv(5) by (simp add: countries_ok_def l)
  show "ports_ok ?m" using inv(6) f2 by (simp add: ports_ok_def port_of_def l)
  show "resume_ok ?m" "active_ok ?m" using inv(7,8) by (simp_all add: resume_ok_def active_ok_def l)
qed

lemma minv_prepare [keeps_minv]: "minv m \<Longrightarrow> minv (fst (prepareTorCommand e p dir m))"
proof -
  assume m: "minv m"
  have d: "minv (modify p (\<lambda>i. i\<lparr>dataDir := x\<rparr>) (m\<lparr>dirs := y\<rparr>))" for x y
    by (rule minv_modify_simple) (auto simp: inst_ok_def same_shape_def m minv_world)
  show ?thesis
    unfolding prepareTorCommand_def Let_def
    by (cases "mkData e"; cases "mkLogs e"; cases "writeTorrc e") (simp_all add: m d minv_world)
qed

lemma prepare_frame:
  "prepareTorCommand e p dir m = (m1, r) \<Longrightarrow> frame_of m m1 \<and>
     (\<forall>q. cmd (heap m1 q) = cmd (heap m q) \<and> Status (heap m1 q) = Status (heap m q)
        \<and> draining (heap m1 q) = draining (heap m q) \<and> StartedAt (heap m1 q) = StartedAt (heap m q)
        \<and> pendingReplacement (heap m1 q) = pendingReplacement (heap m q)) \<and> mcfg m1 = mcfg m
        \<and> shuttingDown m1 = shuttingDown m"
  by (auto simp: prepareTorCommand_def Let_def frame_of_def split: option.splits if_splits)

lemma minv_removeDir [keeps_minv]: "minv m \<Longrightarrow> minv (removeInstanceDir e dir m)"
  by (simp add: removeInstanceDir_def minv_world)

lemma minv_releasePort [keeps_minv]: "minv m \<Longrightarrow> minv (releaseReservedPort x m)"
  by (simp add: releaseReservedPort_def minv_world)

lemma minv_releasePorts [keeps_minv]: "minv m \<Longrightarrow> minv (releaseInstancePorts p m)"
  by (simp add: releaseInstancePorts_def minv_releasePort)

lemma started_ok: "inst_ok i \<Longrightarrow> inst_ok (started t c i)"
  by (auto simp: inst_ok_def started_def)

lemma launched_started: "launched m i (started t (nextCmd m) i)"
  by (simp add: launched_def started_def)

lemma minv_start_section [keeps_minv]:
  assumes m: "minv m" shows "minv (fst (start_section e code m))"
proof (cases "map_of (instances m) code")
  case None
  with m show ?thesis by (simp add: start_section_def)
next
  case (Some p)
  let ?d = "path_join [StateDir (mcfg m), code]"
  obtain m1 r where pr: "prepareTorCommand e p ?d m = (m1, r)" by fastforce
  have m1: "minv m1" using minv_prepare [OF m, of e p ?d] pr by simp
  note fr = prepare_frame [OF pr, unfolded frame_of_def]
  have p: "p < nextPtr m" using instances_lookup [OF minvD(2) [OF m] Some] by simp
  show ?thesis
  proof (cases "Status (heap m p) \<in> {Starting, Connecting, Running, Switching, Draining} \<or> cmd (heap m p) \<noteq> None")
    case True
    with m Some show ?thesis by (auto simp: start_section_def Let_def)
  next
    case False
    have e1: "minv (removeInstanceDir e ?d m1)"
      and e2: "minv (removeInstanceDir e ?d (modify p (\<lambda>i. i\<lparr>Status := Errored, Error := x\<rparr>) m1))" for x
      by (auto intro!: minv_removeDir minv_modify_simple [OF m1] simp: m1 inst_ok_def same_shape_def)
    have l: "minv (launch (started (now e) (nextCmd m1)) p m1)"
    proof (rule minv_launch [OF m1])
      show "p < nextPtr m1" "cmd (heap m1 p) = None" using p False fr by simp_all
    qed (rule started_ok [OF inst_okD [OF m1]], rule launched_started)
    show ?thesis
      using False Some pr e1 e2 l by (cases r; cases "startProcess e") (simp_all add: start_section_def)
  qed
qed

lemma minv_watch_exit [keeps_minv]:
  assumes m: "minv m" shows "minv (fst (watch_exit err p c m))"
proof (cases "cmd (heap m p) = Some c")
  case False
  with m show ?thesis by (simp add: watch_exit_def)
next
  case True
  let ?m = "(modify p (exited err) m)\<lparr>allInstances := removeAll p (allInstances m)\<rparr>"
  note inv = minvD [OF m]
  have x: "cmd (exited err i) = None" "Code (ICountry (exited err i)) = Code (ICountry i)"
    "pendingReplacement (exited err i) = pendingReplacement i" "SocksPort (exited err i) = SocksPort i"
    "controlPort (exited err i) = controlPort i" "dynamicPorts (exited err i) = dynamicPorts i" for i
    by (simp_all add: exited_def)
  have h: "heap ?m = (heap m)(p := exited err (heap m p))" by simp
  have code: "code_of ?m q = code_of m q" for q by (simp add: code_of_def x)
  have pend: "pendingReplacement (heap ?m q) = pendingReplacement (heap m q)" for q by (simp add: x)
  have "minv ?m"
  proof (rule minvI)
    show "heap_ok ?m" using inv(1) by (auto simp: heap_ok_def inst_ok_def exited_def split: option.splits)
    show "maps_ok ?m" using inv(2) unfolding maps_ok_def code by simp
    show "pending_ok ?m" using inv(3) unfolding pending_ok_def code pend by simp
    show "procs_ok ?m" using inv(4) unfolding procs_ok_def h by (auto simp: x split: if_splits)
    show "countries_ok ?m" "resume_ok ?m" "active_ok ?m"
      using inv(5,7,8) by (simp_all add: countries_ok_def resume_ok_def active_ok_def)
    show "ports_ok ?m" using inv(6) by (simp add: ports_ok_def port_of_def x)
  qed
  with True show ?thesis by (simp add: watch_exit_def)
qed

section \<open>Restarts and readiness\<close>

lemma minv_clear_active_if [keeps_minv]: "minv m \<Longrightarrow> minv (clear_active_if b code m)"
  by (simp add: clear_active_if_def minv_clear_active)

lemma minv_schedule [keeps_minv]: "minv m \<Longrightarrow> minv (fst (scheduleAutoRestartLocked p reason m))"
  using inst_okD [of m p]
  by (auto simp: scheduleAutoRestartLocked_def Let_def autoRestartEligibleLocked_def inst_ok_def same_shape_def
      intro!: minv_spawn minv_modify)

lemma minv_set_error [keeps_minv]: "minv m \<Longrightarrow> minv (modify p (\<lambda>i. i\<lparr>Error := x i\<rparr>) m)"
  by (rule minv_modify_simple) (simp_all add: inst_ok_def same_shape_def)

lemma minv_watch_restart [keeps_minv]: "minv m \<Longrightarrow> minv (watch_restart p m)"
proof -
  assume m: "minv m"
  define s where "s = (if draining (heap m p) then (m, False) else scheduleAutoRestartLocked p (Error (heap m p)) m)"
  have "minv (fst s)" using m minv_schedule [OF m] by (simp add: s_def)
  then show ?thesis
    unfolding watch_restart_def s_def [symmetric] Let_def
    by (auto simp: split_beta intro!: minv_clear_active_if minv_set_error)
qed

lemma minv_restart_check [keeps_minv]: "minv m \<Longrightarrow> minv (fst (restart_check p attempt m))"
  by (auto simp: restart_check_def inst_ok_def same_shape_def intro!: minv_modify_simple)

lemma minv_restart_failed [keeps_minv]: "minv m \<Longrightarrow> minv (restart_failed p err m)"
  using minv_schedule [of m p "''automatic restart failed: '' @ err"]
  by (auto simp: restart_failed_def Let_def split_beta intro!: minv_clear_active_if minv_set_error)

lemma minv_failInstance [keeps_minv]: "minv m \<Longrightarrow> minv (failInstance e p c msg m)"
  by (auto simp: failInstance_def inst_ok_def same_shape_def intro!: minv_signalProcess minv_modify_simple)

lemma minv_ready [keeps_minv]: "minv m \<Longrightarrow> minv (fst (ready_section p c m))"
  using inst_okD [of m p]
  by (auto simp: ready_section_def inst_ok_def same_shape_def intro!: minv_modify)

lemma minv_progress [keeps_minv]: "minv m \<Longrightarrow> 0 \<le> n \<Longrightarrow> n \<le> 100 \<Longrightarrow> minv (set_progress p n m)"
  by (auto simp: set_progress_def inst_ok_def same_shape_def intro!: minv_modify_simple)

lemma minv_refreshProgress [keeps_minv]: "minv m \<Longrightarrow> minv (refreshBootstrapProgress r p m)"
  by (auto simp: refreshBootstrapProgress_def minv_progress parseBootstrapProgress_range split: sum.splits option.splits)

lemma minv_markRunning [keeps_minv]: "minv m \<Longrightarrow> minv (fst (markInstanceRunning p c ip m))"
  using inst_okD [of m p]
  by (auto simp: markInstanceRunning_def inst_ok_def same_shape_def autoRestartLimit_def intro!: minv_modify)

lemma minv_rotation [keeps_minv]: "minv m \<Longrightarrow> minv (startCircuitRotation p m)"
  by (auto simp: startCircuitRotation_def Let_def inst_ok_def same_shape_def
      intro!: minv_spawn minv_world minv_modify_simple minv_cancel_rotation)

lemma minv_rotation_tick [keeps_minv]: "minv m \<Longrightarrow> minv (fst (rotation_tick p ctx m))"
  by (simp add: rotation_tick_def minv_world)

lemma minv_store_info [keeps_minv]: "minv m \<Longrightarrow> minv (store_info p ip info m)"
  by (auto simp: store_info_def inst_ok_def same_shape_def intro!: minv_modify_simple)

lemma minv_drain_poll [keeps_minv]: "minv m \<Longrightarrow> minv (drain_poll old p m)"
  using inst_okD [of m p] inst_okD [of m old]
  by (auto simp: drain_poll_def inst_ok_def same_shape_def intro!: minv_modify)

lemma minv_drain_end [keeps_minv]: "minv m \<Longrightarrow> minv (drain_end p m)"
  by (auto simp: drain_end_def inst_ok_def same_shape_def intro!: minv_modify_simple)

lemma minv_acquire [keeps_minv]: "minv m \<Longrightarrow> minv (fst (acquireInstance code m))"
  by (auto simp: acquireInstance_def Let_def inst_ok_def same_shape_def intro!: minv_modify_simple split: option.splits)

lemma minv_release [keeps_minv]: "minv m \<Longrightarrow> minv (releaseInstance p m)"
  using inst_okD [of m p]
  by (auto simp: releaseInstance_def inst_ok_def same_shape_def intro!: minv_modify)

lemma minv_activate [keeps_minv]: "minv m \<Longrightarrow> minv (fst (activate_section code m))"
  by (auto simp: activate_section_def has_key_def intro!: minv_set_active split: option.splits)

lemma minv_choose [keeps_minv]: "minv m \<Longrightarrow> fingerprintPattern (N_Fingerprint node) \<Longrightarrow> minv (choose_node p node m)"
  by (auto simp: choose_node_def inst_ok_def same_shape_def fingerprint_ok_def fingerprint_upper intro!: minv_modify_simple)

lemma minv_retry [keeps_minv]: "minv m \<Longrightarrow> minv (retry_section p m)"
  using inst_okD [of m p]
  by (auto simp: retry_section_def inst_ok_def same_shape_def intro!: minv_spawn minv_modify split: option.splits)

end
