(* ===== verification/Manager_Inv2.thy ===== *)
theory Manager_Inv2
  imports Manager_Inv
begin

text \<open>
  The invariant under the operations that change the shape of the heap: new countries, the
  replacement of a node, and the creation of the manager.
\<close>

section \<open>Association lists\<close>

lemma set_update_snd: "snd ` set (AList.update k v al) \<subseteq> insert v (snd ` set al)"
  by (induction al) auto

lemma set_update_cases: "x \<in> set (AList.update k v al) \<Longrightarrow> x = (k, v) \<or> x \<in> set al"
  by (induction al) (auto split: if_splits)

lemma set_update_other:
  "distinct (map fst al) \<Longrightarrow> (k', v') \<in> set (AList.update k v al) \<Longrightarrow> k' \<noteq> k \<Longrightarrow> (k', v') \<in> set al"
  using set_update_cases by fastforce

lemma fst_set_update: "fst ` set (AList.update k v al) = insert k (fst ` set al)"
  using dom_update [of k v al] by simp

section \<open>Reserving ports\<close>

lemma reserve_frame: "frame_of m (fst (reserve_from n a l m)) \<and> heap (fst (reserve_from n a l m)) = heap m
    \<and> mcfg (fst (reserve_from n a l m)) = mcfg m \<and> shuttingDown (fst (reserve_from n a l m)) = shuttingDown m"
proof (induction n arbitrary: a m)
  case (Suc n)
  show ?case
  proof (cases "l a")
    case (Inr pc)
    obtain port ce where pc: "pc = (port, ce)" by fastforce
    show ?thesis
    proof (cases ce)
      case None
      with Inr pc Suc.IH show ?thesis by (auto simp: Let_def frame_of_def)
    next
      case (Some e)
      with Inr pc show ?thesis by (auto simp: Let_def frame_of_def releaseReservedPort_def)
    qed
  qed (simp add: frame_of_def)
qed (simp add: frame_of_def)

lemma minv_reserve [keeps_minv]: "minv m \<Longrightarrow> minv (fst (reserveLocalPort e m))"
  using reserve_frame [of m 32 0 "listenPort e"] by (auto simp: reserveLocalPort_def intro: minv_frame)

section \<open>Replacement\<close>

lemma minv_restore [keeps_minv]: "minv m \<Longrightarrow> minv (fst (restoreAfterReplacementLocked p msg m))"
proof -
  assume m: "minv m"
  note i = inst_okD [OF m, of p]
  have *: "minv (modify p (\<lambda>i. i\<lparr>replacement := False, replacementPreviousStatus := NoStatus,
             replacementPreviousError := [], pendingReplacement := None, Status := st, Error := err\<rparr>) m)"
    if "online st \<longrightarrow> cmd (heap m p) \<noteq> None" for st err
    using m i that by (intro minv_modify) (auto simp: inst_ok_def same_shape_def)
  show ?thesis
  proof (cases "cmd (heap m p) = None \<or> stopping (heap m p) \<or> draining (heap m p)")
    case True
    then show ?thesis
      unfolding restoreAfterReplacementLocked_def Let_def by (auto intro!: *)
  next
    case False
    then show ?thesis
      unfolding restoreAfterReplacementLocked_def Let_def by (simp add: *)
  qed
qed

lemma minv_replacement_failed [keeps_minv]: "minv m \<Longrightarrow> minv (fst (replacement_failed p r s msg m))"
  by (simp add: replacement_failed_def minv_restore)

definition cancel_section :: "nat \<Rightarrow> Manager \<Rightarrow> Manager \<times> nat option \<times> status" where
  "cancel_section p m = restoreAfterReplacementLocked p []
     (modify p (\<lambda>i. i\<lparr>replacementSequence := replacementSequence i + 1\<rparr>) m)"

lemma minv_cancel_section [keeps_minv]: "minv m \<Longrightarrow> minv (fst (cancel_section p m))"
  unfolding cancel_section_def
  by (intro minv_restore minv_modify_simple) (auto simp: inst_ok_def same_shape_def)

lemma minv_resume [keeps_minv]: "minv m \<Longrightarrow> minv (resumeAfterReplacement p c st m)"
  by (simp add: resumeAfterReplacement_def minv_spawn split: option.splits)

lemma replacement_instance_ok:
  "fingerprintPattern (N_Fingerprint node) \<Longrightarrow> inst_ok (replacement_instance i node port control)"
  by (simp add: inst_ok_def replacement_instance_def zero_instance_def fingerprint_ok_def fingerprint_upper autoRestartLimit_def)

text \<open>A new instance that becomes the pending one of \<open>p\<close>.\<close>

lemma pending_allocated:
  assumes ok: "maps_ok m" "pending_ok m" and p: "map_of (instances m) (code_of m p) = Some p"
    and h: "heap m' = (heap m)(nextPtr m := r', p := i')" "nextPtr m' = Suc (nextPtr m)" "instances m' = instances m"
    and r: "Code (ICountry r') = code_of m p" "pendingReplacement r' = None"
    and i: "ICountry i' = ICountry (heap m p)" "pendingReplacement i' = Some (nextPtr m)"
  shows "pending_ok m'"
  unfolding pending_ok_def
proof (intro allI impI)
  fix x q assume x: "pendingReplacement (heap m' x) = Some q"
  have lt: "p < nextPtr m" using instances_lookup [OF ok(1) p] by simp
  have code: "code_of m' y = code_of m y" if "y < nextPtr m" for y using that i by (simp add: code_of_def h)
  have new: "code_of m' (nextPtr m) = code_of m p" using lt r by (simp add: code_of_def h)
  show "q < nextPtr m' \<and> code_of m' q = code_of m' x \<and> q \<notin> snd ` set (instances m')
      \<and> map_of (instances m') (code_of m' x) = Some x"
  proof (cases "x = p")
    case True
    with x i have "q = nextPtr m" by (simp add: h)
    moreover have "nextPtr m \<notin> snd ` set (instances m)" using ok(1) by (fastforce simp: maps_ok_def)
    ultimately show ?thesis using True p lt code new by (simp add: h)
  next
    case False
    with x r have "pendingReplacement (heap m x) = Some q" by (auto simp: h split: if_splits)
    with ok(2) have q: "q < nextPtr m" "code_of m q = code_of m x" "q \<notin> snd ` set (instances m)"
      "map_of (instances m) (code_of m x) = Some x" unfolding pending_ok_def by blast+
    moreover have "x < nextPtr m" using q(4) instances_lookup [OF ok(1)] by blast
    ultimately show ?thesis using code by (simp add: h)
  qed
qed

lemma minv_replace_section [keeps_minv]:
  assumes m: "minv m" and fp: "fingerprintPattern (N_Fingerprint node)"
  shows "minv (fst (replace_section p node port control m))"
proof (cases "map_of (instances m) (code_of m p) \<noteq> Some p \<or> cmd (heap m p) = None \<or> stopping (heap m p) \<or> draining (heap m p)")
  case True
  with m show ?thesis by (auto simp: replace_section_def code_of_def Let_def)
next
  case False
  note inv = minvD [OF m]
  let ?m = "fst (replace_section p node port control m)" and ?r = "nextPtr m"
  define i' where "i' = (heap m p)\<lparr>
      replacementPreviousStatus := (if replacement (heap m p) then replacementPreviousStatus (heap m p) else Status (heap m p)),
      replacementPreviousError := (if replacement (heap m p) then replacementPreviousError (heap m p) else Error (heap m p)),
      replacementSequence := replacementSequence (heap m p) + 1, replacement := True, Status := Switching,
      pendingReplacement := Some ?r\<rparr>"
  define r' where "r' = replacement_instance (heap m p) node port control"
  have p: "p < nextPtr m" using instances_lookup [OF inv(2), of "code_of m p" p] False by simp
  have h: "heap ?m = (heap m)(?r := r', p := i')" "nextPtr ?m = Suc ?r" "instances ?m = instances m"
    "allInstances ?m = allInstances m" "nextCmd ?m = nextCmd m" "mcfg ?m = mcfg m" "resumeNodes ?m = resumeNodes m"
    "active ?m = active m"
    using False p by (auto simp: replace_section_def code_of_def Let_def allocate_def i'_def r'_def)
  have r: "cmd r' = None" "Code (ICountry r') = code_of m p" "dynamicPorts r'" "pendingReplacement r' = None"
    by (simp_all add: r'_def replacement_instance_def code_of_def zero_instance_def)
  have i: "cmd i' = cmd (heap m p)" "ICountry i' = ICountry (heap m p)" "SocksPort i' = SocksPort (heap m p)"
    "controlPort i' = controlPort (heap m p)" "dynamicPorts i' = dynamicPorts (heap m p)" "pendingReplacement i' = Some ?r"
    by (simp_all add: i'_def)
  have code: "code_of ?m q = code_of m q" if "q < ?r" for q
    using that i by (simp add: code_of_def h)
  show ?thesis
  proof (rule minvI)
    show "heap_ok ?m"
      using inv(1) False replacement_instance_ok [OF fp, of "heap m p" port control]
      by (simp add: heap_ok_def h r'_def i'_def inst_ok_def)
    show "maps_ok ?m" using inv(2) code unfolding maps_ok_def h(2,3) by (metis less_SucI)
    show "pending_ok ?m"
      by (rule pending_allocated [OF inv(2,3) _ h(1,2,3) r(2,4) i(2,6)]) (use False in simp)
    show "procs_ok ?m" using inv(4) r(1) i(1) unfolding procs_ok_def
      by (auto simp: h less_Suc_eq split: if_splits)
    show "countries_ok ?m" using inv(5) by (simp add: countries_ok_def h)
    show "ports_ok ?m" using inv(6) r(3) i p by (auto simp: ports_ok_def h port_of_def less_Suc_eq)
    show "resume_ok ?m" "active_ok ?m" using inv(7,8) by (simp_all add: resume_ok_def active_ok_def h)
  qed
qed

text \<open>The pending instance \<open>r\<close> of \<open>p\<close> takes the place of \<open>p\<close>.\<close>

lemma pending_swapped:
  assumes ok: "pending_ok m" and p: "pendingReplacement (heap m p) = Some r" "p \<noteq> r"
    and h: "heap m' = (heap m)(p := p', r := r')" "instances m' = AList.update (code_of m p) r (instances m)" "nextPtr m' = nextPtr m"
    and f: "ICountry p' = ICountry (heap m p)" "pendingReplacement p' = None" "ICountry r' = ICountry (heap m r)"
      "pendingReplacement r' = pendingReplacement (heap m r)"
  shows "pending_ok m'"
  unfolding pending_ok_def
proof (intro allI impI)
  fix x q assume "pendingReplacement (heap m' x) = Some q"
  then have o: "pendingReplacement (heap m x) = Some q" and xp: "x \<noteq> p"
    using f p(2) by (auto simp: h split: if_splits)
  have pr: "code_of m r = code_of m p" "map_of (instances m) (code_of m p) = Some p"
    using ok p(1) unfolding pending_ok_def by blast+
  have code: "code_of m' y = code_of m y" for y using f by (simp add: code_of_def h)
  from o ok have q: "q < nextPtr m" "code_of m q = code_of m x" "q \<notin> snd ` set (instances m)"
    "map_of (instances m) (code_of m x) = Some x" unfolding pending_ok_def by blast+
  have "code_of m x \<noteq> code_of m p" using q(4) pr(2) xp by auto
  moreover from this have "q \<noteq> r" using q(2) pr(1) by auto
  ultimately show "q < nextPtr m' \<and> code_of m' q = code_of m' x \<and> q \<notin> snd ` set (instances m')
      \<and> map_of (instances m') (code_of m' x) = Some x"
    using q set_update_snd [of "code_of m p" r "instances m"] by (auto simp: h code)
qed

lemma minv_swap_section [keeps_minv]:
  assumes m: "minv m"
  shows "minv (fst (swap_section p r activate s m))"
proof (cases "map_of (instances m) (code_of m p) \<noteq> Some p \<or> replacementSequence (heap m p) \<noteq> s
      \<or> pendingReplacement (heap m p) \<noteq> Some r")
  case True
  with m show ?thesis by (auto simp: swap_section_def code_of_def Let_def)
next
  case False
  note inv = minvD [OF m]
  let ?m = "fst (swap_section p r activate s m)" and ?c = "code_of m p"
  have pr: "r < nextPtr m" "code_of m r = ?c" "r \<notin> snd ` set (instances m)" "map_of (instances m) ?c = Some p"
    using inv(3) False unfolding pending_ok_def by blast+
  have pp: "p < nextPtr m" "canonical_code ?c" using instances_lookup [OF inv(2) pr(4)] by simp_all
  have "p \<noteq> r" using pr(3,4) by (metis image_eqI map_of_SomeD snd_conv)
  define p' where "p' = (heap m p)\<lparr>replacement := False, replacementPreviousStatus := NoStatus,
     replacementPreviousError := [], pendingReplacement := None, draining := True, Status := Draining\<rparr>"
  define r' where "r' = (heap m r)\<lparr>ActiveConnections := 0, DrainingConnections := ActiveConnections (heap m p)\<rparr>"
  have h: "heap ?m = (heap m)(p := p', r := r')" "instances ?m = AList.update ?c r (instances m)"
    "active ?m = (if activate then ?c else active m)" "nextPtr ?m = nextPtr m" "allInstances ?m = allInstances m"
    "nextCmd ?m = nextCmd m" "mcfg ?m = mcfg m" "resumeNodes ?m = resumeNodes m"
    using False \<open>p \<noteq> r\<close> by (auto simp: swap_section_def code_of_def Let_def p'_def r'_def)
  have f: "cmd p' = cmd (heap m p)" "ICountry p' = ICountry (heap m p)" "SocksPort p' = SocksPort (heap m p)"
    "controlPort p' = controlPort (heap m p)" "dynamicPorts p' = dynamicPorts (heap m p)" "pendingReplacement p' = None"
    "cmd r' = cmd (heap m r)" "ICountry r' = ICountry (heap m r)" "SocksPort r' = SocksPort (heap m r)"
    "controlPort r' = controlPort (heap m r)" "dynamicPorts r' = dynamicPorts (heap m r)"
    "pendingReplacement r' = pendingReplacement (heap m r)"
    by (simp_all add: p'_def r'_def)
  have code: "code_of ?m q = code_of m q" for q using f by (simp add: code_of_def h)
  have dist: "distinct (map fst (instances m))" using inv(2) by (simp add: maps_ok_def)
  show ?thesis
  proof (rule minvI)
    show "heap_ok ?m" using inv(1) by (auto simp: heap_ok_def h p'_def r'_def inst_ok_def)
    show "maps_ok ?m" using inv(2) pr(1,2) pp(2) dist unfolding maps_ok_def code
      by (auto simp: h distinct_update dest!: set_update_cases)
    show "pending_ok ?m" by (rule pending_swapped [OF inv(3) _ \<open>p \<noteq> r\<close> h(1,2,4) f(2,6,8,12)]) (use False in simp)
    have cmds: "cmd (heap ?m q) = cmd (heap m q)" for q using f by (simp add: h)
    show "procs_ok ?m" using inv(4) unfolding procs_ok_def cmds h(4,5,6) .
    have "?c \<in> fst ` set (instances m)" using pr(4) by (rule map_of_SomeD_fst)
    then show "countries_ok ?m" using inv(5) by (simp add: countries_ok_def h fst_set_update insert_absorb)
    show "ports_ok ?m" using inv(6) f by (simp add: ports_ok_def h port_of_def)
    show "resume_ok ?m" using inv(7) by (simp add: resume_ok_def h)
    show "active_ok ?m" using inv(8) by (auto simp: active_ok_def h)
  qed
qed

section \<open>Detached start\<close>

lemma minv_startDetached [keeps_minv]:
  assumes m: "minv m" and p: "p < nextPtr m" "cmd (heap m p) = None" and "stopping (heap m p) = False"
  shows "minv (fst (startDetached e p suffix m))"
proof -
  let ?d = "path_join [StateDir (mcfg m), code_of m p @ ''-'' @ suffix]"
  obtain m1 r where pr: "prepareTorCommand e p ?d m = (m1, r)" by fastforce
  have m1: "minv m1" using minv_prepare [OF m, of e p ?d] pr by simp
  note fr = prepare_frame [OF pr, unfolded frame_of_def]
  note i = inst_okD [OF m1, of p]
  have l: "minv (launch (\<lambda>i. i\<lparr>cmd := Some (nextCmd m1), Status := Starting, BootstrapProgress := 0, StartedAt := now e\<rparr>) p m1)"
  proof (rule minv_launch [OF m1])
    show "p < nextPtr m1" "cmd (heap m1 p) = None" using p fr by simp_all
  qed (use i in \<open>auto simp: inst_ok_def launched_def\<close>)
  have d: "minv (removeInstanceDir e ?d (releaseInstancePorts p m1))" by (intro keeps_minv m1)
  show ?thesis
    unfolding startDetached_def Let_def pr
    by (cases r; cases "startProcess e") (use l d in \<open>simp_all add: minv_spawn\<close>)
qed

section \<open>New countries\<close>

lemma configured_instance_ok: "inst_ok (configured_instance c k country)"
  by (simp add: configured_instance_def inst_ok_def zero_instance_def fingerprint_ok_def autoRestartLimit_def)

lemma configured_instance_simps [simp]:
  "cmd (configured_instance c k x) = None" "pendingReplacement (configured_instance c k x) = None"
  "dynamicPorts (configured_instance c k x) = False" "ICountry (configured_instance c k x) = x"
  by (simp_all add: configured_instance_def zero_instance_def)

text \<open>The part of the invariant that does not depend on the configured countries.\<close>

definition core_ok :: "Manager \<Rightarrow> bool" where
  "core_ok m \<longleftrightarrow> heap_ok m \<and> maps_ok m \<and> pending_ok m \<and> procs_ok m"

lemma core_config: "core_ok (m\<lparr>mcfg := c\<rparr>) = core_ok m"
  by (simp add: core_ok_def heap_ok_def maps_ok_def pending_ok_def procs_ok_def code_of_def)

lemma add_instance_core:
  assumes m: "core_ok m" and new: "\<not> has_key (instances m) code" and c: "canonical_code code"
    and i: "inst_ok i" "cmd i = None" "pendingReplacement i = None" "Code (ICountry i) = code"
  shows "core_ok (add_instance code i m)"
proof -
  let ?m = "add_instance code i m" and ?r = "nextPtr m"
  have inv: "heap_ok m" "maps_ok m" "pending_ok m" "procs_ok m" using m by (simp_all add: core_ok_def)
  have h: "heap ?m = (heap m)(?r := i)" "nextPtr ?m = Suc ?r" "instances ?m = AList.update code ?r (instances m)"
    "allInstances ?m = List.insert ?r (allInstances m)" "nextCmd ?m = nextCmd m"
    by (simp_all add: add_instance_def allocate_def)
  have code: "code_of ?m q = code_of m q" if "q < ?r" for q using that by (simp add: code_of_def h)
  have coder: "code_of ?m ?r = code" using i by (simp add: code_of_def h)
  have "heap_ok ?m" using inv(1) i by (simp add: heap_ok_def h)
  moreover have "maps_ok ?m"
    unfolding maps_ok_def h(2,3)
  proof (intro conjI allI impI)
    show "distinct (map fst (AList.update code ?r (instances m)))" using inv(2) by (simp add: maps_ok_def distinct_update)
  next
    fix k q assume "(k, q) \<in> set (AList.update code ?r (instances m))"
    then consider "k = code" "q = ?r" | "(k, q) \<in> set (instances m)" using set_update_cases by fastforce
    then have "q < Suc ?r \<and> code_of ?m q = k \<and> canonical_code k"
      using inv(2) c coder code by cases (auto simp: maps_ok_def less_Suc_eq)
    then show "q < Suc ?r" "code_of ?m q = k" "canonical_code k" by simp_all
  qed
  moreover have "pending_ok ?m"
    unfolding pending_ok_def
  proof (intro allI impI)
    fix x q assume "pendingReplacement (heap ?m x) = Some q"
    then have "pendingReplacement (heap m x) = Some q" using i by (auto simp: h split: if_splits)
    then have q: "q < ?r" "code_of m q = code_of m x" "q \<notin> snd ` set (instances m)"
      "map_of (instances m) (code_of m x) = Some x" using inv(3) unfolding pending_ok_def by blast+
    then have "x < ?r" "code_of m x \<noteq> code"
      using instances_lookup [OF inv(2) q(4)] new by (auto simp: has_key_def)
    with q show "q < nextPtr ?m \<and> code_of ?m q = code_of ?m x \<and> q \<notin> snd ` set (instances ?m)
        \<and> map_of (instances ?m) (code_of ?m x) = Some x"
      using code set_update_snd [of code ?r "instances m"] by (auto simp: h)
  qed
  moreover have "procs_ok ?m"
    using inv(4) i(2) unfolding procs_ok_def by (auto simp: h less_Suc_eq split: if_splits)
  ultimately show ?thesis by (simp add: core_ok_def)
qed

lemma port_of_extend:
  "port_of c i \<Longrightarrow> port_of (c\<lparr>Countries := Countries c @ [x]\<rparr>) i"
  unfolding port_of_def codes_of_def by (force simp: nth_append)

lemma minv_new_country:
  fixes country code
  assumes m: "minv m" and can: "canonical_code code" and new: "map_of (instances m) code = None"
  defines "x \<equiv> country\<lparr>Code := code\<rparr>"
  shows "minv ((add_instance code (configured_instance (mcfg m) (length (Countries (mcfg m))) x) m)
    \<lparr>mcfg := (mcfg m)\<lparr>Countries := Countries (mcfg m) @ [x]\<rparr>\<rparr>)" (is "minv ?m")
proof -
  note inv = minvD [OF m]
  let ?n = "length (Countries (mcfg m))"
  let ?i = "configured_instance (mcfg m) ?n x" and ?c = "(mcfg m)\<lparr>Countries := Countries (mcfg m) @ [x]\<rparr>"
  have "core_ok (add_instance code ?i m)"
    using m new can by (intro add_instance_core) (simp_all add: core_ok_def minv_def has_key_def configured_instance_ok x_def)
  then have core: "core_ok ?m" unfolding core_config .
  have h: "heap ?m = (heap m)(nextPtr m := ?i)" "nextPtr ?m = Suc (nextPtr m)"
    "instances ?m = AList.update code (nextPtr m) (instances m)" "mcfg ?m = ?c"
    "resumeNodes ?m = resumeNodes m" "active ?m = active m"
    by (simp_all add: add_instance_def allocate_def)
  have codes: "codes_of ?c = codes_of (mcfg m) @ [code]" using can by (simp add: codes_of_def x_def)
  show ?thesis
  proof (rule minvI)
    show "heap_ok ?m" "maps_ok ?m" "pending_ok ?m" "procs_ok ?m" using core by (simp_all add: core_ok_def)
    have "code \<notin> fst ` set (instances m)" using new by (simp add: map_of_eq_None_iff)
    then show "countries_ok ?m" using inv(5) can by (auto simp: countries_ok_def h codes fst_set_update)
    have "port_of ?c ?i"
      unfolding port_of_def codes
      by (intro exI [of _ ?n]) (simp add: codes_of_def nth_append configured_instance_def zero_instance_def x_def)
    then show "ports_ok ?m" using inv(6) by (auto simp: ports_ok_def h less_Suc_eq port_of_extend)
    show "resume_ok ?m" using inv(7) by (simp add: resume_ok_def h)
    show "active_ok ?m" using inv(8) by (auto simp: active_ok_def h)
  qed
qed

lemma minv_ensureCountry [keeps_minv]:
  assumes m: "minv m" shows "minv (fst (ensureCountry country m))"
proof -
  let ?code = "normalizeCode (Code country)"
  consider (bad) "\<not> countryCodePattern ?code" | (known) p where "countryCodePattern ?code" "map_of (instances m) ?code = Some p"
    | (full) "countryCodePattern ?code" "map_of (instances m) ?code = None"
        "wrap64 (BaseSocksPort (mcfg m) + int (length (Countries (mcfg m)))) \<ge> 65535"
    | (new) "countryCodePattern ?code" "map_of (instances m) ?code = None"
        "\<not> wrap64 (BaseSocksPort (mcfg m) + int (length (Countries (mcfg m)))) \<ge> 65535"
    by (cases "map_of (instances m) ?code") auto
  then show ?thesis
  proof cases
    case bad
    with m show ?thesis by (simp add: ensureCountry_def Let_def)
  next
    case known
    have "minv (modify p (\<lambda>i. i\<lparr>ICountry := (ICountry i)\<lparr>Name := n\<rparr>\<rparr>) m)" for n
      by (rule minv_modify_simple [OF m]) (simp_all add: inst_ok_def same_shape_def)
    with known m show ?thesis by (simp add: ensureCountry_def Let_def)
  next
    case full
    with m show ?thesis by (simp add: ensureCountry_def Let_def)
  next
    case new
    then have "fst (ensureCountry country m) = (add_instance ?code (configured_instance (mcfg m) (length (Countries (mcfg m)))
          (country\<lparr>Code := ?code\<rparr>)) m)\<lparr>mcfg := (mcfg m)\<lparr>Countries := Countries (mcfg m) @ [country\<lparr>Code := ?code\<rparr>]\<rparr>\<rparr>"
      by (simp add: ensureCountry_def Let_def)
    with minv_new_country [OF m normalizeCode_pattern [OF new(1)] new(2)] show ?thesis by simp
  qed
qed

section \<open>Creation\<close>

text \<open>The state after the first \<open>k\<close> configured countries.\<close>

definition built :: "Config \<Rightarrow> nat \<Rightarrow> Manager \<Rightarrow> bool" where
  "built c k m \<longleftrightarrow> core_ok m \<and> mcfg m = c \<and> fst ` set (instances m) = set (take k (codes_of c))
     \<and> ports_ok m \<and> resumeNodes m = [] \<and> active m = [] \<and> resumeActive m = []"

lemma built_step:
  assumes b: "built c k m" and k: "k < length (Countries c)" and x: "Countries c ! k = x"
    and d: "distinct (codes_of c)" "list_all canonical_code (codes_of c)"
  shows "built c (Suc k) (add_instance (normalizeCode (Code x)) (configured_instance c k (x\<lparr>Code := normalizeCode (Code x)\<rparr>)) m)"
proof -
  let ?code = "normalizeCode (Code x)" and ?r = "nextPtr m"
  let ?i = "configured_instance c k (x\<lparr>Code := ?code\<rparr>)"
  let ?m = "add_instance ?code ?i m"
  have nth: "codes_of c ! k = ?code" "k < length (codes_of c)" using k x by (simp_all add: codes_of_def)
  then have can: "canonical_code ?code" using d(2) by (metis list_all_length)
  have "?code \<notin> set (take k (codes_of c))"
    using d(1) nth distinct_take [of "codes_of c" "Suc k"] by (simp add: take_Suc_conv_app_nth)
  then have new: "\<not> has_key (instances m) ?code" using b by (simp add: built_def has_key_iff)
  have h: "heap ?m = (heap m)(?r := ?i)" "nextPtr ?m = Suc ?r" "instances ?m = AList.update ?code ?r (instances m)"
    "mcfg ?m = mcfg m" "resumeNodes ?m = resumeNodes m" "active ?m = active m" "resumeActive ?m = resumeActive m"
    by (simp_all add: add_instance_def allocate_def)
  have "core_ok ?m" using b can new by (intro add_instance_core) (simp_all add: built_def configured_instance_ok)
  moreover have "port_of c ?i"
    using nth k unfolding port_of_def by (intro exI [of _ k]) (simp add: configured_instance_def zero_instance_def)
  then have "ports_ok ?m" using b by (auto simp: built_def ports_ok_def h less_Suc_eq)
  moreover have "fst ` set (instances ?m) = set (take (Suc k) (codes_of c))"
    using b nth by (simp add: built_def h fst_set_update take_Suc_conv_app_nth)
  ultimately show ?thesis using b by (simp add: built_def h)
qed

lemma built_all:
  assumes "built c k m" and "drop k (Countries c) = xs" and "k \<le> length (Countries c)"
    and "distinct (codes_of c)" "list_all canonical_code (codes_of c)"
  shows "built c (length (Countries c)) (add_configured c k xs m)"
  using assms
proof (induction xs arbitrary: k m)
  case Nil
  then show ?case by simp
next
  case (Cons x xs)
  have k: "k < length (Countries c)" using Cons.prems(2) by (metis drop_eq_Nil list.discI not_less)
  have "Countries c ! k # drop (Suc k) (Countries c) = x # xs"
    using k Cons.prems(2) by (simp add: Cons_nth_drop_Suc)
  then have k: "k < length (Countries c)" "Countries c ! k = x" "drop (Suc k) (Countries c) = xs" using k by simp_all
  show ?case
    using Cons.IH [OF built_step [OF Cons.prems(1) k(1,2) Cons.prems(4,5)] k(3)] k(1) Cons.prems(4,5)
    by (simp add: Let_def)
qed

lemma built_minv:
  assumes "built c (length (Countries c)) m" "distinct (codes_of c)" "list_all canonical_code (codes_of c)" "range_ok c"
  shows "minv m"
proof -
  have "take (length (Countries c)) (codes_of c) = codes_of c" by (simp add: codes_of_def)
  with assms show ?thesis
    by (auto simp: built_def core_ok_def minv_def countries_ok_def resume_ok_def active_ok_def)
qed

lemma empty_built: "built c 0 (empty_manager c f)"
  by (simp add: built_def core_ok_def empty_manager_def heap_ok_def maps_ok_def pending_ok_def procs_ok_def ports_ok_def
      inst_ok_def zero_instance_def fingerprint_ok_def autoRestartLimit_def)

lemma load_node_keeps [keeps_minv]: "minv m \<Longrightarrow> minv (load_node node m)"
proof -
  assume m: "minv m"
  let ?code = "normalizeCode (Code (P_Country node))"
  let ?n = "node\<lparr>P_Country := (P_Country node)\<lparr>Code := ?code\<rparr>, P_ExitFingerprint := to_upper (P_ExitFingerprint node)\<rparr>"
  show ?thesis
  proof (cases "countryCodePattern ?code \<and> (P_ExitFingerprint node = [] \<or> fingerprintPattern (P_ExitFingerprint node))")
    case True
    have "fingerprint_ok (to_upper (P_ExitFingerprint node))"
      using True by (auto simp: fingerprint_ok_def fingerprint_upper)
    then have "node_ok (?code, ?n)" using True by (simp add: node_ok_def normalizeCode_pattern)
    with True m show ?thesis
      by (auto simp: load_node_def Let_def minv_def inv_parts distinct_update update_node_ok)
  next
    case False
    with m show ?thesis by (auto simp: load_node_def Let_def)
  qed
qed

lemma load_nodes_keep: "minv m \<Longrightarrow> minv (fold load_node ns m)"
  by (induction ns arbitrary: m) (simp_all add: load_node_keeps)

lemma load_node_other: "mcfg (load_node n m) = mcfg m" "active (load_node n m) = active m"
  "resumeActive (load_node n m) = resumeActive m" "heap (load_node n m) = heap m" "instances (load_node n m) = instances m"
  by (simp_all add: load_node_def Let_def)

lemma valid_codes:
  "validate c = None \<Longrightarrow> distinct (codes_of c) \<and> list_all canonical_code (codes_of c)"
  using validate_countries [of c] by (auto simp: codes_of_def list_all_iff pattern_normalizeCode)

text \<open>The state in which the manager begins to serve: created, with the active country of the last
  run, as the first part of Restore leaves it.\<close>

definition restored_manager :: "Config \<Rightarrow> bool \<Rightarrow> persistedManagerState file_state \<Rightarrow> Manager" where
  "restored_manager c readable f = (NewManager c readable f)\<lparr>active := resumeActive (NewManager c readable f)\<rparr>"

lemma minv_resumeActive: "minv m \<Longrightarrow> minv (m\<lparr>resumeActive := x\<rparr>)"
  by (erule minv_frame) (simp_all add: frame_of_def)

lemma minv_resumed: "minv m \<Longrightarrow> x = [] \<or> has_key (resumeNodes m) x \<Longrightarrow> minv (m\<lparr>active := x\<rparr>)"
  by (simp add: minv_def inv_parts) blast

lemma restored_minv:
  assumes "validate c = None" "port_sums_fit c" shows "minv (restored_manager c readable f)"
proof -
  note d = valid_codes [OF assms(1)]
  have "range_ok c" using validate_ports [OF assms] by (simp add: range_ok_def)
  let ?a = "add_configured c 0 (Countries c) (empty_manager c f)"
  have b: "built c (length (Countries c)) ?a" using d by (intro built_all [OF empty_built]) simp_all
  then have a: "minv ?a" using built_minv [OF b] d \<open>range_ok c\<close> by simp
  have r: "resumeActive ?a = []" using b by (simp add: built_def)
  have r': "resumeActive (fold load_node ns m) = resumeActive m" for ns m
    by (induction ns arbitrary: m) (simp_all add: load_node_other)
  have n: "minv (NewManager c readable f)"
    using a load_nodes_keep [OF a] minv_resumeActive [OF load_nodes_keep [OF a]]
    by (cases "stateFile ?a") (simp_all add: NewManager_def loadRuntimeState_def Let_def)
  moreover have "resumeActive (NewManager c readable f) = [] \<or>
      has_key (resumeNodes (NewManager c readable f)) (resumeActive (NewManager c readable f))"
    by (cases "stateFile ?a") (simp_all add: NewManager_def loadRuntimeState_def Let_def r r')
  ultimately show ?thesis unfolding restored_manager_def by (rule minv_resumed)
qed

end
