(* ===== verification/Manager_Steps.thy ===== *)
theory Manager_Steps
  imports Manager_Inv2 Client_Routes
begin

text \<open>
  The manager as a transition system.  A step is one critical section of one operation or goroutine
  (everything the code does between taking and giving back a lock), with whatever the environment
  answers; so a run of the system is any interleaving of any number of operations and goroutines.
  A section may run for any arguments that its caller can pass; where the caller checks something
  before, and no other goroutine can undo the check, it is a premise:

  \<^item> Start checks \<^verbatim>\<open>shuttingDown\<close> and replaceNode does too, both under \<^verbatim>\<open>startMu\<close>, which Shutdown
    holds to set the flag;
  \<^item> startNode checks the fingerprint of the node, and loadRuntimeState those of the nodes that Restore
    starts; nobody changes them;
  \<^item> EnsureCountryProxy registers a listener only for a call that has passed its checks; it may find the
    context done by then;
  \<^item> completeReplacement remembers the new instance after it gave back the lock; by then another replacement
    may have taken its place in the map, but the country is still known.

  The end of the context of the proxies is a step, its begin is not: main calls StartCountryProxies once,
  before everything else.
\<close>

inductive mstep :: "Manager \<Rightarrow> Manager \<Rightarrow> bool" where
  s_ensure: "mstep m (fst (ensureCountry country m))"
| s_choose: "fingerprintPattern (N_Fingerprint node) \<Longrightarrow> mstep m (choose_node p node m)"
| s_restore_node: "fingerprint_ok (P_ExitFingerprint (node :: PersistedNode)) \<Longrightarrow>
    mstep m (modify p (\<lambda>i. i\<lparr>SelectedIP := P_SelectedIP node, SelectedNode := P_SelectedNode node,
      ExitFingerprint := P_ExitFingerprint node\<rparr>) m)"
| s_start: "\<not> shuttingDown m \<Longrightarrow> mstep m (fst (start_section e code m))"
| s_remember: "map_of (instances m) code = Some p \<Longrightarrow> mstep m (remember_node p m)"
| s_remember_swapped: "has_key (instances m) (code_of m p) \<Longrightarrow> mstep m (remember_node p m)"
| s_save: "mstep m (saveRuntimeState e m)"
| s_forget: "mstep m (forget_node code m)"
| s_spawn: "mstep m (spawn t m)"
| s_stop: "map_of (instances m) code = Some p \<Longrightarrow> mstep m (fst (stop_section code p m))"
| s_stop_instance: "mstep m (stopInstance e p m)"
| s_kill: "mstep m (kill_later p c m)"
| s_exit: "mstep m (fst (watch_exit err p c m))"
| s_release_ports: "mstep m (releaseInstancePorts p m)"
| s_remove_dir: "mstep m (removeInstanceDir e dir m)"
| s_watch_restart: "mstep m (watch_restart p m)"
| s_restart_check: "mstep m (fst (restart_check p attempt m))"
| s_restart_failed: "mstep m (restart_failed p err m)"
| s_fail: "mstep m (failInstance e p c message m)"
| s_ready: "mstep m (fst (ready_section p c m))"
| s_progress: "mstep m (refreshBootstrapProgress response p m)"
| s_running: "mstep m (fst (markInstanceRunning p c ip m))"
| s_rotation: "mstep m (startCircuitRotation p m)"
| s_rotation_tick: "mstep m (fst (rotation_tick p ctx m))"
| s_info: "mstep m (store_info p ip info m)"
| s_drain_poll: "mstep m (drain_poll old p m)"
| s_drain_end: "mstep m (drain_end p m)"
| s_acquire: "mstep m (fst (acquireInstance code m))"
| s_release: "mstep m (releaseInstance p m)"
| s_activate: "mstep m (fst (activate_section code m))"
| s_activate_running: "map_of (instances m) code = Some p \<Longrightarrow> mstep m (m\<lparr>active := code\<rparr>)"
| s_limit: "mstep m (m\<lparr>mcfg := (mcfg m)\<lparr>MaxRunning := limit\<rparr>\<rparr>)"
| s_rotate_minutes: "mstep m (m\<lparr>mcfg := (mcfg m)\<lparr>CircuitRotateMinutes := minutes\<rparr>\<rparr>)"
| s_upstream: "mstep m (m\<lparr>mcfg := (mcfg m)\<lparr>UpstreamSOCKS5 := a, UpstreamUsername := u, UpstreamPassword := w\<rparr>\<rparr>)"
| s_retry: "mstep m (retry_section p m)"
| s_reserve: "mstep m (fst (reserveLocalPort e m))"
| s_release_port: "mstep m (releaseReservedPort port m)"
| s_replace: "\<not> shuttingDown m \<Longrightarrow> fingerprintPattern (N_Fingerprint node) \<Longrightarrow>
    mstep m (fst (replace_section p node port control m))"
| s_detached: "\<not> shuttingDown m \<Longrightarrow> p < nextPtr m \<Longrightarrow> cmd (heap m p) = None \<Longrightarrow>
    mstep m (fst (startDetached e p suffix m))"
| s_replacement_failed: "mstep m (fst (replacement_failed p r sequence message m))"
| s_cancel: "replacement (heap m p) \<Longrightarrow> pendingReplacement (heap m p) = Some r \<Longrightarrow> mstep m (fst (cancel_section p m))"
| s_resume: "mstep m (resumeAfterReplacement p c st m)"
| s_swap: "mstep m (fst (swap_section p r activate sequence m))"
| s_cleanup: "mstep m (fst (CleanupStaleInstanceDirs scan remove m))"
| s_client_key: "mstep m (UpdateClientAPIKey k m)"
| s_country_check: "countryPort (CountryProxyPort (mcfg m)) code = Inr port \<Longrightarrow> mstep m (fst (country_check code port m))"
| s_listening: "(code, port) \<in> set (beingOpened m) \<Longrightarrow> mstep m (country_listening code port m)"
| s_not_listening: "(code, port) \<in> set (beingOpened m) \<Longrightarrow> mstep m (country_not_listening code port m)"
| s_proxies_cancelled: "mstep m (proxies_cancelled m)"
| s_close_listeners: "mstep m (close_listeners m)"
| s_shutdown: "mstep m (begin_shutdown m)"

inductive_simps mstep_simps: "mstep m m'"
inductive_cases mstep_cases: "mstep m m'"

definition minit :: "Manager \<Rightarrow> bool" where
  "minit m \<longleftrightarrow> (\<exists>c readable f. validate c = None \<and> port_sums_fit c
     \<and> (m = restored_manager c readable f \<or> m = StartCountryProxies (restored_manager c readable f)))"

section \<open>Every step keeps the invariant\<close>

lemma stopping_no_cmd: "minv m \<Longrightarrow> cmd (heap m p) = None \<Longrightarrow> \<not> stopping (heap m p)"
  using inst_okD [of m p] by (auto simp: inst_ok_def)

lemma minv_restore_node:
  assumes "minv m" "fingerprint_ok (P_ExitFingerprint (node :: PersistedNode))"
  shows "minv (modify p (\<lambda>i. i\<lparr>SelectedIP := P_SelectedIP node, SelectedNode := P_SelectedNode node,
      ExitFingerprint := P_ExitFingerprint node\<rparr>) m)"
  using assms by (intro minv_modify_simple) (auto simp: inst_ok_def same_shape_def)

lemma client_frame:
  "frame_of m (country_listening code port m)" "heap (country_listening code port m) = heap m"
  "shuttingDown (country_listening code port m) = shuttingDown m"
  "frame_of m (country_not_listening code port m)" "heap (country_not_listening code port m) = heap m"
  "shuttingDown (country_not_listening code port m) = shuttingDown m"
  "frame_of m (fst (country_check code port m))" "heap (fst (country_check code port m)) = heap m"
  "shuttingDown (fst (country_check code port m)) = shuttingDown m"
  "frame_of m (fst (CleanupStaleInstanceDirs scan remove m))" "heap (fst (CleanupStaleInstanceDirs scan remove m)) = heap m"
  "shuttingDown (fst (CleanupStaleInstanceDirs scan remove m)) = shuttingDown m"
  by (simp_all add: country_listening_def country_not_listening_def country_check_def CleanupStaleInstanceDirs_def frame_of_def Let_def split: dir_scan.splits)

lemma minv_client [keeps_minv]:
  assumes "minv m"
  shows "minv (country_listening code port m)" "minv (country_not_listening code port m)" "minv (fst (country_check code port m))"
    "minv (fst (CleanupStaleInstanceDirs scan remove m))"
    "minv (UpdateClientAPIKey k m)" "minv (StartCountryProxies m)" "minv (proxies_cancelled m)" "minv (close_listeners m)"
  using assms minv_frame [OF assms client_frame(1,2)] minv_frame [OF assms client_frame(4,5)] minv_frame [OF assms client_frame(7,8)]
    minv_frame [OF assms client_frame(10,11)]
  by (simp_all add: UpdateClientAPIKey_def StartCountryProxies_def proxies_cancelled_def close_listeners_def minv_world)

lemma mstep_minv: "mstep m m' \<Longrightarrow> minv m \<Longrightarrow> minv m'"
proof (induction rule: mstep.induct)
  case (s_remember m code p)
  then show ?case using instances_lookup [OF minvD(2)] by (intro minv_remember) auto
next
  case (s_remember_swapped m p)
  then show ?case using instances_lookup [OF minvD(2)] by (intro minv_remember) (auto simp: has_key_def)
next
  case (s_activate_running m code p)
  then show ?case by (intro minv_set_active) (simp_all add: has_key_def)
next
  case (s_detached m p e suffix)
  then show ?case by (intro minv_startDetached) (simp_all add: stopping_no_cmd)
next
  case (s_restore_node node m p)
  then show ?case by (intro minv_restore_node)
next
  case (s_shutdown m)
  then show ?case by (simp add: begin_shutdown_def minv_world)
qed (simp_all add: keeps_minv minv_config)

interpretation manager: invariant_system minit mstep minv
  by unfold_locales (auto simp: minit_def restored_minv mstep_minv minv_client)

section \<open>How instances evolve\<close>

text \<open>
  Beside the invariant, some changes never happen: an instance that drains never stops draining and
  gets no replacement; it stays the instance of its country unless it has one; no process is started
  during shutdown.
\<close>

definition evolves :: "bool \<Rightarrow> Instance \<Rightarrow> Instance \<Rightarrow> bool" where
  "evolves down i j \<longleftrightarrow> (draining i \<longrightarrow> draining j)
     \<and> (draining i \<longrightarrow> pendingReplacement i = None \<longrightarrow> pendingReplacement j = None)
     \<and> (down \<longrightarrow> cmd j = cmd i \<or> cmd j = None)"

definition evolve :: "Manager \<Rightarrow> Manager \<Rightarrow> bool" where
  "evolve m m' \<longleftrightarrow> (\<forall>p. p < nextPtr m \<longrightarrow> evolves (shuttingDown m) (heap m p) (heap m' p))
     \<and> (\<forall>p. nextPtr m \<le> p \<longrightarrow> cmd (heap m p) = None \<longrightarrow> shuttingDown m \<longrightarrow> cmd (heap m' p) = None)
     \<and> nextPtr m \<le> nextPtr m' \<and> (shuttingDown m \<longrightarrow> shuttingDown m')
     \<and> (\<forall>code p. map_of (instances m) code = Some p \<longrightarrow>
          map_of (instances m') code = Some p \<or> pendingReplacement (heap m p) \<noteq> None)"

lemma evolve_refl [simp]: "evolve m m"
  by (simp add: evolve_def evolves_def)

lemma evolve_modify:
  assumes "evolves (shuttingDown m) (heap m p) (f (heap m p))"
    and "cmd (heap m p) = None \<longrightarrow> shuttingDown m \<longrightarrow> cmd (f (heap m p)) = None"
  shows "evolve m (modify p f m)"
  using assms by (auto simp: evolve_def evolves_def)

lemma evolve_same:
  "heap m' = heap m \<Longrightarrow> nextPtr m' = nextPtr m \<Longrightarrow> shuttingDown m' = shuttingDown m \<Longrightarrow> instances m' = instances m
     \<Longrightarrow> evolve m m'"
  by (simp add: evolve_def evolves_def)

lemma evolve_then_same:
  "evolve m m1 \<Longrightarrow> heap m' = heap m1 \<Longrightarrow> nextPtr m' = nextPtr m1 \<Longrightarrow> shuttingDown m' = shuttingDown m1
     \<Longrightarrow> instances m' = instances m1 \<Longrightarrow> evolve m m'"
  by (simp add: evolve_def)

text \<open>Sections that keep the map and the pending replacements compose.\<close>

lemma evolve_trans:
  assumes "evolve m m1" "evolve m1 m2" "instances m1 = instances m" "instances m2 = instances m"
  shows "evolve m m2"
  unfolding evolve_def
proof (intro conjI allI impI)
  note a = assms(1) [unfolded evolve_def] and b = assms(2) [unfolded evolve_def]
  show "nextPtr m \<le> nextPtr m2" using a b by simp
  show "shuttingDown m \<Longrightarrow> shuttingDown m2" using a b by simp
  fix p assume "p < nextPtr m"
  then have "evolves (shuttingDown m) (heap m p) (heap m1 p)" "evolves (shuttingDown m1) (heap m1 p) (heap m2 p)"
    using a b by auto
  then show "evolves (shuttingDown m) (heap m p) (heap m2 p)" using a by (auto simp: evolves_def)
next
  note a = assms(1) [unfolded evolve_def] and b = assms(2) [unfolded evolve_def]
  fix p assume p: "nextPtr m \<le> p" "cmd (heap m p) = None" "shuttingDown m"
  then have c: "cmd (heap m1 p) = None" "shuttingDown m1" using a by auto
  show "cmd (heap m2 p) = None"
  proof (cases "p < nextPtr m1")
    case True
    with b c show ?thesis by (auto simp: evolves_def)
  next
    case False
    with b c show ?thesis by simp
  qed
qed (use assms(3,4) in simp)

named_theorems evolves_by "sections as changes of the heap"

lemma evolve_frame:
  "frame_of m m' \<Longrightarrow> heap m' = heap m \<Longrightarrow> shuttingDown m' = shuttingDown m \<Longrightarrow> evolve m m'"
  by (rule evolve_same) (simp_all add: frame_of_def)

lemma e_spawn [evolves_by]: "evolve m (spawn t m)"
  by (rule evolve_same) simp_all

lemma e_spawned: "evolve m m' \<Longrightarrow> evolve m (spawn t m')"
  by (erule evolve_then_same) simp_all

lemma e_signalled: "evolve m m' \<Longrightarrow> evolve m (signalProcess e p c m')"
  by (erule evolve_then_same) (simp_all add: signalProcess_def)

lemma e_cancel_rotation [evolves_by]: "evolve m (cancel_rotation p m)"
  by (auto simp: cancel_rotation_def evolve_def evolves_def split: option.splits)

lemma e_stop_instance [evolves_by]: "evolve m (stopInstance e p m)"
proof -
  have c: "evolve (cancel_rotation p m) (modify p f (cancel_rotation p m))"
    if "\<And>i. draining i \<longrightarrow> draining (f i)" "\<And>i. pendingReplacement (f i) = pendingReplacement i" "\<And>i. cmd (f i) = cmd i" for f
    using that by (intro evolve_modify) (simp_all add: evolves_def)
  show ?thesis
    unfolding stopInstance_def Let_def
    by (auto intro!: e_signalled evolve_trans [OF e_cancel_rotation c] split: option.splits)
qed

lemma e_stop [evolves_by]: "evolve m (fst (stop_section code p m))"
  unfolding stop_section_def Let_def
  by (auto simp: evolve_def evolves_def abandon_replacement_def)

lemma e_prepare: "prepareTorCommand e p dir m = (m1, r) \<Longrightarrow> evolve m m1 \<and> instances m1 = instances m
    \<and> shuttingDown m1 = shuttingDown m \<and> (\<forall>q. cmd (heap m1 q) = cmd (heap m q))"
  using prepare_frame [of e p dir m m1 r] by (auto simp: evolve_def evolves_def frame_of_def)

lemma e_launch: "\<not> shuttingDown m \<Longrightarrow> (\<And>i. draining i \<longrightarrow> draining (f i)) \<Longrightarrow>
    (\<And>i. pendingReplacement (f i) = pendingReplacement i) \<Longrightarrow> evolve m (launch f p m)"
  by (simp add: evolve_def evolves_def launch_def)

lemma e_removed: "evolve m m' \<Longrightarrow> evolve m (removeInstanceDir e d m')"
  by (erule evolve_then_same) (simp_all add: removeInstanceDir_def)

lemma e_ports: "evolve m m' \<Longrightarrow> evolve m (releaseInstancePorts p m')"
  by (erule evolve_then_same) (simp_all add: releaseInstancePorts_def releaseReservedPort_def)

lemma e_started:
  assumes "\<not> shuttingDown m" and pr: "prepareTorCommand e p d m = (m1, r)"
    and f: "\<And>i. draining i \<longrightarrow> draining (f i)" "\<And>i. pendingReplacement (f i) = pendingReplacement i"
  shows "evolve m (launch f p m1)"
proof (rule evolve_trans)
  show "evolve m m1" using e_prepare [OF pr] by simp
  show "evolve m1 (launch f p m1)" using e_prepare [OF pr] assms(1) f by (intro e_launch) simp_all
qed (use e_prepare [OF pr] in \<open>simp_all add: launch_def\<close>)

lemma e_start [evolves_by]: "\<not> shuttingDown m \<Longrightarrow> evolve m (fst (start_section e code m))"
proof (cases "map_of (instances m) code")
  case (Some p)
  assume d: "\<not> shuttingDown m"
  let ?d = "path_join [StateDir (mcfg m), code]"
  obtain m1 r where pr: "prepareTorCommand e p ?d m = (m1, r)" by fastforce
  note f = e_prepare [OF pr]
  have 1: "evolve m (removeInstanceDir e ?d m1)" using f by (intro e_removed) simp
  have 2: "evolve m (removeInstanceDir e ?d (modify p (\<lambda>i. i\<lparr>Status := Errored, Error := x\<rparr>) m1))" for x
  proof (rule e_removed, rule evolve_trans)
    show "evolve m m1" using f by simp
    show "evolve m1 (modify p (\<lambda>i. i\<lparr>Status := Errored, Error := x\<rparr>) m1)"
      by (rule evolve_modify) (simp_all add: evolves_def)
  qed (use f in simp_all)
  have 3: "evolve m (launch (started t c) p m1)" for t c
    by (rule e_started [OF d pr]) (simp_all add: started_def)
  show ?thesis
    using Some pr 1 2 3 by (cases r; cases "startProcess e") (auto simp: start_section_def Let_def)
qed (simp add: start_section_def)

lemma e_detached [evolves_by]: "\<not> shuttingDown m \<Longrightarrow> evolve m (fst (startDetached e p suffix m))"
proof -
  assume d: "\<not> shuttingDown m"
  let ?d = "path_join [StateDir (mcfg m), code_of m p @ ''-'' @ suffix]"
  obtain m1 r where pr: "prepareTorCommand e p ?d m = (m1, r)" by fastforce
  have 1: "evolve m (removeInstanceDir e ?d (releaseInstancePorts p m1))"
    using e_prepare [OF pr] by (intro e_removed e_ports) simp
  have 2: "evolve m (launch (\<lambda>i. i\<lparr>cmd := Some c, Status := Starting, BootstrapProgress := 0, StartedAt := t\<rparr>) p m1)" for c t
    by (rule e_started [OF d pr]) simp_all
  show ?thesis
    unfolding startDetached_def Let_def pr
    by (cases r; cases "startProcess e") (use 1 2 in \<open>simp_all add: e_spawned\<close>)
qed

lemma e_exit [evolves_by]: "evolve m (fst (watch_exit err p c m))"
  by (auto simp: watch_exit_def evolve_def evolves_def exited_def)

lemma e_schedule: "evolve m (fst (scheduleAutoRestartLocked p reason m)) \<and>
    instances (fst (scheduleAutoRestartLocked p reason m)) = instances m"
  by (auto simp: scheduleAutoRestartLocked_def Let_def evolves_def intro!: e_spawned evolve_modify)

lemma e_error: "evolve m m' \<Longrightarrow> instances m' = instances m \<Longrightarrow> evolve m (modify p (\<lambda>i. i\<lparr>Error := x i\<rparr>) m')"
  by (erule evolve_trans) (auto intro: evolve_modify simp: evolves_def)

lemma e_clear_active: "evolve m m' \<Longrightarrow> evolve m (clear_active_if b code m')"
  by (erule evolve_then_same) (simp_all add: clear_active_if_def)

lemma e_watch_restart [evolves_by]: "evolve m (watch_restart p m)"
proof -
  define s where "s = (if draining (heap m p) then (m, False) else scheduleAutoRestartLocked p (Error (heap m p)) m)"
  have "evolve m (fst s)" "instances (fst s) = instances m" using e_schedule by (simp_all add: s_def)
  then show ?thesis
    unfolding watch_restart_def s_def [symmetric] Let_def
    by (auto simp: split_beta intro!: e_clear_active e_error)
qed

lemma e_restart_failed [evolves_by]: "evolve m (restart_failed p err m)"
  using e_schedule [of m p "''automatic restart failed: '' @ err"]
  by (auto simp: restart_failed_def Let_def split_beta intro!: e_clear_active e_error)

lemma e_replace [evolves_by]:
  assumes "minv m" shows "evolve m (fst (replace_section p node port control m))"
  using minvD(3) [OF assms]
  by (auto simp: replace_section_def Let_def allocate_def evolve_def evolves_def replacement_instance_def
      zero_instance_def dest: instances_lookup [OF minvD(2) [OF assms]])

lemma e_restore: "evolve m (fst (restoreAfterReplacementLocked p msg m)) \<and>
    instances (fst (restoreAfterReplacementLocked p msg m)) = instances m"
proof -
  have "evolve m (modify p (\<lambda>i. i\<lparr>replacement := False, replacementPreviousStatus := NoStatus,
             replacementPreviousError := [], pendingReplacement := None, Status := st, Error := err\<rparr>) m)" for st err
    by (rule evolve_modify) (simp_all add: evolves_def)
  then show ?thesis
    unfolding restoreAfterReplacementLocked_def Let_def
    by (cases "cmd (heap m p) = None \<or> stopping (heap m p) \<or> draining (heap m p)") simp_all
qed

lemma e_swap [evolves_by]: "evolve m (fst (swap_section p r activate s m))"
  unfolding swap_section_def Let_def by (auto simp: evolve_def evolves_def)

lemma e_ensure [evolves_by]:
  assumes "minv m" shows "evolve m (fst (ensureCountry country m))"
  using instances_lookup [OF minvD(2) [OF assms]]
  by (auto simp: ensureCountry_def Let_def evolve_def evolves_def add_instance_def allocate_def split: option.splits)

lemma e_cancel [evolves_by]: "evolve m (fst (cancel_section p m))"
proof -
  let ?m = "modify p (\<lambda>i. i\<lparr>replacementSequence := replacementSequence i + 1\<rparr>) m"
  have "evolve m ?m" by (rule evolve_modify) (simp_all add: evolves_def)
  then show ?thesis unfolding cancel_section_def
    by (rule evolve_trans) (use e_restore [where m = ?m and p = p and msg = "[]"] in simp_all)
qed

lemma e_replacement_failed [evolves_by]: "evolve m (fst (replacement_failed p r sequence message m))"
  using e_restore by (simp add: replacement_failed_def)

lemma e_reserve [evolves_by]: "evolve m (fst (reserveLocalPort e m))"
  using reserve_frame [of m 32 0 "listenPort e"] by (intro evolve_frame) (simp_all add: reserveLocalPort_def)

lemma e_rotation [evolves_by]: "evolve m (startCircuitRotation p m)"
  using e_cancel_rotation [of m p] by (auto simp: startCircuitRotation_def Let_def evolve_def evolves_def)

lemma e_progress [evolves_by]: "evolve m (refreshBootstrapProgress response p m)"
  by (auto simp: refreshBootstrapProgress_def set_progress_def evolves_def intro!: evolve_modify split: sum.splits option.splits)

lemma e_retry [evolves_by]: "evolve m (retry_section p m)"
  by (auto simp: retry_section_def evolves_def intro!: e_spawned evolve_modify split: option.splits)

lemma e_fail [evolves_by]: "evolve m (failInstance e p c message m)"
  by (auto simp: failInstance_def evolves_def intro!: e_signalled evolve_modify)

lemma e_resume [evolves_by]: "evolve m (resumeAfterReplacement p c st m)"
  by (auto simp: resumeAfterReplacement_def e_spawn split: option.splits)

lemma e_acquire [evolves_by]: "evolve m (fst (acquireInstance code m))"
  by (auto simp: acquireInstance_def Let_def evolves_def intro!: evolve_modify split: option.splits)

lemma e_activate [evolves_by]: "evolve m (fst (activate_section code m))"
  by (auto simp: activate_section_def intro!: evolve_same split: option.splits)

lemma e_save [evolves_by]: "evolve m (saveRuntimeState e m)"
  by (intro evolve_same) (simp_all add: saveRuntimeState_def Let_def)

lemma e_removal [evolves_by]: "evolve m (removeInstanceDir e dir m)" "evolve m (releaseInstancePorts p m)"
  by (intro e_removed e_ports evolve_refl)+

lemma e_client [evolves_by]: "evolve m (country_listening code port m)" "evolve m (country_not_listening code port m)"
  "evolve m (fst (country_check code port m))" "evolve m (fst (CleanupStaleInstanceDirs scan remove m))"
  by (intro evolve_frame; simp add: client_frame)+

lemma e_shutdown [evolves_by]: "evolve m (begin_shutdown m)"
  by (simp add: begin_shutdown_def evolve_def evolves_def)

lemma mstep_evolve: "mstep m m' \<Longrightarrow> minv m \<Longrightarrow> evolve m m'"
  by (induction rule: mstep.induct)
    (auto simp: evolves_by choose_node_def evolves_def remember_node_def forget_node_def kill_later_def restart_check_def
      ready_section_def markInstanceRunning_def rotation_tick_def store_info_def drain_poll_def drain_end_def
      releaseInstance_def releaseReservedPort_def UpdateClientAPIKey_def proxies_cancelled_def
      close_listeners_def Let_def intro!: evolve_modify evolve_same)

end
