(* ===== verification/Manager_Props.thy ===== *)
theory Manager_Props
  imports Manager_Steps
begin

text \<open>
  Properties of the manager in every state that an interleaving of its operations and goroutines can
  reach.
\<close>

section \<open>Ports\<close>

lemma few_codes: "distinct cs \<Longrightarrow> list_all canonical_code cs \<Longrightarrow> length cs \<le> 676"
proof -
  assume d: "distinct cs" "list_all canonical_code cs"
  have inj: "inj_on code_index (set cs)"
    using d(2) by (auto simp: inj_on_def list_all_iff intro: code_index_inj)
  have "code_index ` set cs \<subseteq> {0..675}"
    using d(2) code_index_range by (auto simp: list_all_iff)
  then have "card (code_index ` set cs) \<le> card {0..675 :: int}" by (intro card_mono) simp_all
  with inj d(1) show ?thesis by (simp add: card_image distinct_card)
qed

lemma static_ports:
  assumes "minv m" "p < nextPtr m" "\<not> dynamicPorts (heap m p)"
  obtains k where "k < 676" "k < length (codes_of (mcfg m))" "codes_of (mcfg m) ! k = code_of m p"
    "SocksPort (heap m p) = BaseSocksPort (mcfg m) + int k" "controlPort (heap m p) = BaseSocksPort (mcfg m) + 3000 + int k"
proof -
  note inv = minvD [OF assms(1)]
  obtain k where k: "k < length (codes_of (mcfg m))" "codes_of (mcfg m) ! k = Code (ICountry (heap m p))"
    "SocksPort (heap m p) = wrap64 (BaseSocksPort (mcfg m) + int k)"
    "controlPort (heap m p) = wrap64 (BaseSocksPort (mcfg m) + 3000 + int k)"
    using inv(6) assms(2,3) by (auto simp: ports_ok_def port_of_def)
  have n: "k < 676" using few_codes [of "codes_of (mcfg m)"] inv(5) k(1) by (simp add: countries_ok_def)
  have "in_int64 (BaseSocksPort (mcfg m) + int k)" "in_int64 (BaseSocksPort (mcfg m) + 3000 + int k)"
    using inv(5) n by (auto simp: countries_ok_def range_ok_def in_int64_def)
  with n k that show ?thesis by (simp add: code_of_def)
qed

section \<open>Properties\<close>

text \<open>C4: In every reachable state an instance whose status says that it is up has a Tor process, no
  two instances share a process, every process belongs to an instance that Shutdown will find, and
  the counters are in their ranges: at most three automatic restarts in a row, no negative number of
  connections, a bootstrap progress between 0 and 100.\<close>

theorem reachable_instances_consistent:
  assumes "reach minit mstep m"
  shows "(online (Status (heap m p)) \<longrightarrow> cmd (heap m p) \<noteq> None)
    \<and> (cmd (heap m p) = Some c \<and> cmd (heap m q) = Some c \<longrightarrow> p = q)
    \<and> (cmd (heap m p) \<noteq> None \<longrightarrow> p \<in> set (allInstances m))
    \<and> 0 \<le> restartAttempts (heap m p) \<and> restartAttempts (heap m p) \<le> 3
    \<and> 0 \<le> ActiveConnections (heap m p) \<and> 0 \<le> BootstrapProgress (heap m p) \<and> BootstrapProgress (heap m p) \<le> 100
    \<and> (replacement (heap m p) \<longleftrightarrow> pendingReplacement (heap m p) \<noteq> None)"
proof -
  have m: "minv m" using assms by (rule manager.reach_inv)
  then have "procs_ok m" by (rule minvD)
  with inst_okD [OF m, of p] show ?thesis
    by (auto simp: inst_ok_def procs_ok_def autoRestartLimit_def)
qed

definition sample_start :: Manager where
  "sample_start = restored_manager (defaultConfig False) True Absent"

lemma default_fits: "port_sums_fit (defaultConfig False)"
  by code_simp

lemma sample_start_reach: "reach minit mstep sample_start"
  by (rule reach_init) (use validate_default_linux default_fits in \<open>auto simp: minit_def sample_start_def\<close>)

theorem reachable_instances_consistent_witness:
  "restartAttempts (heap (fst (acquireInstance ''us'' sample_start)) 0) \<le> 3"
  using reachable_instances_consistent [OF reach_step [OF sample_start_reach s_acquire], of "''us''" 0] by blast


lemma sample_start_lookup:
  "map_of (instances sample_start) ''us'' = Some 0" "map_of (instances sample_start) ''jp'' = Some 1"
  "\<not> dynamicPorts (heap sample_start 0)" "\<not> dynamicPorts (heap sample_start 1)"
  by code_simp+


text \<open>In every reachable state the report of the manager has exactly one entry for each configured
  country, in their order; in particular it never follows a missing instance.\<close>

lemma state_report_complete:
  assumes "reach minit mstep m"
  shows "\<exists>r. State m = Some r \<and> map (Code \<circ> ICountry) (S_Instances r) = map (normalizeCode \<circ> Code) (Countries (mcfg m))
    \<and> list_all (\<lambda>i. cmd i = None) (S_Instances r)"
proof -
  have m: "minv m" using assms by (rule manager.reach_inv)
  note inv = minvD [OF m]
  have found: "\<exists>p. map_of (instances m) (normalizeCode (Code c)) = Some p \<and> code_of m p = normalizeCode (Code c)"
    if "c \<in> set (Countries (mcfg m))" for c
  proof -
    have "normalizeCode (Code c) \<in> set (codes_of (mcfg m))" using that by (auto simp: codes_of_def)
    then obtain p where "map_of (instances m) (normalizeCode (Code c)) = Some p"
      using inv(5) by (metis countries_ok_def has_key_def has_key_iff not_None_eq)
    then show ?thesis using instances_lookup [OF inv(2)] by blast
  qed
  have r: "Code (ICountry (reported m p)) = code_of m p" "cmd (reported m p) = None" for p
    by (simp_all add: reported_def code_of_def Let_def split: status.splits option.splits)
  have "None \<notin> set (map (\<lambda>c. map_of (instances m) (normalizeCode (Code c))) (Countries (mcfg m)))"
    using found by force
  then have "State m = Some \<lparr>S_Active = active m, S_ProxyAddress = ProxyAddress (mcfg m), S_MaxRunning = MaxRunning (mcfg m),
      S_Instances = map (\<lambda>p. reported m (the p)) (map (\<lambda>c. map_of (instances m) (normalizeCode (Code c))) (Countries (mcfg m)))\<rparr>"
    by (simp add: State_def)
  moreover have "Code (ICountry (reported m (the (map_of (instances m) (normalizeCode (Code c)))))) = normalizeCode (Code c)"
    if "c \<in> set (Countries (mcfg m))" for c
    using found [OF that] r by force
  ultimately show ?thesis using r(2) by (auto simp: list_all_iff)
qed

section \<open>A stopped country\<close>

text \<open>\<open>retired code p\<close>: instance \<open>p\<close> of the country has been told to drain and has no replacement.\<close>

definition retired :: "string \<Rightarrow> nat \<Rightarrow> Manager \<Rightarrow> bool" where
  "retired code p m \<longleftrightarrow> minv m \<and> map_of (instances m) code = Some p \<and> draining (heap m p)
     \<and> pendingReplacement (heap m p) = None"

lemma evolve_instances:
  "evolve m m' \<Longrightarrow> map_of (instances m) code = Some p \<Longrightarrow> pendingReplacement (heap m p) = None
     \<Longrightarrow> map_of (instances m') code = Some p"
  unfolding evolve_def by blast

lemma evolve_draining:
  "evolve m m' \<Longrightarrow> p < nextPtr m \<Longrightarrow> draining (heap m p) \<Longrightarrow> pendingReplacement (heap m p) = None
     \<Longrightarrow> draining (heap m' p) \<and> pendingReplacement (heap m' p) = None"
  unfolding evolve_def evolves_def by blast

lemma retired_step: "retired code p m \<Longrightarrow> mstep m m' \<Longrightarrow> retired code p m'"
proof -
  assume r: "retired code p m" and s: "mstep m m'"
  then have "evolve m m'" "minv m'" using mstep_evolve mstep_minv by (auto simp: retired_def)
  moreover have "p < nextPtr m" using r instances_lookup [OF minvD(2)] by (auto simp: retired_def)
  ultimately show ?thesis
    using r evolve_draining [of m m' p] evolve_instances [of m m' code p] by (auto simp: retired_def)
qed

interpretation stopped_country: invariant_system "retired code p" mstep "retired code p" for code p
  by unfold_locales (auto intro: retired_step)

lemma stop_section_retires:
  assumes "minv m" "map_of (instances m) code = Some p" "cmd (heap m p) \<noteq> None"
  shows "retired code p (fst (stop_section code p m))"
proof -
  have "minv (fst (stop_section code p m))" by (rule minv_stop_section [OF assms(1)])
  with assms show ?thesis
    by (auto simp: retired_def stop_section_def Let_def abandon_replacement_def)
qed

lemma steps_then: "mstep b c \<Longrightarrow> mstep\<^sup>*\<^sup>* a b \<Longrightarrow> mstep\<^sup>*\<^sup>* a c"
  by (rule rtranclp.rtrancl_into_rtrancl)

lemma forgetInstance_steps: "mstep\<^sup>*\<^sup>* m (forgetInstance e code m)"
  unfolding forgetInstance_def by (meson converse_rtranclp_into_rtranclp r_into_rtranclp s_forget s_save)

lemma rememberInstance_steps: "map_of (instances m) code = Some p \<Longrightarrow> mstep\<^sup>*\<^sup>* m (rememberInstance e p m)"
  unfolding rememberInstance_def by (meson converse_rtranclp_into_rtranclp r_into_rtranclp s_remember s_save)

text \<open>After its first section, \<open>stop\<close> runs further sections of the system.\<close>

lemma stop_steps:
  assumes "map_of (instances m) (normalizeCode code0) = Some p"
  shows "mstep\<^sup>*\<^sup>* (fst (stop_section (normalizeCode code0) p m)) (fst (stop e code0 m))"
proof -
  let ?code = "normalizeCode code0"
  obtain m1 mark where ss: "stop_section ?code p m = (m1, mark)" by fastforce
  define m2 where "m2 = (case pendingReplacement (heap m p) of None \<Rightarrow> m1 | Some r \<Rightarrow> stopInstance e r m1)"
  have 1: "mstep\<^sup>*\<^sup>* m1 m2" unfolding m2_def by (auto intro: s_stop_instance split: option.splits)
  have "fst (stop e code0 m) \<in> {m2, forgetInstance e ?code m2, spawn (DrainAndStop p) (forgetInstance e ?code m2)}"
    using assms ss by (auto simp: stop_def Let_def m2_def split: stop_mark.splits)
  then have "mstep\<^sup>*\<^sup>* m2 (fst (stop e code0 m))"
    by (auto intro: forgetInstance_steps rtranclp.rtrancl_into_rtrancl [OF forgetInstance_steps s_spawn])
  with 1 ss show ?thesis by simp
qed

text \<open>C19: A country that is stopped while it has a process never serves a connection again: whatever the
  manager and its users do afterwards - wait for the process to end, start the country again, choose
  another node for it - every request for a connection to it is refused, because nothing ever takes
  back the draining mark of the instance, and an instance with that mark cannot be replaced.\<close>

theorem stopped_country_never_serves_again:
  assumes "reach minit mstep m" and "map_of (instances m) (normalizeCode code) = Some p" and "cmd (heap m p) \<noteq> None"
    and "mstep\<^sup>*\<^sup>* (fst (stop e code m)) m'"
  shows "acquireInstance code m' = (m', None) \<and> map_of (instances m') (normalizeCode code) = Some p"
proof -
  have m: "minv m" using assms(1) by (rule manager.reach_inv)
  have "retired (normalizeCode code) p (fst (stop_section (normalizeCode code) p m))"
    using stop_section_retires [OF m assms(2,3)] .
  then have "retired (normalizeCode code) p (fst (stop e code m))"
    using stop_steps [OF assms(2)] stopped_country.rtranclp_inv by blast
  then have "retired (normalizeCode code) p m'" using assms(4) stopped_country.rtranclp_inv by blast
  then show ?thesis by (auto simp: retired_def acquireInstance_def Let_def)
qed

definition calm_env :: Env where
  "calm_env = \<lparr>now = 0, unixNano = 0, saveIO = calm_io, interruptOK = True, mkData = None, mkLogs = None, writeTorrc = None,
     startProcess = None, removeOK = True, listenPort = (\<lambda>k. Inr (40000 + int k, None))\<rparr>"

definition launch_ok :: "Env \<Rightarrow> bool" where
  "launch_ok e \<longleftrightarrow> mkData e = None \<and> mkLogs e = None \<and> writeTorrc e = None \<and> startProcess e = None"

lemma calm_env_ok [simp]: "launch_ok calm_env"
  by (simp add: launch_ok_def calm_env_def)

lemma start_section_ok:
  assumes "launch_ok e" "map_of (instances m) code = Some p" "cmd (heap m p) = None"
    "Status (heap m p) \<notin> {Starting, Connecting, Running, Switching, Draining}"
  obtains ds where "start_section e code m =
    (m\<lparr>heap := (heap m)(p := started (now e) (nextCmd m) ((heap m p)\<lparr>dataDir := path_join [path_join [StateDir (mcfg m), code], ''data'']\<rparr>)),
        nextCmd := Suc (nextCmd m), allInstances := List.insert p (allInstances m), dirs := ds\<rparr>,
     Inr (Some (p, nextCmd m, path_join [StateDir (mcfg m), code])))"
    "has_key ds (path_join [StateDir (mcfg m), code])"
proof -
  let ?d = "path_join [StateDir (mcfg m), code]"
  let ?i = "(heap m p)\<lparr>dataDir := path_join [?d, ''data'']\<rparr>"
  let ?ds = "AList.update ?d (torrc (mcfg m) ?i (path_join [?d, ''data'']) (path_join [?d, ''logs''])) (AList.update ?d [] (dirs m))"
  have "prepareTorCommand e p ?d m = (m\<lparr>heap := (heap m)(p := ?i), dirs := ?ds\<rparr>, None)"
    using assms(1) by (simp add: prepareTorCommand_def launch_ok_def Let_def modify_def)
  with assms have "start_section e code m =
    (m\<lparr>heap := (heap m)(p := started (now e) (nextCmd m) ?i),
        nextCmd := Suc (nextCmd m), allInstances := List.insert p (allInstances m), dirs := ?ds\<rparr>,
     Inr (Some (p, nextCmd m, ?d)))"
    by (simp add: start_section_def launch_ok_def Let_def launch_def modify_def)
  then show ?thesis by (rule that) (simp add: has_key_def)
qed

lemma start_section_fst:
  assumes "launch_ok e" "map_of (instances m) code = Some p" "cmd (heap m p) = None"
    "Status (heap m p) \<notin> {Starting, Connecting, Running, Switching, Draining}"
  shows "heap (fst (start_section e code m)) = (heap m)(p := started (now e) (nextCmd m)
      ((heap m p)\<lparr>dataDir := path_join [path_join [StateDir (mcfg m), code], ''data'']\<rparr>))"
    "instances (fst (start_section e code m)) = instances m" "nextCmd (fst (start_section e code m)) = Suc (nextCmd m)"
    "shuttingDown (fst (start_section e code m)) = shuttingDown m" "active (fst (start_section e code m)) = active m"
    "mcfg (fst (start_section e code m)) = mcfg m" "resumeNodes (fst (start_section e code m)) = resumeNodes m"
  by (rule start_section_ok [OF assms]; simp)+

definition us_started :: Manager where
  "us_started = fst (start_section calm_env ''us'' sample_start)"

definition us_exited :: Manager where
  "us_exited = fst (watch_exit None 0 0 (stopInstance calm_env 0 (fst (stop calm_env ''us'' us_started))))"

definition us_running_again :: Manager where
  "us_running_again = fst (markInstanceRunning 0 1 ''1.2.3.4'' (fst (ready_section 0 1 (fst (start_section calm_env ''us'' us_exited)))))"

lemma sample_start_us: "Status (heap sample_start 0) = Stopped" "cmd (heap sample_start 0) = None" "nextCmd sample_start = 0"
  "\<not> shuttingDown sample_start" "\<not> draining (heap sample_start 0)" "pendingReplacement (heap sample_start 0) = None"
  "\<not> stopping (heap sample_start 0)" "cancelRotation (heap sample_start 0) = None" "active sample_start = []"
  by code_simp+

lemma normalize_us [simp]: "normalizeCode ''us'' = ''us''"
  by code_simp

lemma us_started_facts: "instances us_started = instances sample_start" "cmd (heap us_started 0) = Some 0" "\<not> shuttingDown us_started"
  "\<not> draining (heap us_started 0)" "pendingReplacement (heap us_started 0) = None" "\<not> stopping (heap us_started 0)"
  "cancelRotation (heap us_started 0) = None" "nextCmd us_started = 1" "Status (heap us_started 0) = Starting" "active us_started = []"
  unfolding us_started_def using sample_start_us
  by (simp_all add: start_section_fst [OF calm_env_ok sample_start_lookup(1)] started_def)

lemma us_started_reach: "reach minit mstep us_started"
  unfolding us_started_def by (rule reach_step [OF sample_start_reach s_start [OF sample_start_us(4)]])

lemma us_started_lookup: "map_of (instances us_started) ''us'' = Some 0"
  using us_started_facts(1) sample_start_lookup(1) by simp

lemma us_exited_facts: "instances us_exited = instances sample_start" "cmd (heap us_exited 0) = None" "\<not> shuttingDown us_exited"
  "Status (heap us_exited 0) = Stopped" "nextCmd us_exited = 1"
  using us_started_facts sample_start_lookup(1)
  by (simp_all add: us_exited_def stop_def stop_section_def abandon_replacement_def Let_def forgetInstance_def forget_node_def
      saveRuntimeState_def calm_env_def calm_io_def stopInstance_def cancel_rotation_def signalProcess_def watch_exit_def exited_def)

lemma us_running_again_status: "Status (heap us_running_again 0) = Running"
proof -
  have "map_of (instances us_exited) ''us'' = Some 0" using us_exited_facts sample_start_lookup(1) by simp
  from start_section_fst [OF calm_env_ok this] us_exited_facts show ?thesis
    by (simp add: us_running_again_def started_def ready_section_def markInstanceRunning_def)
qed

theorem stopped_country_never_serves_again_witness:
  "Status (heap us_running_again 0) = Running \<and> acquireInstance ''us'' us_running_again = (us_running_again, None)"
proof -
  have 2: "map_of (instances us_started) (normalizeCode ''us'') = Some 0" "cmd (heap us_started 0) \<noteq> None"
    using us_started_facts sample_start_lookup(1) by simp_all
  have "mstep\<^sup>*\<^sup>* (fst (stop calm_env ''us'' us_started)) us_exited"
    unfolding us_exited_def by (rule steps_then, rule s_exit, rule r_into_rtranclp, rule s_stop_instance)
  moreover have "mstep\<^sup>*\<^sup>* us_exited us_running_again"
    unfolding us_running_again_def
    by (rule steps_then, rule s_running, rule steps_then, rule s_ready, rule r_into_rtranclp,
      rule s_start [OF us_exited_facts(3)])
  ultimately have 4: "mstep\<^sup>*\<^sup>* (fst (stop calm_env ''us'' us_started)) us_running_again" by (rule rtranclp_trans)
  show ?thesis using stopped_country_never_serves_again [OF us_started_reach 2 4] us_running_again_status by simp
qed

end
