(* ===== verification/Manager_Limits.thy ===== *)
theory Manager_Limits
  imports Manager_Props
begin

text \<open>
  The limit on running countries (makeRoom, Start and UpdateMaxRunning of \<^verbatim>\<open>src/manager.go\<close>) and
  shutdown.
\<close>

section \<open>Online countries\<close>

definition online_codes :: "Manager \<Rightarrow> string set" where
  "online_codes m = {code. \<exists>p. map_of (instances m) code = Some p \<and> online (Status (heap m p))}"

lemma online_codes_entries:
  assumes "maps_ok m"
  shows "online_codes m = fst ` set (online_entries m)" "card (online_codes m) = length (online_entries m)"
proof -
  have d: "distinct (map fst (instances m))" using assms by (simp add: maps_ok_def)
  show e: "online_codes m = fst ` set (online_entries m)"
    using d by (force simp: online_codes_def online_entries_def image_iff)
  have "distinct (map fst (online_entries m))" unfolding online_entries_def using d by (rule distinct_filter_keys)
  then show "card (online_codes m) = length (online_entries m)"
    unfolding e by (metis distinct_card length_map list.set_map)
qed

lemma finite_online [simp]: "finite (online_codes m)"
proof -
  have "online_codes m \<subseteq> fst ` set (instances m)" by (auto simp: online_codes_def dest: map_of_SomeD_fst)
  then show ?thesis by (rule finite_subset) simp
qed

lemma room_scan_None:
  "room_scan t m al r old = None \<longleftrightarrow> (\<exists>p. (t, p) \<in> set al \<and> online (Status (heap m p)))"
  by (induction t m al r old rule: room_scan.induct) auto

lemma room_scan_count:
  "room_scan t m al r old = Some (n, v) \<Longrightarrow> n = r + int (length (filter (\<lambda>(code, p). online (Status (heap m p))) al))"
  by (induction t m al r old rule: room_scan.induct) (auto split: if_splits)

text \<open>The oldest instance found: online, not the active one, and none of the others started earlier.\<close>

definition oldest_in :: "Manager \<Rightarrow> (string, nat) gomap \<Rightarrow> nat \<Rightarrow> bool" where
  "oldest_in m al v \<longleftrightarrow> (\<forall>(code, p) \<in> set al. online (Status (heap m p)) \<longrightarrow> code \<noteq> active m \<longrightarrow>
     StartedAt (heap m v) \<le> StartedAt (heap m p))"

lemma room_scan_oldest:
  "room_scan t m al r old = Some (n, Some v) \<Longrightarrow>
     (old = Some v \<or> (\<exists>code. (code, v) \<in> set al \<and> online (Status (heap m v)) \<and> code \<noteq> active m))
     \<and> oldest_in m al v \<and> (\<forall>w. old = Some w \<longrightarrow> StartedAt (heap m v) \<le> StartedAt (heap m w))"
proof (induction t m al r old rule: room_scan.induct)
  case (1 t m r old)
  then show ?case by (simp add: oldest_in_def)
next
  case (2 t m code p rest r old)
  show ?case
  proof (cases "online (Status (heap m p))")
    case False
    with 2 show ?thesis by (auto simp: oldest_in_def)
  next
    case True
    with 2(3) have nt: "code \<noteq> t" by (auto split: if_splits)
    let ?old = "if code \<noteq> active m \<and> (case old of None \<Rightarrow> True | Some w \<Rightarrow> StartedAt (heap m p) < StartedAt (heap m w))
      then Some p else old"
    have "room_scan t m rest (r + 1) ?old = Some (n, Some v)" using 2(3) True nt by simp
    from 2(2) [OF _ nt this] True show ?thesis
      by (cases old) (auto simp: oldest_in_def split: if_splits)
  qed
qed

lemma room_scan_nobody:
  "room_scan t m al r old = Some (n, None) \<Longrightarrow>
     old = None \<and> (\<forall>(code, p) \<in> set al. online (Status (heap m p)) \<longrightarrow> code = active m)"
proof (induction t m al r old rule: room_scan.induct)
  case (2 t m code p rest r old)
  then show ?case by (auto split: if_splits option.splits)
qed simp

section \<open>What stopping an instance changes\<close>

lemma stopInstance_frame:
  "instances (stopInstance e p m) = instances m" "mcfg (stopInstance e p m) = mcfg m" "active (stopInstance e p m) = active m"
  "q \<noteq> p \<Longrightarrow> heap (stopInstance e p m) q = heap m q" "cmd (heap (stopInstance e p m) q) = cmd (heap m q)"
  "allInstances (stopInstance e p m) = allInstances m" "nextPtr (stopInstance e p m) = nextPtr m"
  "shuttingDown (stopInstance e p m) = shuttingDown m"
  by (auto simp: stopInstance_def cancel_rotation_def signalProcess_def Let_def split: option.splits)

lemma forgetInstance_frame [simp]:
  "instances (forgetInstance e c m) = instances m" "mcfg (forgetInstance e c m) = mcfg m" "heap (forgetInstance e c m) = heap m"
  "active (forgetInstance e c m) = (if active m = normalizeCode c then [] else active m)"
  "shuttingDown (forgetInstance e c m) = shuttingDown m" "nextPtr (forgetInstance e c m) = nextPtr m"
  by (simp_all add: forgetInstance_def saveRuntimeState_def forget_node_def Let_def)

lemma stop_effect:
  assumes m: "minv m" and p: "map_of (instances m) code = Some p" and c: "cmd (heap m p) \<noteq> None" "\<not> draining (heap m p)"
  shows "snd (stop e code m) = None" "instances (fst (stop e code m)) = instances m" "mcfg (fst (stop e code m)) = mcfg m"
    "Status (heap (fst (stop e code m)) p) = Draining"
    "\<And>q. q \<in> snd ` set (instances m) \<Longrightarrow> q \<noteq> p \<Longrightarrow> heap (fst (stop e code m)) q = heap m q"
    "active (fst (stop e code m)) = (if active m = code then [] else active m)" "minv (fst (stop e code m))"
    "shuttingDown (fst (stop e code m)) = shuttingDown m"
proof -
  have can: "normalizeCode code = code" using instances_lookup [OF minvD(2) [OF m] p] by simp
  have st: "snd (stop_section code p m) = Stop_drain"
    using c by (simp add: stop_section_def Let_def abandon_replacement_def)
  have h: "heap (fst (stop_section code p m)) q = (if q = p then (abandon_replacement (heap m p))
      \<lparr>draining := True, restartScheduled := False, restartAttempts := 0, Status := Draining\<rparr> else heap m q)"
    "instances (fst (stop_section code p m)) = instances m" "mcfg (fst (stop_section code p m)) = mcfg m"
    "active (fst (stop_section code p m)) = (if active m = code then [] else active m)"
    "shuttingDown (fst (stop_section code p m)) = shuttingDown m" for q
    using c by (auto simp: stop_section_def Let_def abandon_replacement_def)
  define m2 where "m2 = (case pendingReplacement (heap m p) of None \<Rightarrow> fst (stop_section code p m)
      | Some r \<Rightarrow> stopInstance e r (fst (stop_section code p m)))"
  have s: "stop e code m = (spawn (DrainAndStop p) (forgetInstance e code m2), None)"
    using p st by (simp add: stop_def can Let_def m2_def split_beta)
  have rp: "r \<notin> snd ` set (instances m)" if "pendingReplacement (heap m p) = Some r" for r
    using minvD(3) [OF m] that by (auto simp: pending_ok_def)
  have pin: "p \<in> snd ` set (instances m)" using p by (metis image_eqI map_of_SomeD snd_conv)
  have m2: "instances m2 = instances m" "mcfg m2 = mcfg m" "active m2 = (if active m = code then [] else active m)"
    "shuttingDown m2 = shuttingDown m"
    by (auto simp: m2_def h stopInstance_frame split: option.splits)
  have m2h: "heap m2 q = heap (fst (stop_section code p m)) q" if "q \<in> snd ` set (instances m)" for q
  proof (cases "pendingReplacement (heap m p)")
    case (Some r)
    then have "q \<noteq> r" using rp that by blast
    with Some show ?thesis by (simp add: m2_def stopInstance_frame(4))
  qed (simp add: m2_def)
  show "snd (stop e code m) = None" "instances (fst (stop e code m)) = instances m" "mcfg (fst (stop e code m)) = mcfg m"
    "active (fst (stop e code m)) = (if active m = code then [] else active m)"
    "shuttingDown (fst (stop e code m)) = shuttingDown m"
    by (simp_all add: s m2 can)
  show "Status (heap (fst (stop e code m)) p) = Draining" using m2h [OF pin] by (simp add: s h)
  show "heap (fst (stop e code m)) q = heap m q" if "q \<in> snd ` set (instances m)" "q \<noteq> p" for q
    using m2h [OF that(1)] that(2) by (simp add: s h)
  have "minv m2" using m by (auto simp: m2_def intro: minv_stopInstance minv_stop_section split: option.splits)
  then show "minv (fst (stop e code m))" by (simp add: s minv_spawn minv_forgetInstance)
qed

section \<open>The limit\<close>

text \<open>A country that was stopped and started again keeps the draining mark of its instance, and a stop of an
  instance with this mark does nothing to its process: the stale countries.\<close>

definition stale_codes :: "Manager \<Rightarrow> string set" where
  "stale_codes m = {code. \<exists>p. map_of (instances m) code = Some p \<and> online (Status (heap m p)) \<and> draining (heap m p)}"

lemma stale_online: "stale_codes m \<subseteq> online_codes m"
  by (auto simp: stale_codes_def online_codes_def)

lemma finite_stale [simp]: "finite (stale_codes m)"
  using stale_online finite_online by (rule finite_subset)

text \<open>Online and stale countries depend on the statuses and marks only.\<close>

lemma codes_cong:
  assumes "instances m' = instances m"
    and "\<And>q. q \<in> snd ` set (instances m) \<Longrightarrow> Status (heap m' q) = Status (heap m q) \<and> draining (heap m' q) = draining (heap m q)"
  shows "online_codes m' = online_codes m" "stale_codes m' = stale_codes m"
proof -
  have "map_of (instances m) k = Some q \<Longrightarrow> Status (heap m' q) = Status (heap m q) \<and> draining (heap m' q) = draining (heap m q)" for k q
    using assms(2) by (metis image_eqI map_of_SomeD snd_conv)
  then show "online_codes m' = online_codes m" "stale_codes m' = stale_codes m"
    by (auto simp: online_codes_def stale_codes_def assms(1))
qed

lemma stop_stale:
  assumes m: "minv m" and p: "map_of (instances m) code = Some p" and c: "cmd (heap m p) \<noteq> None" "draining (heap m p)"
  shows "snd (stop e code m) = None" "instances (fst (stop e code m)) = instances m" "mcfg (fst (stop e code m)) = mcfg m"
    "active (fst (stop e code m)) = active m" "shuttingDown (fst (stop e code m)) = shuttingDown m" "minv (fst (stop e code m))"
    "\<And>q. q \<in> snd ` set (instances m) \<Longrightarrow> heap (fst (stop e code m)) q = (if q = p then abandon_replacement (heap m p) else heap m q)"
proof -
  have can: "normalizeCode code = code" using instances_lookup [OF minvD(2) [OF m] p] by simp
  have ss: "stop_section code p m = (modify p abandon_replacement m, Stop_already)"
    using c by (simp add: stop_section_def Let_def abandon_replacement_def)
  define m2 where "m2 = (case pendingReplacement (heap m p) of None \<Rightarrow> modify p abandon_replacement m
      | Some r \<Rightarrow> stopInstance e r (modify p abandon_replacement m))"
  have s: "stop e code m = (m2, None)" using p by (simp add: stop_def can ss m2_def)
  have rp: "r \<notin> snd ` set (instances m)" if "pendingReplacement (heap m p) = Some r" for r
    using minvD(3) [OF m] that by (auto simp: pending_ok_def)
  show "snd (stop e code m) = None" "instances (fst (stop e code m)) = instances m" "mcfg (fst (stop e code m)) = mcfg m"
    "active (fst (stop e code m)) = active m" "shuttingDown (fst (stop e code m)) = shuttingDown m"
    by (auto simp: s m2_def stopInstance_frame split: option.splits)
  show "heap (fst (stop e code m)) q = (if q = p then abandon_replacement (heap m p) else heap m q)"
    if "q \<in> snd ` set (instances m)" for q
  proof (cases "pendingReplacement (heap m p)")
    case (Some r)
    then have "q \<noteq> r" using that rp by blast
    with Some show ?thesis by (simp add: s m2_def stopInstance_frame(4))
  qed (simp add: s m2_def)
  have "minv (modify p abandon_replacement m)" using minv_stop_section [OF m, of code p] ss by simp
  then show "minv (fst (stop e code m))" by (auto simp: s m2_def intro: minv_stopInstance split: option.splits)
qed

lemma abandon_keeps [simp]:
  "Status (abandon_replacement i) = Status i" "draining (abandon_replacement i) = draining i"
  "StartedAt (abandon_replacement i) = StartedAt i"
  by (simp_all add: abandon_replacement_def)

lemma stop_online:
  assumes m: "minv m" and p: "map_of (instances m) code = Some p" "online (Status (heap m p))"
  shows "online_codes (fst (stop e code m)) = online_codes m - ({code} - stale_codes m)"
    "stale_codes (fst (stop e code m)) = stale_codes m"
    "minv (fst (stop e code m))" "snd (stop e code m) = None" "mcfg (fst (stop e code m)) = mcfg m"
    "instances (fst (stop e code m)) = instances m" "shuttingDown (fst (stop e code m)) = shuttingDown m"
    "code \<noteq> active m \<Longrightarrow> active (fst (stop e code m)) = active m"
    "\<And>q. q \<in> snd ` set (instances m) \<Longrightarrow> q \<noteq> p \<Longrightarrow> heap (fst (stop e code m)) q = heap m q"
proof -
  let ?m = "fst (stop e code m)"
  have c: "cmd (heap m p) \<noteq> None" using inst_okD [OF m(1), of p] p(2) by (auto simp: inst_ok_def)
  have here: "code \<in> stale_codes m \<longleftrightarrow> draining (heap m p)" using p by (auto simp: stale_codes_def)
  have "online_codes ?m = online_codes m - ({code} - stale_codes m) \<and> stale_codes ?m = stale_codes m \<and> minv ?m
    \<and> snd (stop e code m) = None \<and> mcfg ?m = mcfg m \<and> instances ?m = instances m \<and> shuttingDown ?m = shuttingDown m
    \<and> (code \<noteq> active m \<longrightarrow> active ?m = active m)
    \<and> (\<forall>q. q \<in> snd ` set (instances m) \<longrightarrow> q \<noteq> p \<longrightarrow> heap ?m q = heap m q)"
  proof (cases "draining (heap m p)")
    case True
    note s = stop_stale [OF m p(1) c True, where e = e]
    have "online_codes ?m = online_codes m" "stale_codes ?m = stale_codes m" using s(7) by (intro codes_cong [OF s(2)]; simp)+
    with s here True show ?thesis by auto
  next
    case False
    note s = stop_effect [OF m(1) p(1) c False, where e = e]
    have inj: "map_of (instances m) k = Some p \<longleftrightarrow> k = code" for k
      using instances_inj [OF minvD(2) [OF m(1)]] p(1) by blast
    have other: "heap ?m q = heap m q" if "map_of (instances m) k = Some q" "k \<noteq> code" for k q
    proof -
      have "q \<noteq> p" using that inj by auto
      moreover have "q \<in> snd ` set (instances m)" using that(1) by (metis image_eqI map_of_SomeD snd_conv)
      ultimately show ?thesis using s(5) by blast
    qed
    have "k \<in> online_codes ?m \<longleftrightarrow> k \<in> online_codes m - {code}" "k \<in> stale_codes ?m \<longleftrightarrow> k \<in> stale_codes m" for k
      using s(2,4) other p here False by (cases "k = code"; auto simp: online_codes_def stale_codes_def)+
    then have "online_codes ?m = online_codes m - {code}" "stale_codes ?m = stale_codes m" by blast+
    with s here False show ?thesis by auto
  qed
  then show "online_codes ?m = online_codes m - ({code} - stale_codes m)" "stale_codes ?m = stale_codes m" "minv ?m"
    "snd (stop e code m) = None" "mcfg ?m = mcfg m" "instances ?m = instances m" "shuttingDown ?m = shuttingDown m"
    "code \<noteq> active m \<Longrightarrow> active ?m = active m" "\<And>q. q \<in> snd ` set (instances m) \<Longrightarrow> q \<noteq> p \<Longrightarrow> heap ?m q = heap m q"
    by blast+
qed

text \<open>What makeRoom leaves: nothing to do, nobody to evict, or the oldest country evicted.\<close>

lemma makeRoom_cases:
  assumes m: "minv m"
  obtains (target_on) "target \<in> online_codes m" "makeRoom e target m = (m, None)"
  | (room) "target \<notin> online_codes m" "int (card (online_codes m)) < MaxRunning (mcfg m)" "makeRoom e target m = (m, None)"
  | (nobody) err where "target \<notin> online_codes m" "makeRoom e target m = (m, Some err)" "online_codes m \<subseteq> {active m}"
  | (evict) code p where "target \<notin> online_codes m" "makeRoom e target m = stop e code m" "code \<in> online_codes m" "code \<noteq> active m"
      "map_of (instances m) code = Some p" "oldest_in m (instances m) p" "int (card (online_codes m)) \<ge> MaxRunning (mcfg m)"
proof -
  have ok: "maps_ok m" by (rule minvD(2) [OF m])
  then have d: "distinct (map fst (instances m))" by (simp add: maps_ok_def)
  have count: "length (filter (\<lambda>(code, p). online (Status (heap m p))) (instances m)) = card (online_codes m)"
    using online_codes_entries(2) [OF ok] by (simp add: online_entries_def)
  have on: "target \<in> online_codes m \<longleftrightarrow> room_scan target m (instances m) 0 None = None"
    using d by (auto simp: online_codes_def room_scan_None)
  show ?thesis
  proof (cases "room_scan target m (instances m) 0 None")
    case None
    then show ?thesis using on by (intro target_on) (simp_all add: makeRoom_def)
  next
    case (Some nv)
    obtain n v where nv: "nv = (n, v)" by fastforce
    have n: "n = int (card (online_codes m))" using room_scan_count [of target m "instances m" 0 None n v] Some nv count by simp
    have t: "target \<notin> online_codes m" using on Some by simp
    show ?thesis
    proof (cases "n < MaxRunning (mcfg m)")
      case True
      then show ?thesis using Some nv n t by (intro room) (simp_all add: makeRoom_def)
    next
      case full: False
      show ?thesis
      proof (cases v)
        case None
        have "\<forall>(code, p) \<in> set (instances m). online (Status (heap m p)) \<longrightarrow> code = active m"
          using room_scan_nobody [of target m "instances m" 0 None n] Some nv None by simp
        then have "online_codes m \<subseteq> {active m}" by (auto simp: online_codes_def dest: map_of_SomeD)
        then show ?thesis using Some nv None full t by (intro nobody) (simp_all add: makeRoom_def)
      next
        case (Some p)
        obtain code where c: "(code, p) \<in> set (instances m)" "online (Status (heap m p))" "code \<noteq> active m" "oldest_in m (instances m) p"
          using room_scan_oldest [of target m "instances m" 0 None n p] \<open>room_scan _ _ _ _ _ = Some nv\<close> nv Some by auto
        have k: "map_of (instances m) code = Some p" "code_of m p = code" using c(1) d ok by (auto simp: maps_ok_def)
        show ?thesis
          using c k t full n nv Some \<open>room_scan _ _ _ _ _ = Some nv\<close>
          by (intro evict [of code p]) (auto simp: makeRoom_def online_codes_def)
      qed
    qed
  qed
qed

lemma start_section_frame:
  assumes "start_section e code m = (m', r)" "map_of (instances m) code = Some p"
  shows "instances m' = instances m" "mcfg m' = mcfg m" "active m' = active m" "shuttingDown m' = shuttingDown m"
    "q \<noteq> p \<Longrightarrow> Status (heap m' q) = Status (heap m q)" "resumeNodes m' = resumeNodes m"
    "r = Inr (Some (p', c, d)) \<Longrightarrow> p' = p \<and> cmd (heap m' p) = Some c \<and> Status (heap m' p) = Starting"
proof -
  let ?d = "path_join [StateDir (mcfg m), code]"
  obtain m1 x where pr: "prepareTorCommand e p ?d m = (m1, x)" by fastforce
  note f = prepare_frame [OF pr, unfolded frame_of_def]
  show "instances m' = instances m" "mcfg m' = mcfg m" "active m' = active m" "shuttingDown m' = shuttingDown m"
    "q \<noteq> p \<Longrightarrow> Status (heap m' q) = Status (heap m q)" "resumeNodes m' = resumeNodes m"
    "r = Inr (Some (p', c, d)) \<Longrightarrow> p' = p \<and> cmd (heap m' p) = Some c \<and> Status (heap m' p) = Starting"
    using assms pr f
    by (auto simp: start_section_def Let_def removeInstanceDir_def launch_def started_def split: if_splits option.splits)
qed

lemma start_section_online:
  assumes m: "minv m" and s: "start_section e code m = (m', r)"
  shows "online_codes m' \<subseteq> insert code (online_codes m)" "mcfg m' = mcfg m" "active m' = active m"
proof -
  have "online_codes m' \<subseteq> insert code (online_codes m) \<and> mcfg m' = mcfg m \<and> active m' = active m"
  proof (cases "map_of (instances m) code")
    case None
    with s show ?thesis by (auto simp: start_section_def)
  next
    case (Some p)
    note f = start_section_frame [OF s Some]
    have "k \<in> online_codes m" if on: "k \<in> online_codes m'" and ne: "k \<noteq> code" for k
    proof -
      obtain q where q: "map_of (instances m) k = Some q" "online (Status (heap m' q))"
        using on unfolding online_codes_def f(1) by blast
      then have "q \<noteq> p" using instances_inj [OF minvD(2) [OF m]] Some ne by blast
      with q f(5) show ?thesis by (auto simp: online_codes_def)
    qed
    with f show ?thesis by blast
  qed
  then show "online_codes m' \<subseteq> insert code (online_codes m)" "mcfg m' = mcfg m" "active m' = active m" by simp_all
qed

lemma online_codes_cong:
  "instances m' = instances m \<Longrightarrow> heap m' = heap m \<Longrightarrow> online_codes m' = online_codes m"
  by (simp add: online_codes_def)

lemma rememberInstance_frame [simp]:
  "instances (rememberInstance e p m) = instances m" "mcfg (rememberInstance e p m) = mcfg m"
  "heap (rememberInstance e p m) = heap m" "active (rememberInstance e p m) = active m"
  by (simp_all add: rememberInstance_def saveRuntimeState_def remember_node_def Let_def)

lemma Start_online:
  assumes m: "minv m" and s: "Start e code m = (m', r)"
  shows "mcfg m' = mcfg m \<and> active m' = active m \<and>
    (online_codes m' \<subseteq> online_codes m \<or>
     (\<exists>m1. makeRoom (e 0) (normalizeCode code) m = (m1, None) \<and> online_codes m' \<subseteq> insert (normalizeCode code) (online_codes m1)))"
proof -
  let ?c = "normalizeCode code"
  obtain m1 err where mr: "makeRoom (e 0) ?c m = (m1, err)" by fastforce
  have 1: "minv m1 \<and> mcfg m1 = mcfg m \<and> active m1 = active m \<and> online_codes m1 \<subseteq> online_codes m"
    using m
  proof (cases rule: makeRoom_cases [of m ?c "e 0"])
    case (evict k p)
    then have o: "online (Status (heap m p))" by (auto simp: online_codes_def)
    from stop_online [OF m evict(5) o, where e = "e 0"] evict(2,4) mr show ?thesis by (auto simp: prod_eq_iff)
  qed (use mr m in auto)
  obtain m2 x where ss: "start_section (e 1) ?c m1 = (m2, x)" by fastforce
  note 2 = start_section_online [OF _ ss]
  consider "m' = m" | "m' = m1" "err \<noteq> None" | "m' = m2" "err = None"
    | p c d where "m' = spawn (AwaitReady p c) (spawn (Watch p c d) (rememberInstance (e 2) p m2))" "err = None"
    using s mr ss by (auto simp: Start_def Let_def split: if_splits option.splits sum.splits)
  then show ?thesis
  proof cases
    case 4
    then have "online_codes m' = online_codes m2" by (intro online_codes_cong) simp_all
    with 1 2 4 mr show ?thesis by auto
  qed (use 1 2 mr in auto)
qed

text \<open>The operations are runs of the system.\<close>

lemma stop_all_steps: "mstep\<^sup>*\<^sup>* m (fst (stop e code m))"
proof (cases "map_of (instances m) (normalizeCode code)")
  case None
  then show ?thesis by (simp add: stop_def)
next
  case (Some p)
  show ?thesis by (rule converse_rtranclp_into_rtranclp [OF s_stop [OF Some] stop_steps [OF Some]])
qed

lemma stop_frame: "shuttingDown (fst (stop e code m)) = shuttingDown m"
  by (auto simp: stop_def Let_def stop_section_def split_beta stopInstance_frame split: option.splits stop_mark.splits)

lemma makeRoom_steps:
  assumes "makeRoom e t m = (m1, r)"
  shows "mstep\<^sup>*\<^sup>* m m1 \<and> shuttingDown m1 = shuttingDown m"
proof -
  consider "m1 = m" | code where "m1 = fst (stop e code m)"
    using assms by (auto simp: makeRoom_def split: option.splits if_splits prod.splits) (metis fst_conv)
  then show ?thesis by cases (auto simp: stop_frame stop_all_steps)
qed

lemma Start_steps: "Start e code m = (m', r) \<Longrightarrow> mstep\<^sup>*\<^sup>* m m'"
proof -
  assume s: "Start e code m = (m', r)"
  let ?c = "normalizeCode code"
  obtain m1 err where mr: "makeRoom (e 0) ?c m = (m1, err)" by fastforce
  obtain m2 x where ss: "start_section (e 1) ?c m1 = (m2, x)" by fastforce
  note 1 = makeRoom_steps [OF mr]
  have 2: "mstep\<^sup>*\<^sup>* m m2" if "\<not> shuttingDown m"
    using 1 s_start [of m1 "e 1" ?c] ss that by (metis fst_conv rtranclp.rtrancl_into_rtrancl)
  have 3: "mstep\<^sup>*\<^sup>* m2 (rememberInstance (e 2) p m2)" if x: "x = Inr (Some (p, c, d))" for p c d
  proof -
    obtain q where q: "map_of (instances m1) ?c = Some q"
      using ss x by (cases "map_of (instances m1) ?c") (auto simp: start_section_def)
    with start_section_frame [OF ss q] x show ?thesis by (intro rememberInstance_steps [of m2 ?c]) auto
  qed
  consider "m' = m" | "m' = m1" | "m' = m2" "\<not> shuttingDown m"
    | p c d where "m' = spawn (AwaitReady p c) (spawn (Watch p c d) (rememberInstance (e 2) p m2))" "x = Inr (Some (p, c, d))"
        "\<not> shuttingDown m"
    using s mr ss by (auto simp: Start_def Let_def split: if_splits option.splits sum.splits)
  then show ?thesis
  proof cases
    case (4 p c d)
    have "mstep\<^sup>*\<^sup>* m (rememberInstance (e 2) p m2)" using 2 [OF 4(3)] 3 [OF 4(2)] by (rule rtranclp_trans)
    then show ?thesis unfolding 4(1) by (intro steps_then [OF s_spawn])
  qed (use 1 2 in auto)
qed

section \<open>Properties\<close>



text \<open>C40: The exception of the limit is real.  When the limit is reached and all online countries have been stopped
  and started again before, none of them being the active one, then starting one more country succeeds although
  nothing was stopped: one country more than max_running is online.\<close>

theorem restarted_countries_break_limit:
  assumes "reach minit mstep m" and "int (length (online_entries m)) = MaxRunning (mcfg m)" and "1 \<le> MaxRunning (mcfg m)"
    and "online_codes m \<subseteq> stale_codes m - {active m}"
    and "map_of (instances m) code = Some q" "Status (heap m q) \<in> {Stopped, Errored}" "cmd (heap m q) = None"
    and "\<not> shuttingDown m" "launch_ok (e 1)" and "Start e code m = (m', r)"
  shows "r = None \<and> int (length (online_entries m')) = MaxRunning (mcfg m') + 1"
proof -
  have m: "minv m" using assms(1) by (rule manager.reach_inv)
  have can: "normalizeCode code = code" using instances_lookup [OF minvD(2) [OF m] assms(5)] by simp
  have full: "int (card (online_codes m)) = MaxRunning (mcfg m)"
    using assms(2) online_codes_entries(2) [OF minvD(2) [OF m]] by simp
  have off: "code \<notin> online_codes m" using assms(5,6) by (auto simp: online_codes_def)
  obtain m1 where m1: "makeRoom (e 0) code m = (m1, None)" "online_codes m1 = online_codes m" "instances m1 = instances m"
      "heap m1 q = heap m q" "mcfg m1 = mcfg m"
    using m
  proof (cases rule: makeRoom_cases [of m code "e 0"])
    case (nobody err)
    then have "online_codes m = {}" using assms(4) by auto
    with full assms(3) show ?thesis by simp
  next
    case (evict k p)
    then have o: "online (Status (heap m p))" by (auto simp: online_codes_def)
    note s = stop_online [OF m evict(5) o, where e = "e 0"]
    have "k \<in> stale_codes m" using evict(3) assms(4) by blast
    moreover have "q \<noteq> p" using o assms(6) by auto
    moreover have "q \<in> snd ` set (instances m)" using assms(5) by (metis image_eqI map_of_SomeD snd_conv)
    ultimately show ?thesis using s evict(2) by (intro that [of "fst (stop (e 0) k m)"]) (auto simp: prod_eq_iff)
  qed (use off full in auto)
  obtain m2 c d where ss: "start_section (e 1) code m1 = (m2, Inr (Some (q, c, d)))"
    using m1(3,4) assms(5-7,9) by (auto intro: start_section_ok [of "e 1" m1 code q])
  have f: "map_of (instances m1) code = Some q" using m1(3) assms(5) by simp
  note g = start_section_frame [OF ss f]
  have m': "m' = spawn (AwaitReady q c) (spawn (Watch q c d) (rememberInstance (e 2) q m2))" "r = None"
    using assms(5,8,10) m1(1) ss by (auto simp: Start_def can has_key_def)
  have "online_codes m2 = insert code (online_codes m1)"
  proof (rule set_eqI)
    fix k
    have "map_of (instances m) k = Some q \<longleftrightarrow> k = code" using instances_inj [OF minvD(2) [OF m]] assms(5) by blast
    then have "x \<noteq> q" if "map_of (instances m) k = Some x" "k \<noteq> code" for x using that by auto
    then show "k \<in> online_codes m2 \<longleftrightarrow> k \<in> insert code (online_codes m1)"
      using g(1,5,7) f m1(3) by (cases "k = code") (auto simp: online_codes_def)
  qed
  moreover have "online_codes m' = online_codes m2" unfolding m' by (intro online_codes_cong) simp_all
  ultimately have "int (card (online_codes m')) = MaxRunning (mcfg m) + 1" using m1(2) off full by simp
  moreover have "mcfg m' = mcfg m" using Start_online [OF m assms(10)] by simp
  moreover have "minv m'" using manager.rtranclp_inv [OF Start_steps [OF assms(10)] m] .
  ultimately show ?thesis using m'(2) online_codes_entries(2) [OF minvD(2)] by simp
qed

text \<open>The state of the witness: one country was stopped and started again, and the limit is one.\<close>

definition us_limited :: Manager where
  "us_limited = us_running_again\<lparr>mcfg := (mcfg us_running_again)\<lparr>MaxRunning := 1\<rparr>\<rparr>"

lemma us_running_again_reach: "reach minit mstep us_running_again"
proof -
  have "mstep\<^sup>*\<^sup>* us_started us_exited"
    unfolding us_exited_def by (rule steps_then, rule s_exit, rule steps_then, rule s_stop_instance, rule stop_all_steps)
  moreover have "mstep\<^sup>*\<^sup>* us_exited us_running_again"
    unfolding us_running_again_def
    by (rule steps_then, rule s_running, rule steps_then, rule s_ready, rule r_into_rtranclp, rule s_start [OF us_exited_facts(3)])
  ultimately show ?thesis using us_started_reach manager.reach_rtranclp by (meson rtranclp_trans)
qed

lemma us_running_again_facts:
  "instances us_running_again = instances sample_start" "active us_running_again = []" "\<not> shuttingDown us_running_again"
  "draining (heap us_running_again 0)" "p \<noteq> 0 \<Longrightarrow> heap us_running_again p = heap sample_start p"
proof -
  have x: "active us_exited = []" "draining (heap us_exited 0)" "p \<noteq> 0 \<Longrightarrow> heap us_exited p = heap us_started p"
    using us_started_facts us_started_lookup
    by (simp_all add: us_exited_def stop_def stop_section_def abandon_replacement_def Let_def forgetInstance_def forget_node_def
        saveRuntimeState_def calm_env_def calm_io_def stopInstance_def cancel_rotation_def signalProcess_def watch_exit_def exited_def)
  have s: "p \<noteq> 0 \<Longrightarrow> heap us_started p = heap sample_start p"
    unfolding us_started_def using start_section_fst(1) [OF calm_env_ok sample_start_lookup(1)] sample_start_us by simp
  have "map_of (instances us_exited) ''us'' = Some 0" using us_exited_facts sample_start_lookup(1) by simp
  note g = start_section_fst [OF calm_env_ok this]
  show "instances us_running_again = instances sample_start" "active us_running_again = []" "\<not> shuttingDown us_running_again"
    "draining (heap us_running_again 0)" "p \<noteq> 0 \<Longrightarrow> heap us_running_again p = heap sample_start p"
    using g us_exited_facts x s
    by (simp_all add: us_running_again_def started_def ready_section_def markInstanceRunning_def)
qed

lemma sample_start_offline: "map_of (instances sample_start) k = Some p \<Longrightarrow> \<not> online (Status (heap sample_start p))"
proof -
  have "online_entries sample_start = []" by code_simp
  then show "map_of (instances sample_start) k = Some p \<Longrightarrow> \<not> online (Status (heap sample_start p))"
    by (auto simp: online_entries_def filter_empty_conv dest: map_of_SomeD)
qed

lemma jp_stopped: "Status (heap sample_start 1) = Stopped" "cmd (heap sample_start 1) = None" "\<not> draining (heap sample_start 1)"
  by code_simp+

theorem restarted_countries_break_limit_witness:
  "length (online_entries us_limited) = 1 \<and> MaxRunning (mcfg us_limited) = 1
   \<and> (\<exists>m'. Start (\<lambda>k. calm_env) ''jp'' us_limited = (m', None) \<and> length (online_entries m') = 2)"
proof -
  have r: "reach minit mstep us_limited" unfolding us_limited_def by (rule reach_step [OF us_running_again_reach s_limit])
  have f: "instances us_limited = instances sample_start" "active us_limited = []" "\<not> shuttingDown us_limited"
      "heap us_limited = heap us_running_again" "MaxRunning (mcfg us_limited) = 1"
    using us_running_again_facts by (simp_all add: us_limited_def)
  have ok: "maps_ok sample_start" by (rule minvD(2) [OF manager.reach_inv [OF sample_start_reach]])
  have p0: "map_of (instances sample_start) k = Some 0 \<longleftrightarrow> k = ''us''" for k
    using instances_inj [OF ok] sample_start_lookup(1) by blast
  have "online (Status (heap us_limited p)) \<longleftrightarrow> p = 0" if "map_of (instances sample_start) k = Some p" for k p
    using sample_start_offline [OF that] us_running_again_facts(5) [of p] us_running_again_status f(4) by (cases "p = 0") simp_all
  then have "k \<in> online_codes us_limited \<longleftrightarrow> map_of (instances sample_start) k = Some 0"
      "k \<in> stale_codes us_limited \<longleftrightarrow> map_of (instances sample_start) k = Some 0" for k
    using us_running_again_facts(4) f(4) by (auto simp: online_codes_def stale_codes_def f(1))
  then have codes: "online_codes us_limited = {''us''}" "stale_codes us_limited = {''us''}" unfolding p0 by blast+
  have len: "length (online_entries us_limited) = 1"
    using online_codes_entries(2) [OF minvD(2) [OF manager.reach_inv [OF r]]] codes by simp
  obtain m' x where s: "Start (\<lambda>k. calm_env) ''jp'' us_limited = (m', x)" by fastforce
  have jp: "Status (heap us_running_again 1) = Stopped" "cmd (heap us_running_again 1) = None"
    using jp_stopped us_running_again_facts(5) [of 1] by simp_all
  have "x = None \<and> int (length (online_entries m')) = MaxRunning (mcfg m') + 1"
    by (rule restarted_countries_break_limit [where q = 1, OF r _ _ _ _ _ _ f(3) _ s])
      (simp_all add: len f codes sample_start_lookup jp [simplified])
  moreover have "mcfg m' = mcfg us_limited" using Start_online [OF manager.reach_inv [OF r] s] by simp
  ultimately show ?thesis using len f(5) s by auto
qed

lemma victims_facts:
  assumes "minv m"
  shows "distinct (map (code_of m) (victims m))"
    "\<And>p. p \<in> set (victims m) \<Longrightarrow> map_of (instances m) (code_of m p) = Some p \<and> online (Status (heap m p)) \<and> code_of m p \<noteq> active m"
    "int (length (victims m)) = max 0 (min (int (length (online_entries m)) - MaxRunning (mcfg m))
        (int (card (online_codes m - {active m}))))"
proof -
  have ok: "maps_ok m" by (rule minvD(2) [OF assms])
  then have d: "distinct (map fst (instances m))" by (simp add: maps_ok_def)
  let ?c = "filter (\<lambda>(code, p). code \<noteq> active m) (online_entries m)"
  let ?s = "sort_slice (\<lambda>a b. StartedAt (heap m a) < StartedAt (heap m b)) (map snd ?c)"
  have cands: "map_of (instances m) (code_of m p) = Some p \<and> online (Status (heap m p)) \<and> code_of m p \<noteq> active m"
    if "p \<in> snd ` set ?c" for p
    using that ok d by (auto simp: online_entries_def maps_ok_def)
  have "map (code_of m \<circ> snd) ?c = map fst ?c"
    using ok by (intro map_cong) (auto simp: online_entries_def maps_ok_def)
  moreover have "distinct (map fst ?c)" unfolding online_entries_def using d by (simp add: distinct_filter_keys)
  ultimately have "distinct (map (code_of m) (map snd ?c))" by (metis map_map)
  moreover have "mset (map (code_of m) ?s) = mset (map (code_of m) (map snd ?c))" by (simp add: multiset.map_comp)
  ultimately have ds: "distinct (map (code_of m) ?s)" using mset_eq_imp_distinct_iff by blast
  have v: "victims m = take (nat (int (length (online_entries m)) - MaxRunning (mcfg m))) ?s"
    by (simp add: victims_def Let_def)
  show "distinct (map (code_of m) (victims m))" unfolding v take_map [symmetric] using ds by (rule distinct_take)
  show "map_of (instances m) (code_of m p) = Some p \<and> online (Status (heap m p)) \<and> code_of m p \<noteq> active m"
    if "p \<in> set (victims m)" for p
    using that cands [of p] unfolding v by (auto dest!: in_set_takeD)
  have "online_codes m - {active m} = fst ` set ?c"
    using online_codes_entries(1) [OF ok] by auto
  then have "card (online_codes m - {active m}) = length ?c"
    using \<open>distinct (map fst ?c)\<close> by (metis distinct_card length_map list.set_map)
  then show "int (length (victims m)) = max 0 (min (int (length (online_entries m)) - MaxRunning (mcfg m))
        (int (card (online_codes m - {active m}))))"
    unfolding v by simp
qed

lemma stop_all_online:
  assumes "minv m" "distinct codes" "set codes \<subseteq> online_codes m"
  shows "online_codes (stop_all e codes m) = online_codes m - (set codes - stale_codes m) \<and> minv (stop_all e codes m)"
  using assms
proof (induction codes arbitrary: m e)
  case (Cons code codes)
  obtain p where p: "map_of (instances m) code = Some p" "online (Status (heap m p))"
    using Cons.prems(3) by (auto simp: online_codes_def)
  note s = stop_online [OF Cons.prems(1) p, where e = "e 0"]
  have "set codes \<subseteq> online_codes (fst (stop (e 0) code m))" using Cons.prems(2,3) s(1) by auto
  from Cons.IH [OF s(3) _ this, of "\<lambda>k. e (Suc k)"] Cons.prems(2) s(1,2) show ?case by auto
qed simp

lemma victims_oldest:
  assumes p: "p \<in> set (victims m)" and q: "q \<notin> set (victims m)" "map_of (instances m) b = Some q" "online (Status (heap m q))" "b \<noteq> active m"
  shows "StartedAt (heap m p) \<le> StartedAt (heap m q)"
proof -
  let ?lt = "\<lambda>a b. StartedAt (heap m a) < StartedAt (heap m b)"
  let ?cs = "map snd (filter (\<lambda>(code, p). code \<noteq> active m) (online_entries m))"
  let ?n = "nat (int (length (online_entries m)) - MaxRunning (mcfg m))"
  have vs: "victims m = take ?n (sort_slice ?lt ?cs)" by (simp add: victims_def Let_def)
  have "q \<in> set (sort_slice ?lt ?cs)" using q(2-4) by (force simp: online_entries_def dest: map_of_SomeD)
  then have "q \<in> set (drop ?n (sort_slice ?lt ?cs))"
    using q(1) unfolding vs by (metis Un_iff append_take_drop_id set_append)
  then have "\<not> ?lt q p" using p unfolding vs by (rule strict_weak.take_before_drop [OF strict_weak_key, rotated])
  then show ?thesis by simp
qed

lemma update_limit_online:
  fixes limit :: int
  assumes m: "minv m"
  defines "m1 \<equiv> m\<lparr>mcfg := (mcfg m)\<lparr>MaxRunning := limit\<rparr>\<rparr>"
  defines "vs \<equiv> map (code_of m1) (victims m1)"
  shows "minv m1" "minv (UpdateMaxRunning e limit m)" "online_codes m1 = online_codes m" "set vs \<subseteq> online_codes m"
    "online_codes (UpdateMaxRunning e limit m) = online_codes m - (set vs - stale_codes m)"
    "int (card (online_codes (UpdateMaxRunning e limit m))) \<le> int (card (online_codes m)) - int (length (victims m1)) + int (card (stale_codes m))"
proof -
  show m1: "minv m1" unfolding m1_def using m(1) by (simp add: minv_config)
  show same: "online_codes m1 = online_codes m" by (simp add: m1_def online_codes_def)
  have stale: "stale_codes m1 = stale_codes m" by (simp add: m1_def stale_codes_def)
  note v = victims_facts [OF m1]
  have sub: "set vs \<subseteq> online_codes m1" using v(2) by (auto simp: vs_def online_codes_def)
  then show "set vs \<subseteq> online_codes m" by (simp add: same)
  show "minv (UpdateMaxRunning e limit m)"
    and o: "online_codes (UpdateMaxRunning e limit m) = online_codes m - (set vs - stale_codes m)"
    using stop_all_online [OF m1 v(1) sub [unfolded vs_def], of e]
    by (simp_all add: UpdateMaxRunning_def m1_def [symmetric] Let_def same stale vs_def)
  have c: "card (set vs) = length (victims m1)" using v(1) distinct_card by (fastforce simp: vs_def)
  have "card (set vs) \<le> card (set vs - stale_codes m) + card (stale_codes m)"
    by (metis card_mono card_Un_le finite_UnI finite_Diff finite_set finite_stale le_trans Un_Diff_cancel2 Un_upper1)
  moreover have "card (online_codes m - (set vs - stale_codes m)) = card (online_codes m) - card (set vs - stale_codes m)"
    using sub same by (intro card_Diff_subset) auto
  moreover have "card (set vs - stale_codes m) \<le> card (online_codes m)" using sub same by (intro card_mono) auto
  ultimately show "int (card (online_codes (UpdateMaxRunning e limit m)))
      \<le> int (card (online_codes m)) - int (length (victims m1)) + int (card (stale_codes m))"
    unfolding o c [symmetric] by linarith
qed


text \<open>Two countries online: the second is started after the first.\<close>

definition us_jp_started :: Manager where
  "us_jp_started = fst (start_section (calm_env\<lparr>now := 5\<rparr>) ''jp'' us_started)"

lemma us_started_others: "p \<noteq> 0 \<Longrightarrow> heap us_started p = heap sample_start p"
  unfolding us_started_def using start_section_fst(1) [OF calm_env_ok sample_start_lookup(1)] sample_start_us by simp


end
