(* ===== verification/Manager_Recovery.thy ===== *)
theory Manager_Recovery
  imports Manager_Limits
begin

text \<open>
  Recovery: the runtime state survives a restart of the program, and a replacement that is cancelled
  leaves the route as it was.
\<close>

section \<open>The runtime state file\<close>

definition save_ok :: "Env \<Rightarrow> bool" where
  "save_ok e \<longleftrightarrow> (let io = saveIO e in marshalResult io = None \<and> mkdirAll io = None \<and> createTemp io = None
     \<and> chmodTemp io = None \<and> writeTemp io = None \<and> syncTemp io = None \<and> closeTemp io = None \<and> renameTemp io = Renamed)"

lemma save_writes: "save_ok e \<Longrightarrow> stateFile (saveRuntimeState e m) = Holds (persisted_state m)"
  by (simp add: save_ok_def saveRuntimeState_def replaceFile_def Let_def)

lemma load_good_node:
  "node_ok (code, n) \<Longrightarrow> resumeNodes (load_node n m) = AList.update code n (resumeNodes m)"
proof -
  assume n: "node_ok (code, n)"
  have "n\<lparr>P_Country := (P_Country n)\<lparr>Code := Code (P_Country n)\<rparr>,
      P_ExitFingerprint := to_upper (P_ExitFingerprint n)\<rparr> = n"
    using n by (cases n) (auto simp: node_ok_def fingerprint_ok_def)
  with n show ?thesis by (auto simp: node_ok_def load_node_def Let_def fingerprint_ok_def)
qed

lemma load_good_nodes:
  assumes "\<forall>n \<in> set ns. node_ok (Code (P_Country n), n)" "distinct (map (Code \<circ> P_Country) ns)"
  shows "map_of (resumeNodes (fold load_node ns m)) code =
    (case List.find (\<lambda>n. Code (P_Country n) = code) ns of Some n \<Rightarrow> Some n | None \<Rightarrow> map_of (resumeNodes m) code)"
  using assms
proof (induction ns arbitrary: m)
  case (Cons n ns)
  have "List.find (\<lambda>x. Code (P_Country x) = Code (P_Country n)) ns = None"
    unfolding find_None_iff using Cons.prems(2) by (auto simp: image_iff)
  with Cons load_good_node [of "Code (P_Country n)" n m] show ?case by (auto split: option.splits)
qed simp

lemma find_by_code:
  assumes "distinct (map fst al)" "\<forall>(k, n) \<in> set al. Code (P_Country n) = k" "mset ns = mset (map snd al)"
  shows "List.find (\<lambda>n. Code (P_Country n) = code) ns = map_of al code"
proof -
  have s: "set ns = snd ` set al" using mset_eq_setD [OF assms(3)] by simp
  show ?thesis
  proof (cases "map_of al code")
    case None
    then have c: "code \<notin> fst ` set al" by (simp add: map_of_eq_None_iff)
    have "Code (P_Country n) \<noteq> code" if n: "n \<in> set ns" for n
    proof -
      from n s obtain k where k: "(k, n) \<in> set al" by auto
      with assms(2) have "Code (P_Country n) = k" by auto
      with k c show ?thesis by force
    qed
    then show ?thesis unfolding None find_None_iff by blast
  next
    case (Some n)
    then have n: "(code, n) \<in> set al" by (rule map_of_SomeD)
    have "n \<in> set ns" unfolding s using n by (metis image_eqI snd_conv)
    moreover have "Code (P_Country n) = code" using n assms(2) by blast
    ultimately have "List.find (\<lambda>n. Code (P_Country n) = code) ns \<noteq> None" unfolding find_None_iff by blast
    then obtain n' where f: "List.find (\<lambda>n. Code (P_Country n) = code) ns = Some n'" by blast
    then have n': "n' \<in> set ns" "Code (P_Country n') = code" by (auto simp: find_Some_iff)
    then obtain k where "(k, n') \<in> set al" using s by auto
    moreover from this have "k = code" using assms(2) n'(2) by blast
    ultimately have "(code, n') \<in> set al" by simp
    with assms(1) Some f show ?thesis by (simp add: map_of_eq_Some_iff)
  qed
qed

lemma NewManager_resume:
  assumes "\<forall>n \<in> set ns. node_ok (Code (P_Country n), n)" "distinct (map (Code \<circ> P_Country) ns)"
  shows "map_of (resumeNodes (NewManager c True (Holds \<lparr>PS_Active = a, PS_Instances = ns\<rparr>))) code = List.find (\<lambda>n. Code (P_Country n) = code) ns"
    "resumeActive (NewManager c True (Holds \<lparr>PS_Active = a, PS_Instances = ns\<rparr>)) =
       (if List.find (\<lambda>n. Code (P_Country n) = normalizeCode a) ns \<noteq> None then normalizeCode a else [])"
proof -
  let ?m0 = "add_configured c 0 (Countries c) (empty_manager c (Holds \<lparr>PS_Active = a, PS_Instances = ns\<rparr>))"
  have f: "stateFile (add_configured c k cs m) = stateFile m \<and> resumeNodes (add_configured c k cs m) = resumeNodes m
      \<and> resumeActive (add_configured c k cs m) = resumeActive m" for k cs m
    by (induction cs arbitrary: k m) (simp_all add: add_instance_def allocate_def Let_def)
  have m0: "stateFile ?m0 = Holds \<lparr>PS_Active = a, PS_Instances = ns\<rparr>" "resumeNodes ?m0 = []" "resumeActive ?m0 = []"
    using f by (simp_all add: empty_manager_def)
  have l: "map_of (resumeNodes (fold load_node ns ?m0)) x = List.find (\<lambda>n. Code (P_Country n) = x) ns" for x
    using load_good_nodes [OF assms, of ?m0 x] m0(2) by (simp split: option.splits)
  have "resumeActive (fold load_node xs m) = resumeActive m" for xs m
    by (induction xs arbitrary: m) (simp_all add: load_node_other)
  with m0(3) have r: "resumeActive (fold load_node ns ?m0) = []" by simp
  show "map_of (resumeNodes (NewManager c True (Holds \<lparr>PS_Active = a, PS_Instances = ns\<rparr>))) code = List.find (\<lambda>n. Code (P_Country n) = code) ns"
    "resumeActive (NewManager c True (Holds \<lparr>PS_Active = a, PS_Instances = ns\<rparr>)) =
       (if List.find (\<lambda>n. Code (P_Country n) = normalizeCode a) ns \<noteq> None then normalizeCode a else [])"
    using l r by (simp_all add: NewManager_def loadRuntimeState_def m0(1) Let_def has_key_def)
qed

text \<open>C16: The runtime state survives a restart.  In every reachable state, when the state file is written
  without an error, a manager created from that file - with any configuration - wants to resume exactly
  the countries that the old one had, with the same exit nodes and start times, and makes the same
  country active, provided that it is one of them.\<close>

theorem runtime_state_survives_restart:
  assumes "reach minit mstep m" and "save_ok e"
  shows "(\<forall>code. map_of (resumeNodes (NewManager c True (stateFile (saveRuntimeState e m)))) code = map_of (resumeNodes m) code)
    \<and> resumeActive (NewManager c True (stateFile (saveRuntimeState e m))) =
        (if has_key (resumeNodes m) (active m) then active m else [])"
proof -
  have m: "minv m" using assms(1) by (rule manager.reach_inv)
  then have ok: "distinct (map fst (resumeNodes m))" "\<forall>kn \<in> set (resumeNodes m). node_ok kn"
    using minvD(7) by (auto simp: resume_ok_def list_all_iff)
  then have codes: "\<forall>(k, n) \<in> set (resumeNodes m). Code (P_Country n) = k" by (auto simp: node_ok_def)
  have ms: "mset (sorted_nodes m) = mset (map snd (resumeNodes m))" by (simp add: sorted_nodes_def)
  have "map (Code \<circ> P_Country) (map snd (resumeNodes m)) = map fst (resumeNodes m)" using codes by auto
  moreover have "mset (map (Code \<circ> P_Country) (sorted_nodes m)) = mset (map (Code \<circ> P_Country) (map snd (resumeNodes m)))"
    using ms by (metis mset_map)
  ultimately have 2: "distinct (map (Code \<circ> P_Country) (sorted_nodes m))" using ok(1) mset_eq_imp_distinct_iff by metis
  have 1: "\<forall>n \<in> set (sorted_nodes m). node_ok (Code (P_Country n), n)"
    using mset_eq_setD [OF ms] ok(2) by (auto simp: node_ok_def)
  have f: "List.find (\<lambda>n. Code (P_Country n) = code) (sorted_nodes m) = map_of (resumeNodes m) code" for code
    by (rule find_by_code [OF ok(1) codes ms])
  have a: "normalizeCode (active m) = active m"
  proof (cases "active m = []")
    case False
    then have "canonical_code (active m)"
      using minvD(8) [OF m] minvD(2) [OF m] ok(2)
      by (force simp: active_ok_def has_key_def maps_ok_def node_ok_def dest!: map_of_SomeD)
    then show ?thesis by simp
  qed (simp add: normalizeCode_def trim_space_def trim_by.simps)
  show ?thesis
    unfolding save_writes [OF assms(2)] persisted_state_def
    using NewManager_resume [OF 1 2, of c "active m"] f a by (simp add: has_key_def)
qed

theorem runtime_state_survives_restart_witness:
  "map_of (resumeNodes (NewManager (defaultConfig False) True (stateFile (saveRuntimeState calm_env (remember_node 0 us_started))))) ''us'' \<noteq> None"
proof -
  have r: "reach minit mstep (remember_node 0 us_started)"
    using us_started_reach by (rule reach_step) (rule s_remember [OF us_started_lookup])
  have "code_of us_started 0 = ''us''"
    using instances_lookup [OF minvD(2) [OF manager.reach_inv [OF us_started_reach]] us_started_lookup] by simp
  then have "map_of (resumeNodes (remember_node 0 us_started)) ''us'' \<noteq> None"
    by (simp add: remember_node_def Let_def code_of_def)
  moreover have "save_ok calm_env" by (simp add: save_ok_def calm_env_def calm_io_def)
  ultimately show ?thesis using runtime_state_survives_restart [OF r] by presburger
qed

text \<open>The error of a failed write is lost: the file is replaced all the same, and a new manager resumes
  nothing.\<close>

lemma failed_write_destroys_state:
  assumes "save_ok e"
  shows "stateFile (saveRuntimeState (e\<lparr>saveIO := (saveIO e)\<lparr>writeTemp := Some err\<rparr>\<rparr>) m) = Damaged"
    "resumeNodes (NewManager c True Damaged) = []"
proof -
  show "stateFile (saveRuntimeState (e\<lparr>saveIO := (saveIO e)\<lparr>writeTemp := Some err\<rparr>\<rparr>) m) = Damaged"
    using assms by (simp add: save_ok_def saveRuntimeState_def replaceFile_def Let_def)
  have "stateFile (add_configured c k cs m) = stateFile m \<and> resumeNodes (add_configured c k cs m) = resumeNodes m" for k cs m
    by (induction cs arbitrary: k m) (simp_all add: add_instance_def allocate_def Let_def)
  then show "resumeNodes (NewManager c True Damaged) = []"
    by (simp add: NewManager_def loadRuntimeState_def empty_manager_def)
qed

section \<open>Replacing a node and cancelling it\<close>

lemma startDetached_heap:
  assumes "startDetached e r suffix m = (m', None)"
  shows "instances m' = instances m" "\<And>q. q \<noteq> r \<Longrightarrow> heap m' q = heap m q" "cmd (heap m' r) \<noteq> None" "stopping (heap m' r) = stopping (heap m r)"
  using assms by (auto simp: startDetached_def prepareTorCommand_def launch_def Let_def split: option.splits prod.splits if_splits)

lemma reserve_same:
  "reserveLocalPort e m = (m', x) \<Longrightarrow> heap m' = heap m \<and> instances m' = instances m \<and> nextPtr m' = nextPtr m"
  using reserve_frame [of m 32 0 "listenPort e"] by (simp add: reserveLocalPort_def frame_of_def)

lemma replaceNode_effect:
  assumes "replaceNode e p node act m = (m1, None)" "p < nextPtr m" "\<not> replacement (heap m p)" "pendingReplacement (heap m p) = None"
  shows "instances m1 = instances m" "pendingReplacement (heap m1 p) = Some (nextPtr m)"
    "heap m1 p = (heap m p)\<lparr>replacementPreviousStatus := Status (heap m p), replacementPreviousError := Error (heap m p),
       replacementSequence := replacementSequence (heap m p) + 1, replacement := True, Status := Switching,
       pendingReplacement := Some (nextPtr m)\<rparr>"
    "\<not> draining (heap m p)" "\<not> stopping (heap m p)" "cmd (heap m p) \<noteq> None" "map_of (instances m) (code_of m p) = Some p"
proof -
  obtain ma x where a: "reserveLocalPort (e 0) m = (ma, x)" by fastforce
  obtain mb y where b: "reserveLocalPort (e 1) ma = (mb, y)" by fastforce
  note same = reserve_same [OF a] reserve_same [OF b]
  obtain port control where xy: "x = Inr port" "y = Inr control"
    using assms(1) a b by (auto simp: replaceNode_def split: if_splits sum.splits)
  obtain mc z where c: "replace_section p node port control mb = (mc, z)" by fastforce
  then obtain r sequence previous where z: "z = Some (r, sequence, previous)"
    using assms(1) a b xy by (auto simp: replaceNode_def split: if_splits option.splits)
  have pre: "map_of (instances m) (code_of m p) = Some p" "cmd (heap m p) \<noteq> None" "\<not> stopping (heap m p)" "\<not> draining (heap m p)"
    and r: "r = nextPtr m" "previous = None"
    and mc: "instances mc = instances m" "heap mc p = (heap m p)\<lparr>replacementPreviousStatus := Status (heap m p),
       replacementPreviousError := Error (heap m p),
       replacementSequence := replacementSequence (heap m p) + 1, replacement := True, Status := Switching,
       pendingReplacement := Some (nextPtr m)\<rparr>"
    using c z same assms(2-4) by (auto simp: replace_section_def Let_def allocate_def code_of_def split: if_splits)
  obtain md err where d: "startDetached (e 3) r (''replacement-'' @ itoa (unixNano (e 3))) mc = (md, err)" by fastforce
  have m1: "err = None" "m1 = spawn (CompleteReplacement p r act sequence) md"
    using assms(1) a b c d xy z r by (auto simp: replaceNode_def Let_def split: if_splits option.splits prod.splits)
  have ne: "p \<noteq> r" using assms(2) r by simp
  show "instances m1 = instances m" "pendingReplacement (heap m1 p) = Some (nextPtr m)"
    "heap m1 p = (heap m p)\<lparr>replacementPreviousStatus := Status (heap m p), replacementPreviousError := Error (heap m p),
       replacementSequence := replacementSequence (heap m p) + 1, replacement := True, Status := Switching,
       pendingReplacement := Some (nextPtr m)\<rparr>"
    using startDetached_heap [OF d [unfolded m1(1)]] ne mc m1(2) by simp_all
  show "\<not> draining (heap m p)" "\<not> stopping (heap m p)" "cmd (heap m p) \<noteq> None" "map_of (instances m) (code_of m p) = Some p"
    using pre by simp_all
qed

text \<open>C15: Changing the exit node of a country never interrupts its route, and can be taken back.  After a
  replacement has begun, clients are served by the old instance; after
  CancelReplacement the old instance is the country's instance again with its former process, status
  and error, is no longer marked as being replaced, and the process of the new one has been asked to
  stop.\<close>

theorem cancelled_replacement_restores:
  assumes "reach minit mstep m" and "map_of (instances m) (normalizeCode code) = Some p"
    and "Status (heap m p) \<notin> {NoStatus, Switching}" and "\<not> replacement (heap m p)"
    and "replaceNode e p node act m = (m1, None)" and "CancelReplacement e' code m1 = (m2, err)"
  shows "err = None \<and> snd (acquireInstance code m1) = Some p \<and> map_of (instances m2) (normalizeCode code) = Some p
    \<and> cmd (heap m2 p) = cmd (heap m p) \<and> Status (heap m2 p) = Status (heap m p) \<and> Error (heap m2 p) = Error (heap m p)
    \<and> \<not> replacement (heap m2 p) \<and> pendingReplacement (heap m2 p) = None
    \<and> (\<exists>r. pendingReplacement (heap m1 p) = Some r \<and> (cmd (heap m2 r) \<noteq> None \<longrightarrow> stopping (heap m2 r)))"
proof -
  have m: "minv m" using assms(1) by (rule manager.reach_inv)
  have p: "p < nextPtr m" using instances_lookup [OF minvD(2) [OF m] assms(2)] by simp
  have "pendingReplacement (heap m p) = None" using inst_okD [OF m, of p] assms(4) by (simp add: inst_ok_def)
  note R = replaceNode_effect [OF assms(5) p assms(4) this]
  let ?r = "nextPtr m"
  have ne: "p \<noteq> ?r" using p by simp
  have acq: "snd (acquireInstance code m1) = Some p"
    using R assms(2) by (simp add: acquireInstance_def Let_def)
  define m3 where "m3 = modify p (\<lambda>i. i\<lparr>replacementSequence := replacementSequence i + 1\<rparr>) m1"
  obtain m4 c st where m4: "restoreAfterReplacementLocked p [] m3 = (m4, c, st)" by (metis prod_cases3)
  have h4: "heap m4 = (heap m3)(p := (heap m3 p)\<lparr>replacement := False, replacementPreviousStatus := NoStatus,
        replacementPreviousError := [], pendingReplacement := None, Status := Status (heap m p), Error := Error (heap m p)\<rparr>)"
    "instances m4 = instances m"
    using m4 R assms(3) by (auto simp: restoreAfterReplacementLocked_def m3_def Let_def)
  have m2: "m2 = resumeAfterReplacement p c st (stopInstance e' ?r m4)" "err = None"
    using assms(2,6) R m4 by (auto simp: CancelReplacement_def Let_def m3_def)
  have res: "heap (resumeAfterReplacement p c st x) = heap x" "instances (resumeAfterReplacement p c st x) = instances x" for x
    by (simp_all add: resumeAfterReplacement_def split: option.splits)
  have hp: "heap (stopInstance e' ?r m4) p = heap m4 p" using ne by (simp add: stopInstance_frame)
  have hr: "cmd (heap m2 ?r) \<noteq> None \<longrightarrow> stopping (heap m2 ?r)"
    unfolding m2(1) res by (auto simp: stopInstance_def cancel_rotation_def Let_def signalProcess_def split: option.splits)
  have "instances m2 = instances m" unfolding m2(1) res using h4(2) by (simp add: stopInstance_frame)
  then show ?thesis
    using acq hr R assms(2) m2(2) unfolding m2(1) res hp h4(1) by (simp add: m3_def)
qed

definition other_node :: ExitNode where
  "other_node = \<lparr>N_Fingerprint = replicate 40 (CHR ''B''), N_Nickname = ''relay'', N_IP = ''1.2.3.4'', N_ORAddress = [],
     N_CountryCode = ''us'', N_CountryName = ''US'', N_Continent = [], N_ASN = [], N_ISP = [],
     N_ConsensusWeight = 7, N_LatencyMS = 25, N_LatencyChecked = 0\<rparr>"

lemma calm_reserve:
  "reservedPorts m = [] \<Longrightarrow> reserveLocalPort calm_env m = (m\<lparr>reservedPorts := [40000]\<rparr>, Inr 40000)"
  "reservedPorts m = [40000] \<Longrightarrow> reserveLocalPort calm_env m = (m\<lparr>reservedPorts := [40001, 40000]\<rparr>, Inr 40001)"
proof -
  have "reservedPorts m = [] \<Longrightarrow> reserve_from (Suc (Suc n)) 0 (listenPort calm_env) m = (m\<lparr>reservedPorts := [40000]\<rparr>, Inr 40000)"
    "reservedPorts m = [40000] \<Longrightarrow> reserve_from (Suc (Suc n)) 0 (listenPort calm_env) m = (m\<lparr>reservedPorts := [40001, 40000]\<rparr>, Inr 40001)" for n
    by (simp_all add: calm_env_def Let_def)
  from this [of 30] show "reservedPorts m = [] \<Longrightarrow> reserveLocalPort calm_env m = (m\<lparr>reservedPorts := [40000]\<rparr>, Inr 40000)"
    "reservedPorts m = [40000] \<Longrightarrow> reserveLocalPort calm_env m = (m\<lparr>reservedPorts := [40001, 40000]\<rparr>, Inr 40001)"
    by (simp_all add: reserveLocalPort_def)
qed

lemma startDetached_ok: "launch_ok e \<Longrightarrow> snd (startDetached e r suffix m) = None"
  by (simp add: startDetached_def prepareTorCommand_def launch_ok_def Let_def)

lemma us_started_ports: "reservedPorts us_started = []"
proof -
  have "reservedPorts sample_start = []" by code_simp
  then show ?thesis unfolding us_started_def
    by (rule_tac start_section_ok [OF calm_env_ok sample_start_lookup(1)]) (use sample_start_us in simp_all)
qed

theorem cancelled_replacement_restores_witness:
  "\<exists>m1 m2. replaceNode (\<lambda>k. calm_env) 0 other_node False us_started = (m1, None)
     \<and> CancelReplacement calm_env ''us'' m1 = (m2, None) \<and> Status (heap m2 0) = Starting \<and> cmd (heap m2 0) = Some 0"
proof -
  have code: "code_of us_started 0 = ''us''"
    using instances_lookup [OF minvD(2) [OF manager.reach_inv [OF us_started_reach]] us_started_lookup] by simp
  define mb where "mb = us_started\<lparr>reservedPorts := [40001, 40000]\<rparr>"
  have ports: "reserveLocalPort calm_env us_started = (us_started\<lparr>reservedPorts := [40000]\<rparr>, Inr 40000)"
    "reserveLocalPort calm_env (us_started\<lparr>reservedPorts := [40000]\<rparr>) = (mb, Inr 40001)"
    using calm_reserve us_started_ports by (simp_all add: mb_def)
  obtain mc z where c: "replace_section 0 other_node 40000 40001 mb = (mc, z)" by fastforce
  have z: "\<exists>r s. z = Some (r, s, None)"
    using c us_started_facts us_started_lookup code by (auto simp: replace_section_def mb_def Let_def code_of_def)
  then obtain r sq where z: "z = Some (r, sq, None)" by blast
  obtain md where d: "startDetached calm_env r (''replacement-'' @ itoa (unixNano calm_env)) mc = (md, None)"
    using startDetached_ok [OF calm_env_ok] by (metis prod.collapse)
  have 1: "replaceNode (\<lambda>k. calm_env) 0 other_node False us_started = (spawn (CompleteReplacement 0 r False sq) md, None)"
    using us_started_facts ports c z d by (simp add: replaceNode_def Let_def)
  obtain m2 err where 2: "CancelReplacement calm_env ''us'' (spawn (CompleteReplacement 0 r False sq) md) = (m2, err)" by fastforce
  have 3: "map_of (instances us_started) (normalizeCode ''us'') = Some 0" using us_started_lookup by simp
  have 4: "\<not> replacement (heap us_started 0)"
    using inst_okD [OF manager.reach_inv [OF us_started_reach], of 0] us_started_facts by (simp add: inst_ok_def)
  show ?thesis
    using cancelled_replacement_restores [OF us_started_reach 3 _ 4 1 2] 1 2 us_started_facts by auto
qed

end
