(* ===== verification/Manager_Shutdown.thy ===== *)
theory Manager_Shutdown
  imports Manager_Recovery
begin

text \<open>
  Shutdown: after it has begun no process is started, so the processes it waits for only become
  fewer; when it returns without an error no process is left, and it returns as soon as the
  processes that it asked to stop have ended.
\<close>

section \<open>Processes during shutdown\<close>

definition alive :: "Manager \<Rightarrow> nat set" where
  "alive m = {p. cmd (heap m p) \<noteq> None}"

text \<open>The states a shutdown that began with the processes of \<open>m0\<close> can be in.\<close>

definition closing :: "Manager \<Rightarrow> Manager \<Rightarrow> bool" where
  "closing m0 m \<longleftrightarrow> minv m \<and> shuttingDown m \<and> (\<forall>p c. cmd (heap m p) = Some c \<longrightarrow> cmd (heap m0 p) = Some c)"

lemma alive_listed: "minv m \<Longrightarrow> alive m \<subseteq> set (allInstances m)"
  using minvD(4) by (auto simp: alive_def procs_ok_def)

lemma finite_alive: "minv m \<Longrightarrow> finite (alive m)"
  using alive_listed finite_subset by blast

lemma closing_step:
  assumes "closing m0 m" "mstep m m'"
  shows "closing m0 m'"
proof -
  have m: "minv m" "shuttingDown m" using assms(1) by (simp_all add: closing_def)
  have e: "evolve m m'" "minv m'" using assms(2) m mstep_evolve mstep_minv by blast+
  have "cmd (heap m p) = Some c" if "cmd (heap m' p) = Some c" for p c
  proof (cases "p < nextPtr m")
    case True
    then show ?thesis using e(1) m(2) that by (auto simp: evolve_def evolves_def)
  next
    case False
    then have "cmd (heap m p) = None"
      using minvD(4) [OF m(1)] by (cases "cmd (heap m p)") (auto simp: procs_ok_def)
    with False e(1) m(2) that show ?thesis by (auto simp: evolve_def)
  qed
  moreover have "shuttingDown m'" using e(1) m(2) by (simp add: evolve_def)
  ultimately show ?thesis using assms(1) e(2) by (auto simp: closing_def)
qed

interpretation shutdown: invariant_system "closing m0" mstep "closing m0" for m0
  by unfold_locales (auto intro: closing_step)

lemma closing_alive: "closing m0 m \<Longrightarrow> alive m \<subseteq> alive m0"
  by (auto simp: closing_def alive_def)

lemma closing_trans: "closing m0 m \<Longrightarrow> closing m m' \<Longrightarrow> closing m0 m'"
  by (auto simp: closing_def)

lemma closing_refl: "minv m \<Longrightarrow> shuttingDown m \<Longrightarrow> closing m m"
  by (simp add: closing_def)

lemma begin_shutdown_closing: "minv m \<Longrightarrow> closing m (begin_shutdown m)"
  using mstep_minv [OF s_shutdown] by (auto simp: closing_def begin_shutdown_def)

section \<open>One round\<close>

lemma stop_fold_steps: "mstep\<^sup>*\<^sup>* m (fold (stopInstance e) ps m)"
proof (induction ps arbitrary: m)
  case (Cons p ps)
  show ?case unfolding fold_simps by (rule converse_rtranclp_into_rtranclp [OF s_stop_instance Cons])
qed simp

lemma shutdown_round_steps: "mstep\<^sup>*\<^sup>* m (fst (shutdown_round e m))"
  by (simp add: shutdown_round_def Let_def stop_fold_steps)

lemma round_finished: "minv m \<Longrightarrow> snd (shutdown_round e m) \<longleftrightarrow> alive m = {}"
  using alive_listed [of m] by (auto simp: shutdown_round_def alive_def filter_empty_conv)

lemma round_idle: "snd (shutdown_round e m) \<Longrightarrow> fst (shutdown_round e m) = m"
  by (simp add: shutdown_round_def Let_def)

lemma stopInstance_stopping:
  "stopping (heap m q) \<Longrightarrow> stopping (heap (stopInstance e p m) q)"
  "cmd (heap m p) \<noteq> None \<Longrightarrow> stopping (heap (stopInstance e p m) p)"
  by (auto simp: stopInstance_def cancel_rotation_def Let_def signalProcess_def split: option.splits)

lemma stop_fold_stopping:
  "stopping (heap m q) \<or> q \<in> set ps \<and> cmd (heap m q) \<noteq> None \<Longrightarrow> stopping (heap (fold (stopInstance e) ps m) q)"
proof (induction ps arbitrary: m)
  case (Cons p ps)
  have "cmd (heap (stopInstance e p m) q) = cmd (heap m q)" by (simp add: stopInstance_frame)
  with Cons show ?case by (auto intro!: Cons.IH simp: stopInstance_stopping)
qed simp

lemma round_asks_all: "minv m \<Longrightarrow> p \<in> alive m \<Longrightarrow> stopping (heap (fst (shutdown_round e m)) p)"
  using alive_listed [of m] unfolding shutdown_round_def Let_def fst_conv
  by (intro stop_fold_stopping) (auto simp: alive_def)

section \<open>The loop\<close>

text \<open>What the other goroutines do while Shutdown waits: they run, and while there are processes at
  least one of them ends.\<close>

definition some_exit :: "(Manager \<Rightarrow> Manager) \<Rightarrow> bool" where
  "some_exit others \<longleftrightarrow> (\<forall>x. reach minit mstep x \<longrightarrow> shuttingDown x \<longrightarrow>
     mstep\<^sup>*\<^sup>* x (others x) \<and> (alive x \<noteq> {} \<longrightarrow> \<not> alive x \<subseteq> alive (others x)))"

lemma shutdown_rounds_return:
  assumes "reach minit mstep m" "shuttingDown m" "list_all (\<lambda>(others, e). some_exit others) waits"
    "card (alive m) \<le> length waits"
  shows "snd (shutdown_rounds ctxErr e waits m) = None \<and> alive (fst (shutdown_rounds ctxErr e waits m)) = {}"
  using assms
proof (induction waits arbitrary: m e)
  case Nil
  have m: "minv m" by (rule manager.reach_inv [OF Nil.prems(1)])
  with Nil.prems(4) have "alive m = {}" using finite_alive by simp
  with m show ?case using round_finished [OF m, of e] round_idle [of e m] by (simp add: split_beta Let_def)
next
  case (Cons w waits)
  obtain others e' where w: "w = (others, e')" by fastforce
  define m1 where "m1 = fst (shutdown_round e m)"
  have m: "minv m" by (rule manager.reach_inv [OF Cons.prems(1)])
  have r1: "reach minit mstep m1" using Cons.prems(1) shutdown_round_steps unfolding m1_def by (rule manager.reach_rtranclp)
  have c1: "closing m m1"
    using shutdown_round_steps closing_refl [OF m Cons.prems(2)] unfolding m1_def by (rule shutdown.rtranclp_inv)
  then have d1: "shuttingDown m1" by (simp add: closing_def)
  have o: "mstep\<^sup>*\<^sup>* m1 (others m1)" "alive m1 \<noteq> {} \<longrightarrow> \<not> alive m1 \<subseteq> alive (others m1)"
    using Cons.prems(3) r1 d1 unfolding w some_exit_def by auto
  have c2: "closing m1 (others m1)"
    using o(1) closing_refl [OF manager.reach_inv [OF r1] d1] by (rule shutdown.rtranclp_inv)
  show ?case
  proof (cases "alive m = {}")
    case True
    with m show ?thesis using round_finished [OF m, of e] round_idle [of e m] by (simp add: w split_beta Let_def)
  next
    case False
    have "alive (others m1) \<subset> alive m"
      using o(2) closing_alive [OF c1] closing_alive [OF c2] False by blast
    then have "card (alive (others m1)) < card (alive m)" using finite_alive [OF m] by (rule psubset_card_mono [rotated])
    then have "card (alive (others m1)) \<le> length waits" using Cons.prems(4) by simp
    with Cons.IH [OF manager.reach_rtranclp [OF r1 o(1)], of e'] c2 Cons.prems(3) False show ?thesis
      using round_finished [OF m, of e] by (simp add: w split_beta Let_def m1_def [symmetric] closing_def)
  qed
qed

lemma shutdown_rounds_safe:
  assumes "reach minit mstep m" "shuttingDown m" "\<And>others e. (others, e) \<in> set waits \<Longrightarrow> \<forall>x. mstep\<^sup>*\<^sup>* x (others x)"
  shows "closing m (fst (shutdown_rounds ctxErr e waits m))
    \<and> (snd (shutdown_rounds ctxErr e waits m) = None \<longrightarrow> alive (fst (shutdown_rounds ctxErr e waits m)) = {})"
  using assms
proof (induction waits arbitrary: m e)
  case Nil
  have m: "minv m" by (rule manager.reach_inv [OF Nil.prems(1)])
  have "closing m (fst (shutdown_round e m))"
    using shutdown_round_steps closing_refl [OF m Nil.prems(2)] by (rule shutdown.rtranclp_inv)
  then show ?case using round_finished [OF m, of e] round_idle [of e m] by (simp add: split_beta Let_def)
next
  case (Cons w waits)
  obtain others e' where w: "w = (others, e')" by fastforce
  define m1 where "m1 = fst (shutdown_round e m)"
  have m: "minv m" by (rule manager.reach_inv [OF Cons.prems(1)])
  have s: "mstep\<^sup>*\<^sup>* m (others m1)"
    using shutdown_round_steps [of m e] Cons.prems(3) [of others e'] unfolding w m1_def
    by (meson list.set_intros(1) rtranclp_trans)
  have c1: "closing m m1" "closing m (others m1)"
    using shutdown.rtranclp_inv [OF shutdown_round_steps closing_refl [OF m Cons.prems(2)]]
      shutdown.rtranclp_inv [OF s closing_refl [OF m Cons.prems(2)]] unfolding m1_def by blast+
  have "closing (others m1) (fst (shutdown_rounds ctxErr e' waits (others m1)))
    \<and> (snd (shutdown_rounds ctxErr e' waits (others m1)) = None
        \<longrightarrow> alive (fst (shutdown_rounds ctxErr e' waits (others m1))) = {})"
  proof (rule Cons.IH)
    show "reach minit mstep (others m1)" using Cons.prems(1) s by (rule manager.reach_rtranclp)
    show "shuttingDown (others m1)" using c1(2) by (simp add: closing_def)
    show "\<And>others e. (others, e) \<in> set waits \<Longrightarrow> \<forall>x. mstep\<^sup>*\<^sup>* x (others x)" using Cons.prems(3) by auto
  qed
  with c1 show ?case
    using round_finished [OF m, of e] round_idle [of e m] closing_trans [OF c1(2)]
    by (auto simp: w split_beta Let_def m1_def [symmetric])
qed

text \<open>C8: A shutdown is safe: whatever runs beside it, it starts no process and lets no other operation
  start one - every process that is alive when Shutdown returns, or in any later state, was alive when
  it was called - and if it returns without an error no process is left, then and for ever.\<close>

theorem shutdown_leaves_no_process:
  assumes "reach minit mstep m" and "\<And>others e. (others, e) \<in> set waits \<Longrightarrow> \<forall>x. mstep\<^sup>*\<^sup>* x (others x)"
    and "Shutdown ctxErr e waits m = (m', err)" and "mstep\<^sup>*\<^sup>* m' later"
  shows "(\<forall>p c. cmd (heap later p) = Some c \<longrightarrow> cmd (heap m p) = Some c)
    \<and> (err = None \<longrightarrow> (\<forall>p. cmd (heap later p) = None))"
proof -
  have b: "closing m (begin_shutdown m)" using begin_shutdown_closing [OF manager.reach_inv [OF assms(1)]] .
  have "closing (begin_shutdown m) m' \<and> (err = None \<longrightarrow> alive m' = {})"
    using shutdown_rounds_safe [OF reach_step [OF assms(1) s_shutdown], of waits ctxErr e] assms(2,3)
    by (auto simp: Shutdown_def begin_shutdown_def)
  moreover from this have "closing m' later"
    using assms(4) shutdown.rtranclp_inv [of m' later m'] closing_refl [of m'] by (auto simp: closing_def)
  ultimately show ?thesis using b closing_alive [of m' later] by (auto simp: closing_def alive_def)
qed

text \<open>A shutdown ends: if in every wait at least one of the remaining processes exits, then after at
  most as many waits as there were processes Shutdown returns without an error, and no process is
  left; and its first round has asked every one of them to stop.\<close>

lemma shutdown_returns:
  assumes "reach minit mstep m" and "list_all (\<lambda>(others, e). some_exit others) waits"
    and "card (alive m) \<le> length waits"
  shows "snd (Shutdown ctxErr e waits m) = None \<and> alive (fst (Shutdown ctxErr e waits m)) = {}
    \<and> (\<forall>p. cmd (heap m p) \<noteq> None \<longrightarrow> stopping (heap (fst (shutdown_round e (begin_shutdown m))) p))"
proof -
  have r: "reach minit mstep (begin_shutdown m)" by (rule reach_step [OF assms(1) s_shutdown])
  have "alive (begin_shutdown m) = alive m" by (simp add: alive_def begin_shutdown_def)
  with assms(3) shutdown_rounds_return [OF r _ assms(2)] round_asks_all [OF manager.reach_inv [OF r]] show ?thesis
    by (auto simp: Shutdown_def begin_shutdown_def alive_def)
qed

definition first_exits :: "Manager \<Rightarrow> Manager" where
  "first_exits x = (case filter (\<lambda>p. cmd (heap x p) \<noteq> None) (allInstances x) of [] \<Rightarrow> x
     | p # _ \<Rightarrow> fst (watch_exit None p (the (cmd (heap x p))) x))"

lemma first_exits_steps: "mstep\<^sup>*\<^sup>* x (first_exits x)"
  by (auto simp: first_exits_def split: list.splits intro: s_exit)

lemma first_exits_some: "some_exit first_exits"
  unfolding some_exit_def
proof (intro allI impI conjI)
  fix x
  assume r: "reach minit mstep x" and "alive x \<noteq> {}"
  then obtain p ps where f: "filter (\<lambda>p. cmd (heap x p) \<noteq> None) (allInstances x) = p # ps"
    using alive_listed [OF manager.reach_inv [OF r]]
    by (cases "filter (\<lambda>p. cmd (heap x p) \<noteq> None) (allInstances x)") (auto simp: alive_def filter_empty_conv)
  then have "p \<in> set (filter (\<lambda>p. cmd (heap x p) \<noteq> None) (allInstances x))" by simp
  then have "p \<in> alive x" by (auto simp: alive_def)
  moreover have "p \<notin> alive (first_exits x)"
    using f \<open>p \<in> alive x\<close> by (auto simp: first_exits_def alive_def watch_exit_def exited_def)
  ultimately show "\<not> alive x \<subseteq> alive (first_exits x)" by blast
qed (rule first_exits_steps)

lemma us_started_alive: "alive us_started \<subseteq> {0}"
proof -
  have "heap us_started p = heap sample_start p" if "p \<noteq> 0" for p
    unfolding us_started_def using that start_section_fst(1) [OF calm_env_ok sample_start_lookup(1)] sample_start_us by simp
  moreover have "cmd (heap sample_start p) = None" for p
    using minvD(4) [OF manager.reach_inv [OF sample_start_reach]] sample_start_us(3)
    by (cases "cmd (heap sample_start p)") (auto simp: procs_ok_def)
  ultimately show ?thesis by (force simp: alive_def)
qed

theorem shutdown_leaves_no_process_witness:
  "\<exists>m' err. Shutdown ''timeout'' calm_env [(first_exits, calm_env)] us_started = (m', err)
     \<and> (\<forall>p c. cmd (heap (kill_later 0 0 m') p) = Some c \<longrightarrow> cmd (heap us_started p) = Some c)"
proof -
  obtain m' err where s: "Shutdown ''timeout'' calm_env [(first_exits, calm_env)] us_started = (m', err)" by fastforce
  have "mstep\<^sup>*\<^sup>* m' (kill_later 0 0 m')" by (rule r_into_rtranclp, rule s_kill)
  from shutdown_leaves_no_process [OF us_started_reach _ s this] s first_exits_steps show ?thesis by auto
qed

end
