(* ===== verification/Manager_Crash.thy ===== *)
theory Manager_Crash
  imports Manager_Recovery
begin

text \<open>
  Automatic restarts (watch, scheduleAutoRestartLocked and runAutoRestart of \<^verbatim>\<open>src/manager.go\<close>) come to an
  end: a Tor process that keeps crashing is restarted twice and then given up, whatever else the program does in
  the meantime.  A third restart is scheduled and announced, but when its time comes it finds the limit reached.
\<close>

section \<open>Systems with a rank\<close>

locale ranked_system =
  fixes step :: "'s \<Rightarrow> 's \<Rightarrow> bool" and inv :: "'s \<Rightarrow> bool" and rank :: "'s \<Rightarrow> nat"
  assumes rank_inv: "inv s \<Longrightarrow> step s t \<Longrightarrow> inv t"
    and rank_less: "inv s \<Longrightarrow> step s t \<Longrightarrow> rank t < rank s"
begin

lemma rank_bound: "inv s \<Longrightarrow> (step ^^ n) s t \<Longrightarrow> n + rank t \<le> rank s"
proof (induction n arbitrary: t)
  case (Suc n)
  then obtain u where u: "(step ^^ n) s u" "step u t" by auto
  have "inv u" using u(1) Suc.prems(1) by (induction n arbitrary: u) (auto intro: rank_inv)
  then show ?case using Suc.IH [OF Suc.prems(1) u(1)] rank_less [OF _ u(2)] by simp
qed simp

end

section \<open>Crashes and restarts\<close>

text \<open>A round of the life of a crashing instance: its process exits and the watching goroutine runs, or a
  scheduled restart finds itself still wanted and runs.\<close>

inductive crash_step :: "nat \<Rightarrow> Manager \<Rightarrow> Manager \<Rightarrow> bool" for p where
  crash: "cmd (heap m p) = Some c \<Longrightarrow> crash_step p m (watch e err p c dir m)"
| restart: "snd (restart_check p attempt m) \<Longrightarrow> crash_step p m (runAutoRestart e p attempt m)"

inductive_cases crash_stepE: "crash_step p m m'"

text \<open>What counts for the restarts of an instance.  A round may follow anything that leaves this alone:
  not, therefore, becoming ready, which sets the attempts back, or a stop, or a start by hand.\<close>

definition restarts :: "Instance \<Rightarrow> int \<times> bool \<times> nat option" where
  "restarts i = (restartAttempts i, restartScheduled i, cmd i)"

definition crash_round :: "nat \<Rightarrow> Manager \<Rightarrow> Manager \<Rightarrow> bool" where
  "crash_round p m m' \<longleftrightarrow> (\<exists>m1. mstep\<^sup>*\<^sup>* m m1 \<and> restarts (heap m1 p) = restarts (heap m p) \<and> crash_step p m1 m')"

definition patience :: "nat \<Rightarrow> Manager \<Rightarrow> nat" where
  "patience p m = (case restarts (heap m p) of (attempts, scheduled, c) \<Rightarrow>
     let left = nat (autoRestartLimit - attempts) in
     if scheduled then 2 * left + (if c \<noteq> None then 1 else 0)
     else if c \<noteq> None then max 1 (2 * left - 1) else 2 * left - 2)"

subsection \<open>What the sections do to the instance\<close>

lemma schedule_restarts:
  "scheduleAutoRestartLocked p reason m = (m1, scheduled) \<Longrightarrow>
     (if scheduled then \<not> restartScheduled (heap m p) \<and> restartAttempts (heap m p) < autoRestartLimit \<and> cmd (heap m p) = None
        \<and> restarts (heap m1 p) = (restartAttempts (heap m p) + 1, True, None) else m1 = m)"
  by (auto simp: scheduleAutoRestartLocked_def autoRestartEligibleLocked_def restarts_def Let_def split: if_splits)

lemma clear_active_heap [simp]: "heap (clear_active_if b code m) = heap m"
  by (simp add: clear_active_if_def)

text \<open>Both ends of a round look whether to schedule a restart; either way the patience does not grow.\<close>

lemma scheduled_patience:
  assumes "scheduleAutoRestartLocked p reason m = (m1, scheduled)" "cmd (heap m p) = None"
  shows "patience p m1 \<le> patience p m"
  using schedule_restarts [OF assms(1)] assms(2)
  by (cases scheduled) (auto simp: patience_def restarts_def Let_def)

lemma patience_cong: "restarts (heap m' p) = restarts (heap m p) \<Longrightarrow> patience p m' = patience p m"
  by (simp add: patience_def)

lemma watch_restart_patience:
  assumes "cmd (heap m p) = None"
  shows "patience p (watch_restart p m) \<le> patience p m"
proof -
  obtain m1 scheduled where s: "(if draining (heap m p) then (m, False) else scheduleAutoRestartLocked p (Error (heap m p)) m) = (m1, scheduled)"
    by fastforce
  have 1: "patience p m1 \<le> patience p m"
    using s scheduled_patience [OF _ assms] by (auto split: if_splits)
  have "restarts (heap (watch_restart p m) p) = restarts (heap m1 p)"
    by (simp add: watch_restart_def s Let_def restarts_def)
  with 1 patience_cong show ?thesis by metis
qed

lemma watch_patience:
  assumes "cmd (heap m p) = Some c"
  shows "patience p (watch e err p c dir m) < patience p m"
proof -
  let ?m1 = "fst (watch_exit err p c m)"
  let ?m2 = "removeInstanceDir e dir (releaseInstancePorts p ?m1)"
  have r: "restarts (heap ?m2 p) = (restartAttempts (heap m p), restartScheduled (heap m p), None)"
    using assms by (simp add: watch_exit_def exited_def restarts_def removeInstanceDir_def releaseInstancePorts_def
        releaseReservedPort_def)
  have "watch e err p c dir m = watch_restart p ?m2"
    using assms by (simp add: watch_def watch_exit_def Let_def)
  moreover have "patience p (watch_restart p ?m2) \<le> patience p ?m2"
    using r by (intro watch_restart_patience) (simp add: restarts_def)
  moreover have "patience p ?m2 < patience p m" using r assms by (auto simp: patience_def restarts_def Let_def)
  ultimately show ?thesis by simp
qed

subsection \<open>Start leaves a crashed instance to its own section\<close>

lemma stop_other:
  assumes m: "minv m" and p: "map_of (instances m) (normalizeCode code) = Some p"
    and q: "q \<in> snd ` set (instances m)" "q \<noteq> p"
  shows "heap (fst (stop e code m)) q = heap m q" "instances (fst (stop e code m)) = instances m"
proof -
  let ?m1 = "fst (stop_section (normalizeCode code) p m)"
  let ?m2 = "case pendingReplacement (heap m p) of None \<Rightarrow> ?m1 | Some r \<Rightarrow> stopInstance e r ?m1"
  have 1: "heap ?m1 q = heap m q" "instances ?m1 = instances m"
    using q(2) by (simp_all add: stop_section_def Let_def)
  have "r \<noteq> q" if "pendingReplacement (heap m p) = Some r" for r
    using minvD(3) [OF m] that q(1) unfolding pending_ok_def by blast
  with 1 have 2: "heap ?m2 q = heap m q \<and> instances ?m2 = instances m"
    by (cases "pendingReplacement (heap m p)") (auto simp: stopInstance_frame)
  have "heap (fst (stop e code m)) = heap ?m2 \<and> instances (fst (stop e code m)) = instances ?m2"
    by (cases "snd (stop_section (normalizeCode code) p m)") (simp_all add: stop_def p Let_def split_beta)
  with 2 show "heap (fst (stop e code m)) q = heap m q" "instances (fst (stop e code m)) = instances m" by simp_all
qed

lemma makeRoom_keeps:
  assumes m: "minv m" and p: "map_of (instances m) target = Some p" "\<not> online (Status (heap m p))"
    and r: "makeRoom e target m = (m1, err)"
  shows "heap m1 p = heap m p \<and> instances m1 = instances m"
proof -
  consider "m1 = m" | n v where "room_scan target m (instances m) 0 None = Some (n, Some v)" "m1 = fst (stop e (code_of m v) m)"
    using r by (auto simp: makeRoom_def split: option.splits if_splits prod.splits)
  then show ?thesis
  proof cases
    case (2 n v)
    obtain k where v: "(k, v) \<in> set (instances m)" "online (Status (heap m v))" using room_scan_oldest [OF 2(1)] by auto
    then have "map_of (instances m) (normalizeCode (code_of m v)) = Some v"
      using minvD(2) [OF m] by (auto simp: maps_ok_def)
    moreover have "p \<in> snd ` set (instances m)" "p \<noteq> v" using p v(2) by (auto dest!: map_of_SomeD simp: image_iff) force
    ultimately show ?thesis using stop_other [OF m] 2(2) by blast
  qed simp
qed

lemma start_section_restarts:
  assumes "map_of (instances m) code = Some p" "Status (heap m p) = Errored" "cmd (heap m p) = None" "\<not> restartScheduled (heap m p)"
    and "start_section e code m = (m', r)"
  shows "restartAttempts (heap m' p) = restartAttempts (heap m p) \<and> \<not> restartScheduled (heap m' p) \<and> r \<noteq> Inr None"
proof -
  obtain m1 x where pr: "prepareTorCommand e p (path_join [StateDir (mcfg m), code]) m = (m1, x)" by fastforce
  then have "restarts (heap m1 p) = restarts (heap m p)"
    by (auto simp: prepareTorCommand_def Let_def restarts_def split: option.splits)
  with assms pr show ?thesis
    by (auto simp: start_section_def Let_def removeInstanceDir_def launch_def started_def restarts_def split: if_splits option.splits)
qed

lemma Start_restarts:
  assumes m: "minv m" and p: "map_of (instances m) code = Some p" "Status (heap m p) = Errored" "cmd (heap m p) = None"
      "\<not> restartScheduled (heap m p)"
    and s: "Start e code m = (m', r)"
  shows "restartAttempts (heap m' p) = restartAttempts (heap m p) \<and> \<not> restartScheduled (heap m' p)"
proof -
  have can: "normalizeCode code = code" using instances_lookup [OF minvD(2) [OF m] p(1)] by simp
  obtain m1 err where mr: "makeRoom (e 0) code m = (m1, err)" by fastforce
  have 1: "heap m1 p = heap m p" "instances m1 = instances m"
    using makeRoom_keeps [OF m p(1) _ mr] p(2) by (simp_all add: online_def)
  obtain m2 x where ss: "start_section (e 1) code m1 = (m2, x)" by fastforce
  have 2: "restartAttempts (heap m2 p) = restartAttempts (heap m p) \<and> \<not> restartScheduled (heap m2 p)"
    using start_section_restarts [OF _ _ _ _ ss, of p] 1 p by simp
  consider "m' = m" | "m' = m1" | "m' = m2" | q c d where "m' = spawn (AwaitReady q c) (spawn (Watch q c d) (rememberInstance (e 2) q m2))"
    using s mr ss by (auto simp: Start_def Let_def can split: if_splits option.splits sum.splits)
  then show ?thesis by cases (use 1 2 p in auto)
qed

lemma restart_failed_patience:
  assumes "cmd (heap m p) = None"
  shows "patience p (restart_failed p err m) \<le> patience p m"
proof -
  let ?reason = "''automatic restart failed: '' @ err"
  obtain m1 scheduled where s: "scheduleAutoRestartLocked p ?reason m = (m1, scheduled)" by fastforce
  have "restarts (heap (restart_failed p err m) p) = restarts (heap m1 p)"
    unfolding restart_failed_def Let_def s by (simp add: restarts_def)
  with scheduled_patience [OF s assms] patience_cong show ?thesis by metis
qed

lemma restart_failed_running:
  assumes "cmd (heap m p) \<noteq> None"
  shows "patience p (restart_failed p err m) = patience p m"
proof -
  obtain m1 scheduled where s: "scheduleAutoRestartLocked p (''automatic restart failed: '' @ err) m = (m1, scheduled)" by fastforce
  with schedule_restarts [OF s] assms have "\<not> scheduled \<and> m1 = m" by (auto split: if_splits)
  then show ?thesis by (intro patience_cong) (simp only: restart_failed_def Let_def s restarts_def, simp)
qed

lemma runAutoRestart_patience:
  assumes m: "minv m" and go: "snd (restart_check p attempt m)"
  shows "patience p (runAutoRestart e p attempt m) < patience p m"
proof -
  have el: "autoRestartEligibleLocked p m" "restartScheduled (heap m p)" using go by (auto simp: restart_check_def split: if_splits)
  let ?m1 = "modify p (\<lambda>i. i\<lparr>restartScheduled := False\<rparr>) m"
  have m1: "restart_check p attempt m = (?m1, True)" using go by (auto simp: restart_check_def split: if_splits)
  have inv1: "minv ?m1" using minv_restart_check [OF m, of p attempt] m1 by simp
  have f: "map_of (instances ?m1) (code_of ?m1 p) = Some p" "Status (heap ?m1 p) = Errored" "cmd (heap ?m1 p) = None" "\<not> restartScheduled (heap ?m1 p)"
    using el by (simp_all add: autoRestartEligibleLocked_def code_of_def Let_def)
  obtain m2 r where s: "Start e (code_of ?m1 p) ?m1 = (m2, r)" by fastforce
  note 2 = Start_restarts [OF inv1 f s]
  have "patience p m2 < patience p m"
    using 2 el by (auto simp: patience_def restarts_def autoRestartEligibleLocked_def Let_def)
  moreover have "patience p (runAutoRestart e p attempt m) \<le> patience p m2"
    using restart_failed_patience [of m2 p] restart_failed_running [of m2 p]
    by (cases r; cases "cmd (heap m2 p)") (simp_all add: runAutoRestart_def m1 s Let_def)
  ultimately show ?thesis by simp
qed

subsection \<open>Rounds are runs of the system\<close>

lemma watch_steps: "mstep\<^sup>*\<^sup>* m (watch e err p c dir m)"
proof -
  let ?m1 = "fst (watch_exit err p c m)"
  let ?m2 = "removeInstanceDir e dir (releaseInstancePorts p ?m1)"
  have 2: "mstep\<^sup>*\<^sup>* m ?m2"
    by (intro steps_then [OF s_remove_dir] steps_then [OF s_release_ports] r_into_rtranclp s_exit)
  have "watch e err p c dir m = ?m2 \<or> watch e err p c dir m = watch_restart p ?m2"
    by (simp add: watch_def split_beta Let_def)
  then show ?thesis using 2 steps_then [OF s_watch_restart 2] by auto
qed

lemma runAutoRestart_steps: "mstep\<^sup>*\<^sup>* m (runAutoRestart e p attempt m)"
proof -
  obtain m1 go where c: "restart_check p attempt m = (m1, go)" by fastforce
  have 1: "mstep\<^sup>*\<^sup>* m m1" using s_restart_check [of m p attempt] c by (simp add: r_into_rtranclp)
  obtain m2 r where s: "Start e (code_of m1 p) m1 = (m2, r)" by fastforce
  have 2: "mstep\<^sup>*\<^sup>* m m2" using 1 Start_steps [OF s] by (rule rtranclp_trans)
  show ?thesis
    using 1 2 steps_then [OF s_restart_failed 2] by (cases r) (simp_all add: runAutoRestart_def c s)
qed

lemma crash_step_steps: "crash_step p m m' \<Longrightarrow> mstep\<^sup>*\<^sup>* m m'"
  by (auto elim!: crash_stepE intro: watch_steps runAutoRestart_steps)

interpretation crashing: ranked_system "crash_round p" minv "patience p" for p
proof
  fix m m' assume m: "minv m" and "crash_round p m m'"
  then obtain m1 where m1: "mstep\<^sup>*\<^sup>* m m1" "restarts (heap m1 p) = restarts (heap m p)" "crash_step p m1 m'"
    unfolding crash_round_def by blast
  have i1: "minv m1" using m1(1) m by (rule manager.rtranclp_inv)
  then show "minv m'" using crash_step_steps [OF m1(3)] manager.rtranclp_inv by blast
  have "patience p m' < patience p m1"
    using m1(3) i1 by (cases rule: crash_step.cases) (simp_all add: watch_patience runAutoRestart_patience)
  then show "patience p m' < patience p m" using patience_cong [OF m1(2)] by simp
qed

section \<open>The property\<close>

lemma third_restart_never_runs: "restartAttempts (heap m p) = 3 \<Longrightarrow> \<not> snd (restart_check p attempt m)"
  by (simp add: restart_check_def autoRestartEligibleLocked_def autoRestartLimit_def)

text \<open>Without a process and without a scheduled restart there is no round.\<close>

lemma no_round:
  assumes "cmd (heap m p) = None" "\<not> restartScheduled (heap m p)"
  shows "\<not> crash_round p m m'"
proof
  assume "crash_round p m m'"
  then obtain m1 where "restarts (heap m1 p) = restarts (heap m p)" "crash_step p m1 m'" by (auto simp: crash_round_def)
  with assms show False by (auto elim!: crash_stepE simp: restarts_def restart_check_def)
qed

text \<open>C10: Automatic restarts end.  From any reachable state, an instance that only crashes and restarts -
  whatever the rest of the program does in between, as long as the instance neither becomes ready nor is
  stopped or started by someone else - goes through finitely many crashes and restarts: with a running
  process and no attempt used at most five, the first crash and two restarts with a crash each; with a
  restart scheduled two for each attempt that is left.  The third attempt counts, but its restart never runs:
  when it is due, the limit has been reached.  So once two attempts are used, the next crash is the end: the
  process is gone, and no restart can run any more.\<close>

theorem automatic_restarts_end:
  assumes "reach minit mstep m"
  shows "((crash_round p ^^ n) m m' \<longrightarrow>
      int n \<le> (let left = 3 - restartAttempts (heap m p) in
        if restartScheduled (heap m p) then 2 * left + (if cmd (heap m p) \<noteq> None then 1 else 0)
        else if cmd (heap m p) \<noteq> None then max 1 (2 * left - 1) else 0))
    \<and> (restartAttempts (heap m p) = 3 \<longrightarrow> \<not> snd (restart_check p attempt m))
    \<and> (cmd (heap m p) = Some c \<and> 2 \<le> restartAttempts (heap m p) \<and> \<not> restartScheduled (heap m p) \<longrightarrow>
        cmd (heap (watch e err p c dir m) p) = None \<and> \<not> (\<exists>m'. crash_step p (watch e err p c dir m) m'))"
proof (intro conjI impI)
  have m: "minv m" using assms by (rule manager.reach_inv)
  have a: "restartAttempts (heap m p) \<le> 3" using inst_okD [OF m, of p] by (simp add: inst_ok_def autoRestartLimit_def)
  show "int n \<le> (let left = 3 - restartAttempts (heap m p) in
        if restartScheduled (heap m p) then 2 * left + (if cmd (heap m p) \<noteq> None then 1 else 0)
        else if cmd (heap m p) \<noteq> None then max 1 (2 * left - 1) else 0)" if r: "(crash_round p ^^ n) m m'"
  proof (cases "cmd (heap m p) = None \<and> \<not> restartScheduled (heap m p)")
    case True
    have "n = 0"
    proof (rule ccontr)
      assume "n \<noteq> 0"
      then obtain k where "(crash_round p ^^ Suc k) m m'" using r by (cases n) auto
      then obtain x where "crash_round p m x" by (rule relpowp_Suc_E2)
      with True no_round show False by blast
    qed
    with True show ?thesis by simp
  next
    case False
    have "n \<le> patience p m" using crashing.rank_bound [OF m r] by simp
    then show ?thesis using a False by (auto simp: patience_def restarts_def autoRestartLimit_def Let_def split: if_splits)
  qed
  show "\<not> snd (restart_check p attempt m)" if "restartAttempts (heap m p) = 3" using that by (rule third_restart_never_runs)
  let ?w = "watch e err p c dir m"
  assume c: "cmd (heap m p) = Some c \<and> 2 \<le> restartAttempts (heap m p) \<and> \<not> restartScheduled (heap m p)"
  then have "patience p m = 1" using a by (auto simp: patience_def restarts_def autoRestartLimit_def Let_def)
  then have 0: "patience p ?w = 0" using watch_patience [of m p c e err dir] c by simp
  then show "cmd (heap ?w p) = None" by (auto simp: patience_def restarts_def Let_def split: if_splits)
  have i: "minv ?w" using watch_steps m by (rule manager.rtranclp_inv)
  have "crash_round p ?w x" if "crash_step p ?w x" for x using that unfolding crash_round_def by blast
  then show "\<not> (\<exists>m'. crash_step p ?w m')" using crashing.rank_less [OF i, where t = x and p = p for x] 0 by fastforce
qed

subsection \<open>All five rounds happen\<close>

text \<open>The state before a crash of the only running country, with \<open>a\<close> attempts used.\<close>

definition about_to_crash :: "int \<Rightarrow> Manager \<Rightarrow> bool" where
  "about_to_crash a m \<longleftrightarrow> minv m \<and> map_of (instances m) ''us'' = Some 0 \<and> cmd (heap m 0) \<noteq> None \<and> \<not> stopping (heap m 0)
     \<and> \<not> draining (heap m 0) \<and> pendingReplacement (heap m 0) = None \<and> \<not> restartScheduled (heap m 0)
     \<and> restartAttempts (heap m 0) = a \<and> \<not> shuttingDown m \<and> 1 \<le> MaxRunning (mcfg m)
     \<and> (\<forall>k p. map_of (instances m) k = Some p \<longrightarrow> p \<noteq> 0 \<longrightarrow> \<not> online (Status (heap m p)))"

lemma makeRoom_free:
  assumes "minv m" "online_codes m = {}" "1 \<le> MaxRunning (mcfg m)"
  shows "makeRoom e target m = (m, None)"
proof -
  obtain n v where s: "room_scan target m (instances m) 0 None = Some (n, v)"
    using assms(2) room_scan_None [of target m "instances m" 0 None] minvD(2) [OF assms(1)]
    by (cases "room_scan target m (instances m) 0 None") (auto simp: online_codes_def maps_ok_def)
  have "length (online_entries m) = 0" using online_codes_entries(2) [OF minvD(2) [OF assms(1)]] assms(2) by simp
  then have "n = 0" using room_scan_count [OF s] by (simp add: online_entries_def)
  with s assms(3) show ?thesis by (simp add: makeRoom_def)
qed

lemma crash_scheduled:
  assumes "about_to_crash a m" "0 \<le> a" "a < 2" "cmd (heap m 0) = Some c"
  defines "w \<equiv> watch calm_env None 0 c [] m"
  shows "instances w = instances m" "mcfg w = mcfg m" "\<not> shuttingDown w" "p \<noteq> 0 \<Longrightarrow> heap w p = heap m p"
    "cmd (heap w 0) = None" "Status (heap w 0) = Errored" "restartScheduled (heap w 0)" "restartAttempts (heap w 0) = a + 1"
    "\<not> stopping (heap w 0)" "\<not> draining (heap w 0)" "pendingReplacement (heap w 0) = None" "\<not> replacement (heap w 0)"
    "code_of w 0 = ''us''"
proof -
  have m: "minv m" and i: "map_of (instances m) ''us'' = Some 0" using assms(1) by (simp_all add: about_to_crash_def)
  have code: "Code (ICountry (heap m 0)) = ''us''" using instances_lookup [OF minvD(2) [OF m] i] by (simp add: code_of_def)
  have rep: "\<not> replacement (heap m 0)" using inst_okD [OF m, of 0] assms(1) by (simp add: inst_ok_def about_to_crash_def)
  define x where "x = releaseInstancePorts 0 (fst (watch_exit None 0 c m))"
  have x: "heap x = (heap m)(0 := exited None (heap m 0))" "instances x = instances m" "mcfg x = mcfg m" "shuttingDown x = shuttingDown m"
    using assms(4) by (simp_all add: x_def watch_exit_def releaseInstancePorts_def releaseReservedPort_def)
  have el: "autoRestartEligibleLocked 0 x"
    using assms(1,3) i code rep by (simp add: autoRestartEligibleLocked_def x exited_def about_to_crash_def autoRestartLimit_def Let_def)
  have sch: "\<not> restartScheduled (heap x 0)" "\<not> draining (heap x 0)" "restartAttempts (heap x 0) = a"
    using assms(1) by (simp_all add: x exited_def about_to_crash_def)
  have w: "w = watch_restart 0 x"
    using assms(4) by (simp add: w_def watch_def watch_exit_def Let_def removeInstanceDir_def x_def)
  then have "w = fst (scheduleAutoRestartLocked 0 (Error (heap x 0)) x)"
    using el sch by (simp add: watch_restart_def scheduleAutoRestartLocked_def Let_def)
  then show "instances w = instances m" "mcfg w = mcfg m" "\<not> shuttingDown w" "p \<noteq> 0 \<Longrightarrow> heap w p = heap m p"
    "cmd (heap w 0) = None" "Status (heap w 0) = Errored" "restartScheduled (heap w 0)" "restartAttempts (heap w 0) = a + 1"
    "\<not> stopping (heap w 0)" "\<not> draining (heap w 0)" "pendingReplacement (heap w 0) = None" "\<not> replacement (heap w 0)"
    "code_of w 0 = ''us''"
    using el sch assms(1) code rep
    by (simp_all add: scheduleAutoRestartLocked_def Let_def x exited_def about_to_crash_def code_of_def)
qed

lemma crash_and_restart:
  assumes "about_to_crash a m" "0 \<le> a" "a < 2"
  shows "\<exists>m2 m3. crash_step 0 m m2 \<and> crash_step 0 m2 m3 \<and> about_to_crash (a + 1) m3"
proof -
  obtain c where c: "cmd (heap m 0) = Some c" using assms(1) by (auto simp: about_to_crash_def)
  let ?w = "watch calm_env None 0 c [] m"
  let ?m3 = "runAutoRestart (\<lambda>_. calm_env) 0 (a + 1) ?w"
  note w = crash_scheduled [OF assms c]
  have 1: "crash_step 0 m ?w" using c by (rule crash)
  have "minv m" using assms(1) by (simp add: about_to_crash_def)
  then have minv: "minv ?w" by (rule manager.rtranclp_inv [OF watch_steps])
  have i: "map_of (instances ?w) ''us'' = Some 0" using w(1) assms(1) by (simp add: about_to_crash_def)
  have el: "autoRestartEligibleLocked 0 ?w"
    using w i assms(3) by (simp add: autoRestartEligibleLocked_def autoRestartLimit_def Let_def code_of_def)
  define v where "v = modify 0 (\<lambda>i. i\<lparr>restartScheduled := False\<rparr>) ?w"
  have go: "restart_check 0 (a + 1) ?w = (v, True)" using el w by (simp add: restart_check_def v_def)
  then have 2: "crash_step 0 ?w ?m3" by (intro restart) simp
  have vs: "instances v = instances m" "mcfg v = mcfg m" "\<not> shuttingDown v" "heap v p = (heap ?w p)\<lparr>restartScheduled := restartScheduled (heap ?w p) \<and> p \<noteq> 0\<rparr>" for p
    using w(1-3) by (simp_all add: v_def)
  have v: "minv v" using minv_restart_check [OF minv, of 0 "a + 1"] go by simp
  have off: "\<not> online (Status (heap ?w p))" if "map_of (instances m) k = Some p" for k p
    using that w(4) [of p] w(6) assms(1) unfolding about_to_crash_def by (cases "p = 0") auto
  have "online_codes v = {}" using off by (auto simp: online_codes_def vs)
  then have room: "makeRoom calm_env ''us'' v = (v, None)" using assms(1) by (intro makeRoom_free v) (simp_all add: about_to_crash_def vs)
  have pre: "map_of (instances v) ''us'' = Some 0" "cmd (heap v 0) = None"
      "Status (heap v 0) \<notin> {Starting, Connecting, Running, Switching, Draining}"
    using i w(1,5,6) by (simp_all add: vs)
  obtain ds where ss: "start_section calm_env ''us'' v =
      (v\<lparr>heap := (heap v)(0 := started (now calm_env) (nextCmd v) ((heap v 0)\<lparr>dataDir := path_join [path_join [StateDir (mcfg v), ''us''], ''data'']\<rparr>)),
        nextCmd := Suc (nextCmd v), allInstances := List.insert 0 (allInstances v), dirs := ds\<rparr>,
       Inr (Some (0, nextCmd v, path_join [StateDir (mcfg v), ''us''])))"
    by (rule start_section_ok [OF calm_env_ok pre])
  have st: "Start (\<lambda>_. calm_env) ''us'' v =
      (spawn (AwaitReady 0 (nextCmd v)) (spawn (Watch 0 (nextCmd v) (path_join [StateDir (mcfg v), ''us'']))
        (rememberInstance calm_env 0 (fst (start_section calm_env ''us'' v)))), None)"
    using i w(1) room ss by (simp add: Start_def has_key_def vs Let_def)
  have code: "code_of v 0 = ''us''" using w(13) by (simp add: code_of_def vs)
  have m3: "?m3 = fst (Start (\<lambda>_. calm_env) ''us'' v)" by (simp add: runAutoRestart_def go code st)
  have "minv ?m3" using runAutoRestart_steps minv by (rule manager.rtranclp_inv)
  moreover have "instances ?m3 = instances m" "mcfg ?m3 = mcfg m" "shuttingDown ?m3 = shuttingDown m"
      "heap ?m3 = (heap v)(0 := started (now calm_env) (nextCmd v) ((heap v 0)\<lparr>dataDir := path_join [path_join [StateDir (mcfg v), ''us''], ''data'']\<rparr>))"
    using assms(1) unfolding m3 st by (simp_all add: ss vs about_to_crash_def rememberInstance_def saveRuntimeState_def remember_node_def Let_def)
  ultimately have "about_to_crash (a + 1) ?m3"
    using assms(1) w unfolding about_to_crash_def by (simp add: started_def vs)
  with 1 2 show ?thesis by blast
qed

lemma five_rounds:
  assumes "about_to_crash 0 m"
  shows "\<exists>m'. (crash_round 0 ^^ 5) m m'"
proof -
  have r: "crash_step 0 x y \<Longrightarrow> crash_round 0 x y" for x y unfolding crash_round_def by blast
  obtain m1 m2 where 1: "crash_step 0 m m1" "crash_step 0 m1 m2" "about_to_crash 1 m2" using crash_and_restart [OF assms] by auto
  obtain m3 m4 where 2: "crash_step 0 m2 m3" "crash_step 0 m3 m4" "about_to_crash 2 m4" using crash_and_restart [OF 1(3)] by auto
  obtain c where "cmd (heap m4 0) = Some c" using 2(3) by (auto simp: about_to_crash_def)
  then have "crash_step 0 m4 (watch calm_env None 0 c [] m4)" by (rule crash)
  then have "(crash_round 0 ^^ Suc (Suc (Suc (Suc (Suc 0))))) m (watch calm_env None 0 c [] m4)"
    using 1(1,2) 2(1,2) by (intro relpowp_Suc_I [OF relpowp_Suc_I [OF relpowp_Suc_I [OF relpowp_Suc_I [OF relpowp_Suc_I]]]] r) auto
  moreover have "(5 :: nat) = Suc (Suc (Suc (Suc (Suc 0))))" by simp
  ultimately show ?thesis by metis
qed

lemma us_about_to_crash: "about_to_crash 0 us_started"
proof -
  have a: "restartAttempts (heap sample_start 0) = 0" "\<not> restartScheduled (heap sample_start 0)" "1 \<le> MaxRunning (mcfg sample_start)"
    by code_simp+
  have "restartAttempts (heap us_started 0) = 0 \<and> \<not> restartScheduled (heap us_started 0) \<and> mcfg us_started = mcfg sample_start"
    unfolding us_started_def using sample_start_us a
    by (simp add: start_section_fst [OF calm_env_ok sample_start_lookup(1)] started_def)
  then show ?thesis
    using us_started_facts us_started_lookup manager.reach_inv [OF us_started_reach] sample_start_offline us_started_others a(3)
    by (auto simp: about_to_crash_def)
qed

theorem automatic_restarts_end_witness:
  "(\<exists>m'. (crash_round 0 ^^ 5) us_started m') \<and> {n. \<exists>m'. (crash_round 0 ^^ n) us_started m'} \<subseteq> {..5}"
proof (intro conjI subsetI)
  show "\<exists>m'. (crash_round 0 ^^ 5) us_started m'" by (rule five_rounds [OF us_about_to_crash])
  fix n assume "n \<in> {n. \<exists>m'. (crash_round 0 ^^ n) us_started m'}"
  then obtain m' where r: "(crash_round 0 ^^ n) us_started m'" by blast
  show "n \<in> {..5}"
    using automatic_restarts_end [OF us_started_reach, where p = 0 and n = n and m' = m', THEN conjunct1] r us_about_to_crash
    by (auto simp: about_to_crash_def)
qed

section \<open>A directory removed under a new process\<close>

text \<open>watch removes the directory of the exited process after it gave back the lock; a start of the same
  country that comes in between has already written its files there.  So a process can run whose
  directory is gone.\<close>

lemma restart_loses_directory:
  "\<exists>m. reach minit mstep m \<and> map_of (instances m) ''us'' = Some 0 \<and> cmd (heap m 0) \<noteq> None
     \<and> \<not> has_key (dirs m) (path_join [StateDir (mcfg m), ''us''])"
proof -
  define m1 where "m1 = fst (watch_exit None 0 0 us_started)"
  define m2 where "m2 = fst (start_section calm_env ''us'' m1)"
  define m3 where "m3 = removeInstanceDir calm_env (path_join [StateDir (mcfg m2), ''us'']) m2"
  have 1: "reach minit mstep m1" unfolding m1_def by (rule reach_step, rule us_started_reach, rule s_exit)
  have f: "map_of (instances m1) ''us'' = Some 0" "cmd (heap m1 0) = None" "Status (heap m1 0) = Errored" "\<not> shuttingDown m1"
    using us_started_facts us_started_lookup by (simp_all add: m1_def watch_exit_def exited_def)
  have "reach minit mstep m2" unfolding m2_def by (rule reach_step, rule 1, rule s_start, rule f(4))
  then have 3: "reach minit mstep m3" unfolding m3_def by (rule reach_step) (rule s_remove_dir)
  note g = start_section_fst [OF calm_env_ok f(1,2)]
  have "map_of (instances m2) ''us'' = Some 0" "cmd (heap m2 0) \<noteq> None"
    unfolding m2_def using g f by (simp_all add: started_def)
  moreover have "path_join [x, ''us''] \<noteq> []" for x by (simp add: path_join_def clean_path_def Let_def)
  ultimately have "map_of (instances m3) ''us'' = Some 0 \<and> cmd (heap m3 0) \<noteq> None
      \<and> \<not> has_key (dirs m3) (path_join [StateDir (mcfg m3), ''us''])"
    by (simp add: m3_def removeInstanceDir_def calm_env_def has_key_def)
  with 3 show ?thesis by blast
qed

end
