(* ===== verification/Manager_Runs.thy ===== *)
theory Manager_Runs
  imports Manager_Shutdown Manager_Crash
begin

text \<open>
  Every operation and goroutine of \<^verbatim>\<open>src/manager.go\<close>, \<^verbatim>\<open>src/client_routes.go\<close> and \<^verbatim>\<open>src/proxy.go\<close>, as a
  whole, is a run of the transition system of \<open>Manager_Steps\<close>: nothing it does to the manager is outside
  the sections that the invariants were proved for.  The operations that clients of the manager call
  are collected in \<open>runs_by\<close>.
\<close>

named_theorems runs_by "operations of the manager as runs of its transition system"

section \<open>Following a process\<close>

lemma one_step: "mstep m m' \<Longrightarrow> mstep\<^sup>*\<^sup>* m m'"
  by (rule r_into_rtranclp)

lemma run_then: "mstep\<^sup>*\<^sup>* a b \<Longrightarrow> mstep\<^sup>*\<^sup>* b c \<Longrightarrow> mstep\<^sup>*\<^sup>* a c"
  by (rule rtranclp_trans)

lemma awaitReady_run [runs_by]: "mstep\<^sup>*\<^sup>* m (awaitReady e polls run p c m)"
proof -
  obtain m1 mine where r: "ready_section p c m = (m1, mine)" by fastforce
  have 1: "mstep\<^sup>*\<^sup>* m m1" using one_step [OF s_ready, of m p c] r by simp
  show ?thesis
    using 1 one_step [OF s_fail] steps_then [OF s_fail 1] steps_then [OF s_spawn 1]
    by (auto simp: awaitReady_def r Let_def split: option.splits)
qed

lemma lookupExitInfo_run [runs_by]: "mstep\<^sup>*\<^sup>* m (lookupExitInfo answers p ip m)"
  by (auto simp: lookupExitInfo_def intro: one_step [OF s_info] split: option.splits)

lemma running_with_run: "mstep\<^sup>*\<^sup>* m (fst (running_with io p c ip m))"
proof -
  obtain m1 ok where r: "markInstanceRunning p c ip m = (m1, ok)" by fastforce
  have 1: "mstep\<^sup>*\<^sup>* m m1" using one_step [OF s_running, of m p c ip] r by simp
  show ?thesis
    using 1 run_then [OF steps_then [OF s_rotation 1] lookupExitInfo_run] by (simp add: running_with_def r Let_def)
qed

lemma refreshInstanceExitIP_run [runs_by]: "mstep\<^sup>*\<^sup>* m (fst (refreshInstanceExitIP io p c m))"
  by (auto simp: refreshInstanceExitIP_def Let_def running_with_run split: option.splits)

lemma awaitBootstrap_run [runs_by]: "mstep\<^sup>*\<^sup>* m (awaitBootstrap e polls p c m)"
proof (induction e polls p c m rule: awaitBootstrap.induct)
  case (1 e p c m)
  then show ?case using one_step [OF s_fail] by simp
next
  case (2 e response io polls p c m)
  obtain m2 finished where r: "refreshInstanceExitIP io p c (refreshBootstrapProgress response p m) = (m2, finished)"
    by fastforce
  have "mstep\<^sup>*\<^sup>* m m2"
    using run_then [OF one_step [OF s_progress, of m response p] refreshInstanceExitIP_run [of _ io p c]] r by simp
  with 2 show ?case using r by (auto intro: run_then)
qed

lemma drainAndStop_run [runs_by]: "mstep\<^sup>*\<^sup>* m (fst (drainAndStop e deadline p m))"
  using one_step [OF s_stop_instance] by (simp add: drainAndStop_def)

lemma drainInstance_run [runs_by]: "mstep\<^sup>*\<^sup>* m (fst (drainInstance e deadline old current m))"
proof -
  have "mstep\<^sup>*\<^sup>* x (drain_end current (stopInstance e old x))" for x
    by (rule steps_then [OF s_drain_end one_step [OF s_stop_instance]])
  then show ?thesis
    using one_step [OF s_drain_poll, of m old current] run_then by (auto simp: drainInstance_def Let_def)
qed

section \<open>Starting, stopping, limits\<close>

lemma Start_run [runs_by]: "mstep\<^sup>*\<^sup>* m (fst (Start e code m))"
  using Start_steps [of e code m] by (cases "Start e code m") simp

lemma StopCountry_run [runs_by]: "mstep\<^sup>*\<^sup>* m (fst (StopCountry e code m))"
  by (simp add: StopCountry_def stop_all_steps)

lemma Activate_run [runs_by]: "mstep\<^sup>*\<^sup>* m (fst (Activate e code m))"
proof -
  obtain m1 err where s: "Start e (normalizeCode code) m = (m1, err)" by fastforce
  note 1 = Start_steps [OF s]
  show ?thesis using 1 steps_then [OF s_activate 1] by (cases err) (simp_all add: Activate_def s)
qed

lemma stop_codes_run: "mstep\<^sup>*\<^sup>* m (stop_all e codes m)"
  by (induction e codes m rule: stop_all.induct) (auto intro: run_then stop_all_steps)

lemma UpdateMaxRunning_run [runs_by]: "mstep\<^sup>*\<^sup>* m (UpdateMaxRunning e limit m)"
  unfolding UpdateMaxRunning_def Let_def by (rule run_then [OF one_step [OF s_limit] stop_codes_run])

lemma fold_run: "(\<And>x m. mstep\<^sup>*\<^sup>* m (f x m)) \<Longrightarrow> mstep\<^sup>*\<^sup>* m (fold f xs m)"
  by (induction xs arbitrary: m) (auto intro: run_then)

lemma UpdateCircuitRotateMinutes_run [runs_by]: "mstep\<^sup>*\<^sup>* m (UpdateCircuitRotateMinutes minutes m)"
  unfolding UpdateCircuitRotateMinutes_def RestartRotations_def
  by (rule run_then [OF one_step [OF s_rotate_minutes] fold_run [OF one_step [OF s_rotation]]])

lemma apply_to_all_run: "mstep\<^sup>*\<^sup>* m (fst (apply_to_all run c ps m))"
proof (induction run c ps m rule: apply_to_all.induct)
  case (2 run c p ps m)
  then show ?case using one_step [OF s_retry] by (auto intro: run_then split: option.splits sum.splits)
qed simp

lemma UpdateUpstreamProxy_run [runs_by]: "mstep\<^sup>*\<^sup>* m (fst (UpdateUpstreamProxy run c m))"
proof -
  obtain m1 err where a: "apply_to_all run c (upstream_targets m) m = (m1, err)" by fastforce
  have 1: "mstep\<^sup>*\<^sup>* m m1" using apply_to_all_run [of m run c "upstream_targets m"] a by simp
  show ?thesis using 1 steps_then [OF s_upstream 1] by (cases err) (simp_all add: UpdateUpstreamProxy_def a)
qed

section \<open>Replacing a node\<close>

lemma failed_replacement_run:
  assumes "mstep\<^sup>*\<^sup>* m0 m" "replacement_failed p r sequence message m = (m1, c, st)"
  shows "mstep\<^sup>*\<^sup>* m0 m1" "mstep\<^sup>*\<^sup>* m0 (resumeAfterReplacement p c st m1)"
    "mstep\<^sup>*\<^sup>* m0 (resumeAfterReplacement p c st (stopInstance e r m1))"
proof -
  show 1: "mstep\<^sup>*\<^sup>* m0 m1" using steps_then [OF s_replacement_failed assms(1), of p r sequence message] assms(2) by simp
  show "mstep\<^sup>*\<^sup>* m0 (resumeAfterReplacement p c st m1)" by (rule steps_then [OF s_resume 1])
  show "mstep\<^sup>*\<^sup>* m0 (resumeAfterReplacement p c st (stopInstance e r m1))"
    by (rule steps_then [OF s_resume steps_then [OF s_stop_instance 1]])
qed

lemma launch_replacement_run:
  assumes sc: "mstep\<^sup>*\<^sup>* m0 mc" and c: "replace_section p node port control mb = (mc, Some (r, sequence, previous))"
    and sd: "\<not> shuttingDown mb"
  shows "mstep\<^sup>*\<^sup>* m0 (fst (startDetached e r suffix (case previous of None \<Rightarrow> mc | Some q \<Rightarrow> stopInstance e' q mc)))"
    (is "mstep\<^sup>*\<^sup>* m0 (fst (startDetached e r suffix ?md))")
proof -
  have "mstep\<^sup>*\<^sup>* m0 ?md" using sc steps_then [OF s_stop_instance sc] by (cases previous) simp_all
  moreover have "\<not> shuttingDown ?md" "r < nextPtr ?md" "cmd (heap ?md r) = None"
    using c sd by (auto simp: replace_section_def Let_def allocate_def replacement_instance_def zero_instance_def
        stopInstance_frame split: if_splits option.splits)
  ultimately show ?thesis by (intro steps_then [OF s_detached])
qed

text \<open>What replaceNode does with the outcome of startDetached.\<close>

definition replacement_outcome :: "nat \<Rightarrow> nat \<Rightarrow> bool \<Rightarrow> 64 word \<Rightarrow> Manager \<times> error option \<Rightarrow> Manager \<times> error option" where
  "replacement_outcome p r act sequence outcome =
     (case outcome of (m, None) \<Rightarrow> (spawn (CompleteReplacement p r act sequence) m, None)
      | (m, Some err) \<Rightarrow> let (m1, c, st) = replacement_failed p r sequence (''replacement failed: '' @ err) m
          in (resumeAfterReplacement p c st m1, Some err))"

lemma replacement_outcome_run:
  assumes "mstep\<^sup>*\<^sup>* m0 m"
  shows "mstep\<^sup>*\<^sup>* m0 (fst (replacement_outcome p r act sequence (m, err)))"
proof (cases err)
  case (Some message)
  obtain m1 c st where f: "replacement_failed p r sequence (''replacement failed: '' @ message) m = (m1, c, st)"
    by (cases "replacement_failed p r sequence (''replacement failed: '' @ message) m")
  with Some show ?thesis using failed_replacement_run(2) [OF assms f] by (simp add: replacement_outcome_def)
qed (use steps_then [OF s_spawn assms] in \<open>simp add: replacement_outcome_def\<close>)

lemma replaceNode_run:
  assumes fp: "fingerprintPattern (N_Fingerprint node)"
  shows "mstep\<^sup>*\<^sup>* m (fst (replaceNode e p node act m))"
proof (cases "shuttingDown m")
  case False
  obtain ma x where a: "reserveLocalPort (e 0) m = (ma, x)" by fastforce
  obtain mb y where b: "reserveLocalPort (e 1) ma = (mb, y)" by fastforce
  have sa: "mstep\<^sup>*\<^sup>* m ma" using one_step [OF s_reserve, of m "e 0"] a by simp
  have sb: "mstep\<^sup>*\<^sup>* m mb" using steps_then [OF s_reserve sa, of "e 1"] b by simp
  have sd: "\<not> shuttingDown mb"
    using False reserve_frame [of m 32 0 "listenPort (e 0)"] reserve_frame [of ma 32 0 "listenPort (e 1)"] a b
    by (simp add: reserveLocalPort_def)
  show ?thesis
  proof (cases x)
    case (Inl err)
    with False a sa show ?thesis by (simp add: replaceNode_def)
  next
    case x: (Inr port)
    show ?thesis
    proof (cases y)
      case (Inl err)
      with False a b x show ?thesis using steps_then [OF s_release_port sb] by (simp add: replaceNode_def)
    next
      case y: (Inr control)
      obtain mc z where c: "replace_section p node port control mb = (mc, z)" by fastforce
      have sc: "mstep\<^sup>*\<^sup>* m mc" using steps_then [OF s_replace [OF sd fp] sb, of p port control] c by simp
      show ?thesis
      proof (cases z)
        case None
        with False a b c x y show ?thesis
          using steps_then [OF s_release_port steps_then [OF s_release_port sc]] by (simp add: replaceNode_def)
      next
        case z: (Some t)
        obtain r sequence previous where t: "t = (r, sequence, previous)" by (cases t)
        define md where "md = (case previous of None \<Rightarrow> mc | Some q \<Rightarrow> stopInstance (e 2) q mc)"
        obtain me err where d: "startDetached (e 3) r (''replacement-'' @ itoa (unixNano (e 3))) md = (me, err)" by fastforce
        have se: "mstep\<^sup>*\<^sup>* m me"
          using launch_replacement_run [OF sc c [unfolded z t] sd, of "e 3" "''replacement-'' @ itoa (unixNano (e 3))" "e 2"] d
          by (simp add: md_def)
        have "fst (replaceNode e p node act m) = fst (replacement_outcome p r act sequence (me, err))"
          using False a b c x y z t d
          by (simp add: replaceNode_def replacement_outcome_def md_def [symmetric] Let_def del: append.simps split: option.splits)
        then show ?thesis using replacement_outcome_run [OF se] by simp
      qed
    qed
  qed
qed (simp add: replaceNode_def)

lemma CancelReplacement_run [runs_by]: "mstep\<^sup>*\<^sup>* m (fst (CancelReplacement e code m))"
proof (cases "map_of (instances m) (normalizeCode code)")
  case (Some p)
  show ?thesis
  proof (cases "replacement (heap m p) \<and> pendingReplacement (heap m p) \<noteq> None")
    case True
    then obtain r where r: "replacement (heap m p)" "pendingReplacement (heap m p) = Some r" by blast
    obtain m2 c st where s: "cancel_section p m = (m2, c, st)" by (cases "cancel_section p m")
    have "mstep\<^sup>*\<^sup>* m m2" using one_step [OF s_cancel [OF r]] s by simp
    then have "mstep\<^sup>*\<^sup>* m (resumeAfterReplacement p c st (stopInstance e r m2))"
      by (intro steps_then [OF s_resume] steps_then [OF s_stop_instance])
    with Some r s show ?thesis by (simp add: CancelReplacement_def cancel_section_def Let_def)
  qed (use Some in \<open>auto simp: CancelReplacement_def split: option.splits\<close>)
qed (simp add: CancelReplacement_def)

lemma completeReplacement_run [runs_by]: "mstep\<^sup>*\<^sup>* m (fst (completeReplacement e deadline p r act sequence m))"
proof -
  let ?message = "''replacement instance did not become ready; old route was preserved''"
  obtain mf c st where f: "replacement_failed p r sequence ?message m = (mf, c, st)" by (cases "replacement_failed p r sequence ?message m")
  have failed: "mstep\<^sup>*\<^sup>* m (resumeAfterReplacement p c st (stopInstance e r mf))"
    by (rule failed_replacement_run(3) [OF rtranclp.rtrancl_refl f])
  obtain m1 swapped where s: "swap_section p r act sequence m = (m1, swapped)" by fastforce
  have 1: "mstep\<^sup>*\<^sup>* m m1" using one_step [OF s_swap, of m p r act sequence] s by simp
  have "map_of (instances m1) (code_of m p) = Some r" if swapped
    using s that by (auto simp: swap_section_def Let_def code_of_def split: if_splits)
  then have 2: "mstep\<^sup>*\<^sup>* m (spawn (DrainInstance p r) (rememberInstance e r m1))" if swapped
    using that by (intro steps_then [OF s_spawn] run_then [OF 1] rememberInstance_steps)
  show ?thesis
    using failed 2 steps_then [OF s_stop_instance 1] one_step [OF s_stop_instance, of m e r]
    unfolding completeReplacement_def Let_def f s by simp
qed

section \<open>Nodes and the state file\<close>

lemma ensureCountry_run [runs_by]: "mstep\<^sup>*\<^sup>* m (fst (ensureCountry country m))"
  by (rule one_step [OF s_ensure])

lemma ensureCountry_lookup:
  assumes "minv m" "ensureCountry country m = (m1, Inr p)"
  shows "map_of (instances m1) (code_of m1 p) = Some p"
proof -
  have m1: "minv m1" using minv_ensureCountry [OF assms(1), of country] assms(2) by simp
  have "p \<in> snd ` set (instances m1)"
  proof (cases "map_of (instances m) (normalizeCode (Code country))")
    case None
    then have "map_of (instances m1) (normalizeCode (Code country)) = Some p"
      using assms(2) by (auto simp: ensureCountry_def Let_def add_instance_def split: if_splits)
    then show ?thesis by (metis image_eqI map_of_SomeD snd_conv)
  next
    case (Some q)
    then have "q = p" "instances m1 = instances m"
      using assms(2) by (auto simp: ensureCountry_def Let_def split: if_splits)
    with Some show ?thesis by (metis image_eqI map_of_SomeD snd_conv)
  qed
  with minvD(2) [OF m1] show ?thesis by (rule instances_value)
qed

lemma startNode_run: 
  assumes "minv m" shows "mstep\<^sup>*\<^sup>* m (fst (startNode e node act m))"
proof (cases "fingerprintPattern (N_Fingerprint node)")
  case fp: True
  let ?country = "\<lparr>Code = N_CountryCode node, Name = N_CountryName node\<rparr>"
  obtain m1 res where en: "ensureCountry ?country m = (m1, res)" by fastforce
  have 1: "mstep\<^sup>*\<^sup>* m m1" using ensureCountry_run [of m ?country] en by simp
  show ?thesis
  proof (cases res)
    case (Inl err)
    with en fp 1 show ?thesis by (simp add: startNode_def)
  next
    case (Inr p)
    have lookup: "map_of (instances m1) (Code (ICountry (heap m1 p))) = Some p"
      using ensureCountry_lookup [OF assms] en Inr by (simp add: code_of_def)
    have 2: "mstep\<^sup>*\<^sup>* m (choose_node p node m1)" by (rule steps_then [OF s_choose [OF fp] 1])
    have "fst (startNode e node act m) \<in> {m1\<lparr>active := Code (ICountry (heap m1 p))\<rparr>, m1, fst (replaceNode e p node act m1),
        fst (Activate e (code_of (choose_node p node m1) p) (choose_node p node m1)),
        fst (Start e (code_of (choose_node p node m1) p) (choose_node p node m1))}"
      using en Inr fp by (simp add: startNode_def Let_def)
    then show ?thesis
      using 1 steps_then [OF s_activate_running [OF lookup] 1] run_then [OF 1 replaceNode_run [OF fp]]
        run_then [OF 2 Activate_run] run_then [OF 2 Start_run] by auto
  qed
qed (simp add: startNode_def)

lemma restore_node_run: "fingerprint_ok (P_ExitFingerprint node) \<Longrightarrow> mstep\<^sup>*\<^sup>* m (restore_node e node m)"
proof -
  assume ok: "fingerprint_ok (P_ExitFingerprint node)"
  obtain m1 res where en: "ensureCountry (P_Country node) m = (m1, res)" by fastforce
  have 1: "mstep\<^sup>*\<^sup>* m m1" using ensureCountry_run [of m "P_Country node"] en by simp
  show ?thesis
    using 1 run_then [OF steps_then [OF s_restore_node [OF ok] 1] Start_run]
    by (cases res) (simp_all add: restore_node_def en)
qed

lemma restore_all_run: "list_all (\<lambda>node. fingerprint_ok (P_ExitFingerprint node)) nodes \<Longrightarrow> mstep\<^sup>*\<^sup>* m (restore_all e nodes m)"
  by (induction e nodes m rule: restore_all.induct) (auto intro: run_then restore_node_run)

lemma Restore_run:
  assumes "minv (m\<lparr>active := resumeActive m\<rparr>)"
  shows "mstep\<^sup>*\<^sup>* (m\<lparr>active := resumeActive m\<rparr>) (Restore e m)"
proof -
  have "list_all (\<lambda>node. fingerprint_ok (P_ExitFingerprint node)) (sorted_nodes m)"
    using minvD(7) [OF assms] by (auto simp: resume_ok_def list_all_iff node_ok_def sorted_nodes_def)
  then show ?thesis unfolding Restore_def by (rule restore_all_run)
qed

section \<open>Clients and shutdown\<close>

lemma EnsureCountryProxy_run [runs_by]: "mstep\<^sup>*\<^sup>* m (fst (EnsureCountryProxy listen code m))"
proof (cases "countryPort (CountryProxyPort (mcfg m)) (normalizeCode code)")
  case (Inr port)
  let ?c = "normalizeCode code"
  obtain m1 r where c: "country_check ?c port m = (m1, r)" by fastforce
  have 1: "mstep\<^sup>*\<^sup>* m m1" using one_step [OF s_country_check [OF Inr]] c by simp
  have o: "(?c, port) \<in> set (beingOpened m1)" if "r = Inr False" using c that by (auto simp: country_check_def split: if_splits)
  show ?thesis
    using 1 steps_then [OF s_listening [OF o] 1] steps_then [OF s_not_listening [OF o] 1]
    by (simp add: EnsureCountryProxy_def Inr c Let_def split: sum.splits bool.splits option.splits)
qed (simp add: EnsureCountryProxy_def Let_def)

lemma clientRouteForRequest_run [runs_by]: "mstep\<^sup>*\<^sup>* m (fst (clientRouteForRequest listen conf r code m))"
  using EnsureCountryProxy_run [of m listen "normalizeCode code"]
  by (auto simp: clientRouteForRequest_def Let_def split: option.splits prod.splits sum.splits)

lemma session_run:
  assumes "\<And>x. mstep\<^sup>*\<^sup>* x (during io x)"
  shows "mstep\<^sup>*\<^sup>* m (fst (forwardCountry io code client m))" "mstep\<^sup>*\<^sup>* m (fst (forward io client m))"
proof -
  have 1: "mstep\<^sup>*\<^sup>* m m1" if "acquireInstance c m = (m1, q)" for c m1 q
    using one_step [OF s_acquire, of m c] that by simp
  have 2: "mstep\<^sup>*\<^sup>* m (releaseInstance p (during io m1))" if "acquireInstance c m = (m1, q)" for c m1 q p
    by (rule steps_then [OF s_release run_then [OF 1 [OF that] assms]])
  show "mstep\<^sup>*\<^sup>* m (fst (forwardCountry io code client m))"
    by (auto simp: forwardCountry_def Let_def intro: 1 2 split: prod.splits bool.splits option.splits sum.splits)
  show "mstep\<^sup>*\<^sup>* m (fst (forward io client m))"
    by (auto simp: forward_def Let_def intro: 1 2 split: prod.splits option.splits sum.splits)
qed

lemma shutdown_rounds_run:
  "(\<And>others e. (others, e) \<in> set waits \<Longrightarrow> \<forall>x. mstep\<^sup>*\<^sup>* x (others x)) \<Longrightarrow> mstep\<^sup>*\<^sup>* m (fst (shutdown_rounds ctxErr e waits m))"
proof (induction ctxErr e waits m rule: shutdown_rounds.induct)
  case (1 ctxErr e m)
  then show ?case using shutdown_round_steps [of m e] by (simp add: split_beta Let_def)
next
  case (2 ctxErr e others e' waits m)
  obtain m1 finished where r: "shutdown_round e m = (m1, finished)" by fastforce
  have 1: "mstep\<^sup>*\<^sup>* m m1" using shutdown_round_steps [of m e] r by simp
  have "mstep\<^sup>*\<^sup>* m (others m1)" using 1 2(2) [of others e'] by (auto intro: run_then)
  moreover have "\<not> finished \<Longrightarrow> mstep\<^sup>*\<^sup>* (others m1) (fst (shutdown_rounds ctxErr e' waits (others m1)))"
    using 2(1) [OF r [symmetric] refl] 2(2) by auto
  ultimately show ?case using 1 r by (auto intro: run_then)
qed

lemma Shutdown_run:
  "(\<And>others e. (others, e) \<in> set waits \<Longrightarrow> \<forall>x. mstep\<^sup>*\<^sup>* x (others x)) \<Longrightarrow> mstep\<^sup>*\<^sup>* m (fst (Shutdown ctxErr e waits m))"
  unfolding Shutdown_def by (rule run_then [OF one_step [OF s_shutdown] shutdown_rounds_run])

section \<open>The property\<close>

text \<open>C3: The operations of the manager implement its transition system: whatever the environment answers,
  starting, stopping and activating a country, choosing and replacing a node, cancelling and completing
  a replacement, changing the limits and the upstream proxy, watching, restarting and readying a
  process, draining, serving a client and shutting down all lead from a reachable state to a reachable
  one, so that every invariant of the reachable states holds after each of them.\<close>

theorem manager_operations_are_runs:
  assumes "reach minit mstep m" and "\<And>x. mstep\<^sup>*\<^sup>* x (during io x)"
    and "\<And>others e. (others, e) \<in> set waits \<Longrightarrow> \<forall>x. mstep\<^sup>*\<^sup>* x (others x)"
  shows "reach minit mstep (fst (Start es code m)) \<and> reach minit mstep (fst (StopCountry e code m))
    \<and> reach minit mstep (fst (Activate es code m)) \<and> reach minit mstep (fst (startNode es node act m))
    \<and> reach minit mstep (fst (CancelReplacement e code m))
    \<and> reach minit mstep (fst (completeReplacement e deadline p r act sequence m))
    \<and> reach minit mstep (UpdateMaxRunning es limit m) \<and> reach minit mstep (UpdateCircuitRotateMinutes minutes m)
    \<and> reach minit mstep (fst (UpdateUpstreamProxy run conf m))
    \<and> reach minit mstep (watch e err p c dir m) \<and> reach minit mstep (runAutoRestart es p attempt m)
    \<and> reach minit mstep (awaitReady e polls answers p c m) \<and> reach minit mstep (awaitBootstrap e probes p c m)
    \<and> reach minit mstep (fst (drainAndStop e deadline p m)) \<and> reach minit mstep (fst (drainInstance e deadline p r m))
    \<and> reach minit mstep (fst (forwardCountry io code client m)) \<and> reach minit mstep (fst (forward io client m))
    \<and> reach minit mstep (fst (Shutdown ctxErr e waits m))"
proof -
  note inv = manager.reach_inv [OF assms(1)] and run = manager.reach_rtranclp [OF assms(1)]
  show ?thesis
    by (intro conjI run runs_by watch_steps runAutoRestart_steps startNode_run [OF inv] session_run assms(2) Shutdown_run)
      (rule assms(3))
qed

theorem manager_operations_are_runs_witness:
  "reach minit mstep (fst (StopCountry calm_env ''us'' us_started))
    \<and> reach minit mstep (fst (Shutdown ''deadline exceeded'' calm_env [(first_exits, calm_env)] us_started))"
  using manager_operations_are_runs [OF us_started_reach,
      where io = "\<lparr>dialTor = (\<lambda>_. Inl []), bytesUp = 0, bytesDown = 0, during = id\<rparr>"
        and waits = "[(first_exits, calm_env)]" and e = calm_env and code = "''us''" and ctxErr = "''deadline exceeded''"]
    first_exits_steps by simp

end
