(* ===== verification/Catalog_Proofs.thy ===== *)
theory Catalog_Proofs
  imports Catalog "HOL-Library.Product_Lexorder" "HOL-Library.List_Lexorder" "HOL-Library.Char_ord"
begin

text \<open>
  The catalogue as a transition system with its invariant, the effect of a refresh, the two orders
  the code sorts by, and what the reports and the choice of a node return.
\<close>

section \<open>The orders\<close>

text \<open>Both comparison functions compare keys in a linear order.\<close>

definition node_key :: "ExitNode \<Rightarrow> int \<times> int \<times> int" where
  "node_key n = (latencyRank (N_LatencyMS n), if N_LatencyMS n \<ge> 0 then N_LatencyMS n else 0, - N_ConsensusWeight n)"

lemma lessExitNode_key: "lessExitNode a b \<longleftrightarrow> node_key a < node_key b"
  by (auto simp: lessExitNode_def node_key_def latencyRank_def)

interpretation exit_order: strict_weak lessExitNode
  unfolding lessExitNode_key by (rule strict_weak_key)

lemma string_less_iff: "string_less a b \<longleftrightarrow> a < b"
  by (induction a b rule: string_less.induct) (auto simp: less_char_def)

lemma less_country_key:
  "less_country a b \<longleftrightarrow> (continentOrder (EC_Continent a), EC_Name a) < (continentOrder (EC_Continent b), EC_Name b)"
  by (auto simp: less_country_def Let_def string_less_iff)

interpretation country_order: strict_weak less_country
  unfolding less_country_key by (rule strict_weak_key)

section \<open>The transition system\<close>

inductive cstep :: "ExitCatalog \<Rightarrow> ExitCatalog \<Rightarrow> bool" where
  c_accept: "cstep c (accept_document t relays c)"
| c_error: "cstep c (setError err c)"
| c_upstream: "cstep c (UpdateCatalogUpstream conf c)"
| c_start: "cstep c (startLatencyChecks t code limit c)"
| c_slot: "cstep c (take_slot check c)"
| c_read: "cstep c (read_upstream check c)"
| c_finish: "cstep c (finish_check splitError dial elapsed t check c)"

inductive_simps cstep_simps: "cstep c c'"
inductive_cases cstep_cases: "cstep c c'"

definition cinit :: "ExitCatalog \<Rightarrow> bool" where
  "cinit c \<longleftrightarrow> (\<exists>conf. c = NewExitCatalog conf)"

definition exit_ok :: "string \<Rightarrow> ExitNode \<Rightarrow> bool" where
  "exit_ok fp n \<longleftrightarrow> N_Fingerprint n = fp \<and> (\<exists>s. fp = to_upper s) \<and> canonical_code (N_CountryCode n) \<and> N_IP n \<noteq> []
     \<and> N_Continent n = continentFor (N_CountryCode n)
     \<and> (N_LatencyMS n = -2 \<or> N_LatencyMS n = -1 \<and> N_LatencyChecked n = 0 \<or> N_LatencyMS n \<ge> 1)"

definition nodes_ok :: "(string, ExitNode) gomap \<Rightarrow> bool" where
  "nodes_ok al \<longleftrightarrow> distinct (map fst al) \<and> (\<forall>fp n. map_of al fp = Some n \<longrightarrow> exit_ok fp n)"

definition cat_inv :: "ExitCatalog \<Rightarrow> bool" where
  "cat_inv c \<longleftrightarrow> nodes_ok (C_nodes c) \<and> length (C_measuring c) \<le> latencySlots \<and> C_client c = catalogClient (C_cfg c)"

lemma nodes_ok_Nil [simp]: "nodes_ok []"
  by (simp add: nodes_ok_def)

lemma nodes_ok_update: "nodes_ok al \<Longrightarrow> exit_ok fp n \<Longrightarrow> nodes_ok (AList.update fp n al)"
  by (auto simp: nodes_ok_def distinct_update)

lemma exit_ok_node_of: "usable_relay r \<Longrightarrow> exit_ok (N_Fingerprint (node_of r)) (node_of r)"
  by (auto simp: exit_ok_def usable_relay_def node_of_def Let_def normalizeCode_pattern)

lemma exit_ok_keep:
  "nodes_ok old \<Longrightarrow> exit_ok (N_Fingerprint n) n \<Longrightarrow> exit_ok (N_Fingerprint (keep_latency t old n)) (keep_latency t old n)"
  by (auto simp: keep_latency_def exit_ok_def nodes_ok_def split: option.splits)

lemma keep_latency_fp [simp]: "N_Fingerprint (keep_latency t old n) = N_Fingerprint n"
  by (simp add: keep_latency_def split: option.splits)

lemma merge_ok: "nodes_ok old \<Longrightarrow> nodes_ok updated \<Longrightarrow> nodes_ok (merge_relays t old relays updated)"
proof (induction relays arbitrary: updated)
  case (Cons r relays)
  have "exit_ok (N_Fingerprint (keep_latency t old (node_of r))) (keep_latency t old (node_of r))" if "usable_relay r"
    using exit_ok_keep [OF Cons.prems(1) exit_ok_node_of [OF that]] .
  with Cons show ?case by (auto simp: Let_def nodes_ok_update simp del: keep_latency_fp)
qed simp

lemma measure_range: "measureTCPLatency splitError dial elapsed conf address = -2
    \<or> measureTCPLatency splitError dial elapsed conf address \<ge> 1"
  by (auto simp: measureTCPLatency_def Let_def)

lemma finish_check_inv: "cat_inv c \<Longrightarrow> cat_inv (finish_check splitError dial elapsed t check c)"
proof -
  assume c: "cat_inv c"
  obtain fp address conf where check: "check = ((fp, address), conf)" by (metis surj_pair)
  define l where "l = measureTCPLatency splitError dial elapsed conf address"
  have "exit_ok fp (n\<lparr>N_LatencyMS := l, N_LatencyChecked := t\<rparr>)" if "map_of (C_nodes c) fp = Some n" for n
    using that c measure_range [of splitError dial elapsed conf address]
    unfolding l_def [symmetric] cat_inv_def nodes_ok_def exit_ok_def by auto
  with c show ?thesis
    by (auto simp: finish_check_def check cat_inv_def Let_def length_remove1 nodes_ok_update l_def [symmetric] split: option.splits)
qed

lemma read_upstream_inv: "cat_inv c \<Longrightarrow> cat_inv (read_upstream check c)"
  using length_pos_if_in_set [of "(check, None)" "C_measuring c"]
  by (auto simp: read_upstream_def cat_inv_def length_remove1)

lemma cstep_inv: "cstep c c' \<Longrightarrow> cat_inv c \<Longrightarrow> cat_inv c'"
proof (induction rule: cstep.induct)
  case (c_finish c splitError dial elapsed t check)
  then show ?case by (rule finish_check_inv)
next
  case (c_read c check)
  then show ?case by (rule read_upstream_inv)
qed (auto simp: cat_inv_def accept_document_def setError_def UpdateCatalogUpstream_def startLatencyChecks_def take_slot_def
    Let_def merge_ok)

interpretation catalog: invariant_system cinit cstep cat_inv
proof unfold_locales
  show "cat_inv c" if "cinit c" for c using that by (auto simp: cinit_def NewExitCatalog_def cat_inv_def)
qed (rule cstep_inv)

lemma catalog_nodes:
  assumes "cat_inv c" "n \<in> set (map snd (C_nodes c))"
  shows "exit_ok (N_Fingerprint n) n" "map_of (C_nodes c) (N_Fingerprint n) = Some n"
proof -
  obtain fp where "(fp, n) \<in> set (C_nodes c)" using assms(2) by auto
  then have "map_of (C_nodes c) fp = Some n" using assms(1) by (simp add: cat_inv_def nodes_ok_def)
  with assms(1) show "exit_ok (N_Fingerprint n) n" "map_of (C_nodes c) (N_Fingerprint n) = Some n"
    by (auto simp: cat_inv_def nodes_ok_def exit_ok_def)
qed

text \<open>C18: Whatever refreshes, changes of the upstream proxy and latency checks are made, in any order, the
  catalogue stays well-formed: every node is found under its own fingerprint, which is in upper case, and has a
  lower-case two-letter country code with the continent of that code and an address; its latency is a
  positive number of milliseconds, -2 for a failed check, or -1 exactly as long as no check was made;
  at most ten checks measure at the same time; and the client dials through the configured upstream.\<close>

theorem catalog_well_formed:
  assumes "reach cinit cstep c"
  shows "(\<forall>n \<in> set (map snd (C_nodes c)). map_of (C_nodes c) (N_Fingerprint n) = Some n
       \<and> (\<exists>s. N_Fingerprint n = to_upper s) \<and> canonical_code (N_CountryCode n) \<and> N_IP n \<noteq> [] \<and> N_Continent n = continentFor (N_CountryCode n)
       \<and> (N_LatencyMS n = -2 \<or> N_LatencyMS n = -1 \<and> N_LatencyChecked n = 0 \<or> N_LatencyMS n \<ge> 1))
    \<and> length (C_measuring c) \<le> 10 \<and> C_client c = catalogClient (C_cfg c)"
proof -
  have c: "cat_inv c" using assms by (rule catalog.reach_inv)
  then have "length (C_measuring c) \<le> 10 \<and> C_client c = catalogClient (C_cfg c)"
    by (simp add: cat_inv_def latencySlots_def)
  with catalog_nodes [OF c] show ?thesis unfolding exit_ok_def by blast
qed

definition sample_relay :: Relay where
  "sample_relay = \<lparr>R_Fingerprint = replicate 40 (CHR ''a''), R_Nickname = ''relay'', R_ORAddresses = [''1.2.3.4:9001''],
     R_ExitAddresses = [], R_Country = ''US'', R_CountryName = ''United States'', R_ASN = ''AS1'', R_ASName = ''Example'',
     R_ConsensusWeight = 20, R_Accept = [''80'', ''443''], R_Reject = []\<rparr>"

definition sample_catalog :: ExitCatalog where
  "sample_catalog = accept_document (20 * hour) [sample_relay] (NewExitCatalog (defaultConfig False))"

lemma sample_catalog_reach: "reach cinit cstep sample_catalog"
  unfolding sample_catalog_def by (rule reach_step, rule reach_init, simp add: cinit_def, blast, rule c_accept)

lemma sample_usable: "usable_relay sample_relay" "normalizeCode (R_Country sample_relay) = ''us''"
  by code_simp+

theorem catalog_well_formed_witness: "length (C_nodes sample_catalog) = 1 \<and> length (C_measuring sample_catalog) \<le> 10"
  using catalog_well_formed [OF sample_catalog_reach] sample_usable
  by (simp add: sample_catalog_def accept_document_def Let_def)

section \<open>Refreshing\<close>

text \<open>The last usable relay of a document with a fingerprint decides about it.\<close>

definition relay_for :: "Relay list \<Rightarrow> string \<Rightarrow> Relay option" where
  "relay_for relays fp = List.find (\<lambda>r. usable_relay r \<and> to_upper (R_Fingerprint r) = fp) (rev relays)"

lemma find_append: "List.find P (xs @ ys) = (case List.find P xs of Some x \<Rightarrow> Some x | None \<Rightarrow> List.find P ys)"
  by (induction xs) auto

lemma merge_lookup:
  "map_of (merge_relays t old relays updated) fp =
     (case relay_for relays fp of Some r \<Rightarrow> Some (keep_latency t old (node_of r)) | None \<Rightarrow> map_of updated fp)"
proof (induction relays arbitrary: updated)
  case (Cons r relays)
  have "N_Fingerprint (node_of r) = to_upper (R_Fingerprint r)" by (simp add: node_of_def Let_def)
  with Cons show ?case by (auto simp: relay_for_def find_append Let_def split: option.splits)
qed (simp add: relay_for_def)

text \<open>C17: A refresh that fails loses nothing: the nodes and the time of the last successful refresh stay,
  the error is reported - by EnsureFresh only when there is no node at all to fall back on.  A refresh
  that succeeds either found the catalogue fresh, or replaces it by exactly the usable relays of the
  document, keeping a latency measured less than five minutes before, and clears the error.\<close>

theorem refresh_outcome:
  assumes "refresh t queued meanwhile fetch force c0 = (c', err)"
  shows "case err of
      Some _ \<Rightarrow> (let c1 = meanwhile (queued c0) in C_nodes c' = C_nodes c1 \<and> C_fetchedAt c' = C_fetchedAt c1
         \<and> (force = False \<longrightarrow> EnsureFresh t queued meanwhile fetch c0 = (c', if C_nodes c1 = [] then err else None)))
    | None \<Rightarrow> fresh force (t 0) c0 \<and> c' = c0 \<or> fresh force (t 1) (queued c0) \<and> c' = queued c0
       \<or> (\<exists>relays. fetch (C_client (queued c0)) = Fetch_document relays \<and> C_lastError c' = [] \<and> C_fetchedAt c' = t 2
           \<and> (\<forall>fp. NodeOf fp c' = map_option (\<lambda>r. keep_latency (t 2) (C_nodes (meanwhile (queued c0))) (node_of r))
                 (relay_for relays (to_upper fp))))"
proof (cases err)
  case None
  with assms show ?thesis
    by (auto simp: refresh_def Let_def accept_document_def NodeOf_def merge_lookup option.case_eq_if map_option_case
        split: if_splits fetch.splits)
next
  case (Some x)
  with assms have r: "C_nodes c' = C_nodes (meanwhile (queued c0))" "C_fetchedAt c' = C_fetchedAt (meanwhile (queued c0))"
    by (auto simp: refresh_def Let_def setError_def split: if_splits fetch.splits)
  moreover have "EnsureFresh t queued meanwhile fetch c0 = (c', if C_nodes c' = [] then err else None)" if "force = False"
    using assms Some that by (simp add: EnsureFresh_def CatalogStatusOf_def)
  ultimately show ?thesis using Some by (simp add: Let_def)
qed

theorem refresh_outcome_witness:
  "EnsureFresh (\<lambda>k. 30 * hour) id id (\<lambda>_. Fetch_failed ''timeout'') sample_catalog
     = (setError ''timeout'' sample_catalog, None) \<and> C_nodes sample_catalog \<noteq> []"
proof -
  have n: "C_nodes sample_catalog \<noteq> []" "C_fetchedAt sample_catalog = 20 * hour"
    using sample_usable by (simp_all add: sample_catalog_def accept_document_def Let_def)
  then have "refresh (\<lambda>k. 30 * hour) id id (\<lambda>_. Fetch_failed ''timeout'') False sample_catalog
      = (setError ''timeout'' sample_catalog, Some (''load Tor exit directory: '' @ ''timeout''))"
    by (simp add: refresh_def fresh_def duration_defs)
  from refresh_outcome [OF this] n show ?thesis by (simp add: Let_def)
qed

end
