(* ===== verification/Catalog_Select.thy ===== *)
theory Catalog_Select
  imports Catalog_Proofs
begin

text \<open>
  The lists the catalogue reports and the choice of a node for a list of countries and a policy.
\<close>

section \<open>Nodes of a country\<close>

lemma NodesForCountry_set:
  "set (NodesForCountry code c) = {n \<in> set (map snd (C_nodes c)). N_CountryCode n = normalizeCode code}"
  by (auto simp: NodesForCountry_def)

lemma NodesForCountry_sorted: "sorted_wrt (\<lambda>a b. \<not> lessExitNode b a) (NodesForCountry code c)"
  unfolding NodesForCountry_def by (rule exit_order.sorted_sort)

lemma sorted_hd: "sorted_wrt (\<lambda>a b. \<not> lessExitNode b a) ns \<Longrightarrow> n \<in> set ns \<Longrightarrow> \<not> lessExitNode n (hd ns)"
  by (cases ns) (auto simp: exit_order.lt_irrefl)

lemma sorted_hd_filter:
  "sorted_wrt (\<lambda>a b. \<not> lessExitNode b a) ns \<Longrightarrow> n \<in> set ns \<Longrightarrow> P n \<Longrightarrow> \<not> lessExitNode n (hd (filter P ns))"
  by (rule sorted_hd) (auto intro: sorted_wrt_filter)

section \<open>Countries\<close>

definition counted :: "(string, ExitCountry) gomap \<Rightarrow> string \<Rightarrow> int" where
  "counted al code = (case map_of al code of None \<Rightarrow> 0 | Some x \<Rightarrow> EC_NodeCount x)"

definition tally :: "(string, ExitCountry) gomap \<Rightarrow> bool" where
  "tally al \<longleftrightarrow> distinct (map fst al) \<and> (\<forall>code x. map_of al code = Some x \<longrightarrow> EC_Code x = code \<and> EC_NodeCount x > 0)"

lemma count_country_tally: "tally al \<Longrightarrow> tally (count_country n al)"
  by (auto simp: tally_def count_country_def Let_def distinct_update intro: less_imp_le split: option.splits)

lemma count_country_counted:
  "counted (count_country n al) code = counted al code + (if N_CountryCode n = code then 1 else 0)"
  by (auto simp: counted_def count_country_def Let_def split: option.splits)

lemma count_all:
  "tally al \<Longrightarrow> tally (fold count_country ns al)
     \<and> counted (fold count_country ns al) code = counted al code + int (length (filter (\<lambda>n. N_CountryCode n = code) ns))"
  by (induction ns arbitrary: al) (auto simp: count_country_tally count_country_counted)

lemma tally_counted: "tally al \<Longrightarrow> x \<in> set (map snd al) \<Longrightarrow> counted al (EC_Code x) = EC_NodeCount x \<and> EC_NodeCount x > 0"
proof -
  assume t: "tally al" "x \<in> set (map snd al)"
  then obtain code where "map_of al code = Some x" by (force simp: tally_def)
  with t(1) show ?thesis by (auto simp: tally_def counted_def)
qed

lemma tally_codes: "tally al \<Longrightarrow> map EC_Code (map snd al) = map fst al"
  by (auto simp: tally_def)

text \<open>C31: The list of countries is complete and counts right: it has every country that has a node in the
  catalogue once and no other, its node count is the number of nodes that NodesForCountry returns for
  it, and the list is ordered by continent and then by name.\<close>

theorem countries_report:
  assumes "reach cinit cstep c"
  shows "distinct (map EC_Code (CatalogCountries c))
    \<and> set (map EC_Code (CatalogCountries c)) = N_CountryCode ` set (map snd (C_nodes c))
    \<and> (\<forall>x \<in> set (CatalogCountries c). EC_NodeCount x = int (length (NodesForCountry (EC_Code x) c)))
    \<and> sorted_wrt (\<lambda>a b. \<not> less_country b a) (CatalogCountries c)"
proof -
  have c: "cat_inv c" using assms by (rule catalog.reach_inv)
  let ?ns = "map snd (C_nodes c)"
  let ?al = "fold count_country ?ns []"
  have t: "tally ?al" "counted ?al code = int (length (filter (\<lambda>n. N_CountryCode n = code) ?ns))" for code
    using count_all [of "[]" ?ns] by (simp_all add: tally_def counted_def)
  have keys: "code \<in> set (map fst ?al) \<longleftrightarrow> code \<in> N_CountryCode ` set ?ns" for code
  proof -
    have "code \<in> set (map fst ?al) \<longleftrightarrow> counted ?al code > 0"
      using t(1) by (auto simp: counted_def tally_def map_of_eq_None_iff split: option.splits) (force+)?
    also have "\<dots> \<longleftrightarrow> code \<in> N_CountryCode ` set ?ns"
      unfolding t(2) by (auto simp: filter_empty_conv)
    finally show ?thesis .
  qed
  have codes: "mset (map EC_Code (CatalogCountries c)) = mset (map fst ?al)"
    unfolding tally_codes [OF t(1), symmetric] by (simp add: CatalogCountries_def multiset.map_comp)
  then have "distinct (map EC_Code (CatalogCountries c))"
    using t(1) mset_eq_imp_distinct_iff unfolding tally_def by blast
  moreover have "set (map EC_Code (CatalogCountries c)) = N_CountryCode ` set ?ns"
    using mset_eq_setD [OF codes] keys by blast
  moreover have "EC_NodeCount x = int (length (NodesForCountry (EC_Code x) c))" if x: "x \<in> set (CatalogCountries c)" for x
  proof -
    have xa: "x \<in> set (map snd ?al)" using x by (simp add: CatalogCountries_def)
    have "EC_Code x \<in> N_CountryCode ` set ?ns" using xa keys tally_codes [OF t(1)] by (metis image_eqI list.set_map)
    then obtain n where n: "n \<in> set ?ns" "EC_Code x = N_CountryCode n" by blast
    then have "canonical_code (EC_Code x)" using catalog_nodes(1) [OF c n(1)] by (simp add: exit_ok_def)
    then have "normalizeCode (EC_Code x) = EC_Code x" by simp
    with tally_counted [OF t(1) xa] t(2) [of "EC_Code x"] show ?thesis by (simp add: NodesForCountry_def)
  qed
  moreover have "sorted_wrt (\<lambda>a b. \<not> less_country b a) (CatalogCountries c)"
    unfolding CatalogCountries_def by (rule country_order.sorted_sort)
  ultimately show ?thesis by blast
qed

lemma sample_nodes: "map (N_CountryCode \<circ> snd) (C_nodes sample_catalog) = [''us'']"
  using sample_usable by (simp add: sample_catalog_def accept_document_def Let_def keep_latency_def node_of_def NewExitCatalog_def)

theorem countries_report_witness: "set (map EC_Code (CatalogCountries sample_catalog)) = {''us''}"
proof -
  have "N_CountryCode ` set (map snd (C_nodes sample_catalog)) = set (map (N_CountryCode \<circ> snd) (C_nodes sample_catalog))"
    by auto
  with countries_report [OF sample_catalog_reach] sample_nodes show ?thesis by simp
qed

section \<open>Choosing a node\<close>

definition in_countries :: "ExitCatalog \<Rightarrow> string list \<Rightarrow> ExitNode set" where
  "in_countries c codes = (\<Union>code \<in> set codes. set (NodesForCountry code c))"

lemma best_lowest:
  assumes "policy \<noteq> ''failover''"
  shows "best_loop c policy requireMeasured codes candidates =
    (let ns = candidates @ concat (map (\<lambda>code. filter (eligible requireMeasured) (NodesForCountry code c)) codes)
     in if ns = [] then None else Some (hd (sort_slice lessExitNode ns)))"
  using assms by (induction codes arbitrary: candidates) (simp_all add: Let_def)

text \<open>With the failover policy no candidates are collected before a country that has an eligible node.\<close>

lemma best_failover:
  "best_loop c ''failover'' requireMeasured codes [] =
    (case List.find (\<lambda>code. filter (eligible requireMeasured) (NodesForCountry code c) \<noteq> []) codes of
       None \<Rightarrow> None | Some code \<Rightarrow> Some (hd (filter (eligible requireMeasured) (NodesForCountry code c))))"
proof (induction codes)
  case (Cons code codes)
  have "filter (eligible False) ns = ns" for ns by (simp add: eligible_def)
  with Cons show ?case
    by (cases "NodesForCountry code c = []"; cases requireMeasured) (auto simp: Let_def)
qed simp

lemma find_split: "List.find P xs = Some x \<Longrightarrow> \<exists>pre post. xs = pre @ x # post \<and> P x \<and> (\<forall>y \<in> set pre. \<not> P y)"
proof (induction xs)
  case (Cons a xs)
  show ?case
  proof (cases "P a")
    case False
    then obtain pre post where "xs = pre @ x # post" "P x" "\<forall>y \<in> set pre. \<not> P y" using Cons by auto
    with False show ?thesis by (intro exI [of _ "a # pre"] exI [of _ post]) simp
  next
    case True
    with Cons.prems have "a = x" by simp
    with True show ?thesis by (intro exI [of _ "[]"] exI [of _ xs]) simp
  qed
qed simp

lemma failover_pass:
  "bestCandidate codes ''failover'' requireMeasured c = None \<longleftrightarrow> (\<forall>x \<in> in_countries c codes. \<not> eligible requireMeasured x)"
  "bestCandidate codes ''failover'' requireMeasured c = Some n \<Longrightarrow> \<exists>pre code post. codes = pre @ code # post
     \<and> n \<in> set (NodesForCountry code c) \<and> eligible requireMeasured n
     \<and> (\<forall>x \<in> set (NodesForCountry code c). eligible requireMeasured x \<longrightarrow> \<not> lessExitNode x n)
     \<and> (\<forall>x \<in> in_countries c pre. \<not> eligible requireMeasured x)"
proof -
  let ?P = "\<lambda>code. filter (eligible requireMeasured) (NodesForCountry code c) \<noteq> []"
  note b = best_failover [of c requireMeasured codes, folded bestCandidate_def]
  have empty: "\<not> ?P code \<longleftrightarrow> (\<forall>x \<in> set (NodesForCountry code c). \<not> eligible requireMeasured x)" for code
    by (auto simp: filter_empty_conv)
  show "bestCandidate codes ''failover'' requireMeasured c = None \<longleftrightarrow> (\<forall>x \<in> in_countries c codes. \<not> eligible requireMeasured x)"
    unfolding b in_countries_def using empty find_None_iff [of ?P codes] by (auto split: option.splits)
  assume "bestCandidate codes ''failover'' requireMeasured c = Some n"
  then obtain code where f: "List.find ?P codes = Some code" "n = hd (filter (eligible requireMeasured) (NodesForCountry code c))"
    using b by (auto split: option.splits)
  obtain pre post where s: "codes = pre @ code # post" "?P code" "\<forall>y \<in> set pre. \<not> ?P y" using find_split [OF f(1)] by blast
  have "n \<in> set (filter (eligible requireMeasured) (NodesForCountry code c))" unfolding f(2) using s(2) by (rule hd_in_set)
  moreover have "\<not> lessExitNode x n" if "x \<in> set (NodesForCountry code c)" "eligible requireMeasured x" for x
    unfolding f(2) using NodesForCountry_sorted that by (rule sorted_hd_filter)
  moreover have "\<forall>x \<in> in_countries c pre. \<not> eligible requireMeasured x" using s(3) empty by (auto simp: in_countries_def)
  ultimately show "\<exists>pre code post. codes = pre @ code # post
     \<and> n \<in> set (NodesForCountry code c) \<and> eligible requireMeasured n
     \<and> (\<forall>x \<in> set (NodesForCountry code c). eligible requireMeasured x \<longrightarrow> \<not> lessExitNode x n)
     \<and> (\<forall>x \<in> in_countries c pre. \<not> eligible requireMeasured x)"
    using s(1) by auto
qed

lemma hd_sort_in: "ns \<noteq> [] \<Longrightarrow> hd (sort_slice lessExitNode ns) \<in> set ns"
  by (metis hd_in_set set_sort_slice sort_slice_empty_iff)

lemma measured_first: "N_LatencyMS b \<ge> 0 \<Longrightarrow> \<not> N_LatencyMS a \<ge> 0 \<Longrightarrow> \<not> lessExitNode a b"
  by (auto simp: lessExitNode_def latencyRank_def)

text \<open>What the two passes of SelectNode return.\<close>

definition two_passes :: "string list \<Rightarrow> string \<Rightarrow> ExitCatalog \<Rightarrow> ExitNode option" where
  "two_passes codes policy c = (case bestCandidate codes policy True c of Some n \<Rightarrow> Some n
     | None \<Rightarrow> bestCandidate codes policy False c)"

lemma lowest_pass:
  assumes "policy \<noteq> ''failover''"
  shows "bestCandidate codes policy requireMeasured c = None \<longleftrightarrow> {n \<in> in_countries c codes. eligible requireMeasured n} = {}"
    "bestCandidate codes policy requireMeasured c = Some n \<Longrightarrow>
       n \<in> in_countries c codes \<and> eligible requireMeasured n \<and> (\<forall>x \<in> in_countries c codes. eligible requireMeasured x \<longrightarrow> \<not> lessExitNode x n)"
proof -
  let ?ns = "concat (map (\<lambda>code. filter (eligible requireMeasured) (NodesForCountry code c)) codes)"
  have s: "set ?ns = {n \<in> in_countries c codes. eligible requireMeasured n}" by (auto simp: in_countries_def)
  have b: "bestCandidate codes policy requireMeasured c = (if ?ns = [] then None else Some (hd (sort_slice lessExitNode ?ns)))"
    using best_lowest [OF assms] by (simp add: bestCandidate_def Let_def)
  show "bestCandidate codes policy requireMeasured c = None \<longleftrightarrow> {n \<in> in_countries c codes. eligible requireMeasured n} = {}"
    unfolding b s [symmetric] set_empty by simp
  assume "bestCandidate codes policy requireMeasured c = Some n"
  then have "?ns \<noteq> []" "n = hd (sort_slice lessExitNode ?ns)" using b by (auto split: if_splits)
  then show "n \<in> in_countries c codes \<and> eligible requireMeasured n
      \<and> (\<forall>x \<in> in_countries c codes. eligible requireMeasured x \<longrightarrow> \<not> lessExitNode x n)"
    using hd_sort_in [of ?ns] exit_order.hd_least [of _ ?ns] unfolding s by blast
qed

lemma lowest_latency_best:
  assumes "policy \<noteq> ''failover''" "two_passes codes policy c = Some n"
  shows "n \<in> in_countries c codes \<and> (\<forall>x \<in> in_countries c codes. \<not> lessExitNode x n)"
proof (cases "bestCandidate codes policy True c")
  case None
  with assms(2) have "bestCandidate codes policy False c = Some n" by (simp add: two_passes_def)
  from lowest_pass(2) [OF assms(1) this] show ?thesis by (simp add: eligible_def)
next
  case (Some n')
  with assms(2) have "n' = n" by (simp add: two_passes_def)
  with lowest_pass(2) [OF assms(1) Some] measured_first show ?thesis by (auto simp: eligible_def)
qed

text \<open>The contract of the two policies, over all nodes of the requested countries: the first country with
  a measured node, or else the first with a node, has the node that failover returns.\<close>

definition chosen_by :: "string \<Rightarrow> string list \<Rightarrow> ExitCatalog \<Rightarrow> ExitNode \<Rightarrow> bool" where
  "chosen_by policy codes c n \<longleftrightarrow>
     (if policy = ''failover''
      then \<exists>pre code post. codes = pre @ code # post \<and> n \<in> set (NodesForCountry code c)
        \<and> (\<forall>x \<in> set (NodesForCountry code c). \<not> lessExitNode x n)
        \<and> (if N_LatencyMS n \<ge> 0 then \<forall>x \<in> in_countries c pre. N_LatencyMS x < 0
           else in_countries c pre = {} \<and> (\<forall>x \<in> in_countries c codes. N_LatencyMS x < 0))
      else n \<in> in_countries c codes \<and> (\<forall>x \<in> in_countries c codes. \<not> lessExitNode x n))"

lemma failover_best:
  assumes "two_passes codes ''failover'' c = Some n"
  shows "chosen_by ''failover'' codes c n"
proof (cases "bestCandidate codes ''failover'' True c")
  case None
  with assms have "bestCandidate codes ''failover'' False c = Some n" by (simp add: two_passes_def)
  from failover_pass(2) [OF this] obtain pre code post where s: "codes = pre @ code # post"
    "n \<in> set (NodesForCountry code c)" "\<forall>x \<in> set (NodesForCountry code c). \<not> lessExitNode x n" "in_countries c pre = {}"
    by (auto simp: eligible_def)
  moreover have u: "\<forall>x \<in> in_countries c codes. N_LatencyMS x < 0"
    using None unfolding failover_pass(1) eligible_def by auto
  moreover have "n \<in> in_countries c codes" using s(1,2) by (auto simp: in_countries_def)
  ultimately show ?thesis unfolding chosen_by_def by auto
next
  case (Some n')
  with assms have "bestCandidate codes ''failover'' True c = Some n" by (simp add: two_passes_def)
  from failover_pass(2) [OF this] obtain pre code post where s: "codes = pre @ code # post"
    "n \<in> set (NodesForCountry code c)" "N_LatencyMS n \<ge> 0" "\<forall>x \<in> in_countries c pre. N_LatencyMS x < 0"
    "\<forall>x \<in> set (NodesForCountry code c). N_LatencyMS x \<ge> 0 \<longrightarrow> \<not> lessExitNode x n"
    by (auto simp: eligible_def not_le)
  with measured_first [of n] have "\<forall>x \<in> set (NodesForCountry code c). \<not> lessExitNode x n" by blast
  with s show ?thesis unfolding chosen_by_def by auto
qed

lemma two_passes_None: "two_passes codes policy c = None \<longleftrightarrow> in_countries c codes = {}"
proof (cases "policy = ''failover''")
  case True
  then show ?thesis
    using failover_pass(1) [of codes True c] failover_pass(1) [of codes False c]
    by (auto simp: two_passes_def eligible_def split: option.splits)
next
  case False
  then show ?thesis
    using lowest_pass(1) [OF False, of codes True c] lowest_pass(1) [OF False, of codes False c]
    by (auto simp: two_passes_def eligible_def split: option.splits)
qed

lemma two_passes_chosen: "two_passes codes policy c = Some n \<Longrightarrow> chosen_by policy codes c n"
  using failover_best lowest_latency_best by (cases "policy = ''failover''") (auto simp: chosen_by_def)

text \<open>The requested codes in normal form, each once, in the order of their first occurrence.\<close>

lemma normalize_countries_codes:
  "normalize_countries countries acc = Inr codes \<Longrightarrow>
     codes = fold (\<lambda>x acc. if normalizeCode x \<in> set acc then acc else acc @ [normalizeCode x]) countries acc"
  by (induction countries arbitrary: acc) (auto simp: Let_def split: if_splits)

lemma first_occurrences:
  "fold (\<lambda>x acc. if normalizeCode x \<in> set acc then acc else acc @ [normalizeCode x]) countries []
     = rev (remdups (rev (map normalizeCode countries)))"
  by (induction countries rule: rev_induct) auto

text \<open>C6: SelectNode keeps the promise of its policy.  For a request with valid country codes, at most
  twenty different ones, and a known policy, whose context is not cancelled, it fails only when none of
  the countries has a node; otherwise lowest_latency (also the default) returns a node of the requested
  countries that no other of them precedes - measured before unmeasured before failed, then by latency,
  then by weight - and failover returns the best node of the first country with a measured node, or, if
  no country has one, of the first country with a node.\<close>

theorem select_node_policy:
  assumes "countries \<noteq> []" and "normalize_countries countries [] = Inr codes" and "length codes \<le> 20"
    and "policy \<in> {[], ''lowest_latency'', ''failover''}"
    and "SelectNode t others None countries policy c = (c', result)"
  shows "codes = rev (remdups (rev (map normalizeCode countries)))
    \<and> (case result of Inl err \<Rightarrow> in_countries c' codes = {} | Inr n \<Rightarrow> chosen_by policy codes c' n)"
proof -
  let ?policy = "if policy = [] then ''lowest_latency'' else policy"
  have f: "chosen_by ?policy codes c' n = chosen_by policy codes c' n" for n
    by (simp add: chosen_by_def)
  have r: "result = (case two_passes codes ?policy c' of Some n \<Rightarrow> Inr n
      | None \<Rightarrow> Inl ''none of the requested countries currently has a usable Tor exit node'')"
    using assms by (auto simp: SelectNode_def two_passes_def Let_def split: option.splits if_splits)
  have codes: "codes = rev (remdups (rev (map normalizeCode countries)))"
    using normalize_countries_codes [OF assms(2)] by (simp only: first_occurrences)
  show ?thesis
  proof (cases "two_passes codes ?policy c'")
    case None
    then have "in_countries c' codes = {}" by (simp only: two_passes_None)
    then show ?thesis unfolding r None using codes by simp
  next
    case (Some n)
    then have "chosen_by policy codes c' n" using two_passes_chosen f by blast
    then show ?thesis unfolding r Some using codes by simp
  qed
qed

theorem select_node_policy_witness:
  "\<exists>c' n. SelectNode 0 id None ['' US'', ''us''] ''failover'' sample_catalog = (c', Inr n) \<and> N_CountryCode n = ''us''"
proof -
  have n: "normalize_countries ['' US'', ''us''] [] = Inr [''us'']" by code_simp
  obtain c' result where s: "SelectNode 0 id None ['' US'', ''us''] ''failover'' sample_catalog = (c', result)" by fastforce
  have "C_nodes c' = C_nodes sample_catalog"
    using s n by (auto simp: SelectNode_def Let_def startLatencyChecks_def split: option.splits)
  moreover have "map (N_CountryCode \<circ> snd) (C_nodes sample_catalog) = [''us'']" by (rule sample_nodes)
  moreover have u: "normalizeCode ''us'' = ''us''" by code_simp
  ultimately have ne: "in_countries c' [''us''] \<noteq> {}"
    by (auto simp: in_countries_def NodesForCountry_set map_eq_Cons_conv)
  have "case result of Inl err \<Rightarrow> in_countries c' [''us''] = {} | Inr n \<Rightarrow> chosen_by ''failover'' [''us''] c' n"
    using select_node_policy [OF _ n _ _ s] by simp
  with ne obtain n where "result = Inr n" "chosen_by ''failover'' [''us''] c' n" by (auto split: sum.splits)
  with s show ?thesis
    by (auto simp: chosen_by_def Cons_eq_append_conv NodesForCountry_set u)
qed

end
