(* ===== verification/Health_Proofs.thy ===== *)
theory Health_Proofs
  imports Health Catalog_Select Manager_Props
begin

text \<open>
  When the monitor switches a country to another node, how often, and that it does not while every
  route fails.
\<close>

section \<open>Records\<close>

lemma record_set [simp]:
  "record_of c (W_monitor (set_record code f w)) = (if c = code then f (record_of code (W_monitor w)) else record_of c (W_monitor w))"
  by (simp add: set_record_def record_of_def)

lemma set_record_frame [simp]:
  "W_manager (set_record code f w) = W_manager w" "W_catalog (set_record code f w) = W_catalog w"
  "failures (W_monitor (set_record code f w)) = failures (W_monitor w)"
  "cooldown (W_monitor (set_record code f w)) = cooldown (W_monitor w)"
  "globalFailure (W_monitor (set_record code f w)) = globalFailure (W_monitor w)"
  by (simp_all add: set_record_def)

lemma switch_error_frame [simp]:
  "W_manager (recordSwitchError code msg w) = W_manager w"
  "failures (W_monitor (recordSwitchError code msg w)) = failures (W_monitor w)"
  "cooldown (W_monitor (recordSwitchError code msg w)) = cooldown (W_monitor w)"
  "globalFailure (W_monitor (recordSwitchError code msg w)) = globalFailure (W_monitor w)"
  "record_of c (W_monitor (recordSwitchError code msg w)) = (if c = code
     then (record_of code (W_monitor w))\<lparr>H_LastSwitchError := msg\<rparr> else record_of c (W_monitor w))"
  by (simp_all add: recordSwitchError_def)

definition code_result :: "routeProbeResult \<Rightarrow> string" where
  "code_result res = Code (ICountry (PR_instance res))"

text \<open>Whether a result makes the monitor switch: the conditions hold and there is a node to go to.\<close>

definition switches :: "time \<Rightarrow> SwitchIO \<Rightarrow> bool \<Rightarrow> routeProbeResult \<Rightarrow> Routes \<Rightarrow> bool" where
  "switches t io allow res w \<longleftrightarrow> PR_err res \<noteq> None
     \<and> shouldSwitch allow t (W_monitor w) (record_failure t [] (record_of (code_result res) (W_monitor w)))
     \<and> (case snd (switch_target io (PR_instance res) (W_catalog w)) of Inr node \<Rightarrow> True | Inl message \<Rightarrow> False)"

lemma apply_other:
  "c \<noteq> code_result res \<Longrightarrow> record_of c (W_monitor (applyProbeResult t io allow res w)) = record_of c (W_monitor w)"
  by (auto simp: applyProbeResult_def code_result_def Let_def split: option.splits prod.splits sum.splits)

lemma apply_settings:
  "failures (W_monitor (applyProbeResult t io allow res w)) = failures (W_monitor w)"
  "cooldown (W_monitor (applyProbeResult t io allow res w)) = cooldown (W_monitor w)"
  "globalFailure (W_monitor (applyProbeResult t io allow res w)) = globalFailure (W_monitor w)"
  by (auto simp: applyProbeResult_def Let_def split: option.splits prod.splits sum.splits)

lemma apply_record:
  "H_LastSwitchAt (record_of (code_result res) (W_monitor (applyProbeResult t io allow res w)))
     = (if switches t io allow res w then t else H_LastSwitchAt (record_of (code_result res) (W_monitor w)))"
  "H_ConsecutiveFailures (record_of (code_result res) (W_monitor (applyProbeResult t io allow res w))) \<in>
     (if PR_err res = None then {0} else {0, H_ConsecutiveFailures (record_of (code_result res) (W_monitor w)) + 1})"
  by (auto simp: applyProbeResult_def switches_def code_result_def Let_def record_success_def record_failure_def shouldSwitch_def
      split: option.splits prod.splits sum.splits)

lemma apply_manager:
  "W_manager (applyProbeResult t io allow res w) =
     (if switches t io allow res w
      then fst (switchNode (SW_env io) (projr (snd (switch_target io (PR_instance res) (W_catalog w)))) (PR_active res) (W_manager w))
      else W_manager w)"
  by (auto simp: applyProbeResult_def switches_def code_result_def Let_def shouldSwitch_def record_failure_def
      split: option.splits prod.splits sum.splits)

section \<open>The node of a switch\<close>

lemma find_hd_filter: "List.find P xs = (if filter P xs = [] then None else Some (hd (filter P xs)))"
  by (induction xs) auto

lemma switch_target_node:
  assumes "switch_target io i c = (c', Inr node)"
  shows "node \<in> set (NodesForCountry (Code (ICountry i)) c') \<and> alternate i node
    \<and> (\<forall>x \<in> set (NodesForCountry (Code (ICountry i)) c'). alternate i x \<longrightarrow> \<not> lessExitNode x node)"
proof -
  obtain c1 where a: "alternateNode (SW_times io 4) i c1 = (c', Some node)"
    using assms by (auto simp: switch_target_def split: prod.splits option.splits)
  let ?ns = "filter (alternate i) (NodesForCountry (Code (ICountry i)) c')"
  have n: "?ns \<noteq> []" "node = hd ?ns" using a by (auto simp: alternateNode_def Let_def find_hd_filter split: if_splits)
  have "node \<in> set ?ns" unfolding n(2) using n(1) by (rule hd_in_set)
  moreover have "\<not> lessExitNode x node" if "x \<in> set (NodesForCountry (Code (ICountry i)) c')" "alternate i x" for x
    unfolding n(2) using NodesForCountry_sorted that by (rule sorted_hd_filter)
  ultimately show ?thesis by auto
qed

text \<open>C9: The monitor changes the manager only for a good reason and in the promised way.  If applying a
  probe result changes it, then the probe failed, switching is allowed, the failures in a row - this
  one included - have reached the threshold and the cool-down since the last switch is over; and the
  change is exactly the manager's switch to a node of the same country that has another fingerprint
  and another address than the current one and that no other such node precedes, activating it if and
  only if the country was the active one.\<close>

theorem automatic_switch_justified:
  assumes "W_manager (applyProbeResult t io allow res w) \<noteq> W_manager w"
  shows "PR_err res \<noteq> None \<and> allow
    \<and> H_ConsecutiveFailures (record_of (code_result res) (W_monitor w)) + 1 \<ge> failures (W_monitor w)
    \<and> (H_LastSwitchAt (record_of (code_result res) (W_monitor w)) = 0
       \<or> t - H_LastSwitchAt (record_of (code_result res) (W_monitor w)) \<ge> cooldown (W_monitor w))
    \<and> (\<exists>c node. switch_target io (PR_instance res) (W_catalog w) = (c, Inr node)
         \<and> node \<in> set (NodesForCountry (code_result res) c) \<and> alternate (PR_instance res) node
         \<and> (\<forall>x \<in> set (NodesForCountry (code_result res) c). alternate (PR_instance res) x \<longrightarrow> \<not> lessExitNode x node)
         \<and> W_manager (applyProbeResult t io allow res w) = fst (switchNode (SW_env io) node (PR_active res) (W_manager w)))"
proof -
  have s: "switches t io allow res w" using assms apply_manager [of t io allow res w] by presburger
  then obtain c node where t: "switch_target io (PR_instance res) (W_catalog w) = (c, Inr node)"
    by (cases "switch_target io (PR_instance res) (W_catalog w)") (auto simp: switches_def split: sum.splits)
  from s have 1: "PR_err res \<noteq> None" "allow"
    "H_ConsecutiveFailures (record_of (code_result res) (W_monitor w)) + 1 \<ge> failures (W_monitor w)"
    "H_LastSwitchAt (record_of (code_result res) (W_monitor w)) = 0
       \<or> t - H_LastSwitchAt (record_of (code_result res) (W_monitor w)) \<ge> cooldown (W_monitor w)"
    by (auto simp: switches_def shouldSwitch_def record_failure_def)
  have 2: "W_manager (applyProbeResult t io allow res w) = fst (switchNode (SW_env io) node (PR_active res) (W_manager w))"
    using apply_manager [of t io allow res w] s t by simp
  from switch_target_node [OF t] have 3: "node \<in> set (NodesForCountry (code_result res) c)" "alternate (PR_instance res) node"
    "\<forall>x \<in> set (NodesForCountry (code_result res) c). alternate (PR_instance res) x \<longrightarrow> \<not> lessExitNode x node"
    by (simp_all add: code_result_def)
  show ?thesis using 1 2 3 t by blast
qed

definition failing_env :: Env where
  "failing_env = calm_env\<lparr>mkData := Some ''disk full''\<rparr>"

definition sample_io :: SwitchIO where
  "sample_io = \<lparr>SW_times = (\<lambda>k. 20 * hour), SW_queued = id, SW_meanwhile = id, SW_fetch = (\<lambda>_. Fetch_failed ''timeout''),
     SW_env = (\<lambda>k. failing_env)\<rparr>"

definition sample_failure :: routeProbeResult where
  "sample_failure = \<lparr>PR_instance = heap sample_start 0, PR_active = False, PR_exitIP = [], PR_latency = 0,
     PR_err = Some ''unreachable''\<rparr>"

definition sample_node :: ExitNode where
  "sample_node = \<lparr>N_Fingerprint = replicate 40 (CHR ''A''), N_Nickname = ''relay'', N_IP = ''1.2.3.4'', N_ORAddress = [],
     N_CountryCode = ''us'', N_CountryName = ''US'', N_Continent = [], N_ASN = [], N_ISP = [],
     N_ConsensusWeight = 7, N_LatencyMS = 25, N_LatencyChecked = 20 * hour\<rparr>"

definition sample_routes :: "int \<Rightarrow> Routes" where
  "sample_routes n = \<lparr>W_monitor = NewRouteHealthMonitor\<lparr>records := (if n = 0 then []
       else [(''us'', zero_record\<lparr>H_ConsecutiveFailures := n\<rparr>)])\<rparr>, W_manager = sample_start,
     W_catalog = (NewExitCatalog (defaultConfig False))\<lparr>C_nodes := [(N_Fingerprint sample_node, sample_node)], C_fetchedAt := 20 * hour\<rparr>\<rparr>"

theorem automatic_switch_justified_witness:
  "code_result sample_failure = ''us'' \<and> H_ConsecutiveFailures (record_of ''us'' (W_monitor (sample_routes 2))) = 2
     \<and> (\<exists>node. alternate (PR_instance sample_failure) node
          \<and> W_manager (applyProbeResult (20 * hour) sample_io True sample_failure (sample_routes 2))
              = fst (switchNode (SW_env sample_io) node False sample_start))"
proof -
  let ?w = "applyProbeResult (20 * hour) sample_io True sample_failure (sample_routes 2)"
  have "ExitFingerprint (heap (W_manager ?w) 0) \<noteq> ExitFingerprint (heap (W_manager (sample_routes 2)) 0)" by code_simp
  then have "W_manager ?w \<noteq> W_manager (sample_routes 2)" by metis
  note j = automatic_switch_justified [OF this]
  have "code_result sample_failure = ''us''" "H_ConsecutiveFailures (record_of ''us'' (W_monitor (sample_routes 2))) = 2"
    "PR_active sample_failure = False" "W_manager (sample_routes 2) = sample_start"
    by (code_simp, code_simp, simp add: sample_failure_def, simp add: sample_routes_def)
  with j show ?thesis by metis
qed

section \<open>Sequences of results\<close>

type_synonym probe_event = "time \<times> SwitchIO \<times> bool \<times> routeProbeResult"

definition apply_event :: "probe_event \<Rightarrow> Routes \<Rightarrow> Routes" where
  "apply_event ev w = (case ev of (t, io, allow, res) \<Rightarrow> applyProbeResult t io allow res w)"

lemma apply_event_eq [simp]: "apply_event (t, io, allow, res) w = applyProbeResult t io allow res w"
  by (simp add: apply_event_def)

definition event_time :: "probe_event \<Rightarrow> time" where "event_time ev = fst ev"

definition event_result :: "probe_event \<Rightarrow> routeProbeResult" where "event_result ev = snd (snd (snd ev))"

definition switch_event :: "probe_event \<Rightarrow> Routes \<Rightarrow> bool" where
  "switch_event ev w = (case ev of (t, io, allow, res) \<Rightarrow> switches t io allow res w)"

text \<open>The times of the switches of a country in a sequence of results.\<close>

fun switch_times :: "string \<Rightarrow> probe_event list \<Rightarrow> Routes \<Rightarrow> time list" where
  "switch_times code [] w = []"
| "switch_times code (ev # evs) w =
     (if code_result (event_result ev) = code \<and> switch_event ev w then [event_time ev] else [])
     @ switch_times code evs (apply_event ev w)"

lemma switch_times_spaced:
  assumes "sorted_wrt (\<le>) (map event_time evs)" "\<forall>ev \<in> set evs. event_time ev > 0" "cooldown (W_monitor w) \<ge> 0"
  shows "sorted_wrt (\<lambda>a b. b - a \<ge> cooldown (W_monitor w)) (switch_times code evs w)
    \<and> (\<forall>a \<in> set (switch_times code evs w). H_LastSwitchAt (record_of code (W_monitor w)) = 0
         \<or> a - H_LastSwitchAt (record_of code (W_monitor w)) \<ge> cooldown (W_monitor w))
    \<and> set (switch_times code evs w) \<subseteq> event_time ` set evs"
  using assms
proof (induction evs arbitrary: w)
  case (Cons ev evs)
  obtain t io allow res where ev: "ev = (t, io, allow, res)" by (cases ev)
  define w' where "w' = apply_event ev w"
  have s: "cooldown (W_monitor w') = cooldown (W_monitor w)" by (simp add: w'_def ev apply_settings)
  have IH: "sorted_wrt (\<lambda>a b. b - a \<ge> cooldown (W_monitor w)) (switch_times code evs w')"
    "\<forall>a \<in> set (switch_times code evs w'). H_LastSwitchAt (record_of code (W_monitor w')) = 0
         \<or> a - H_LastSwitchAt (record_of code (W_monitor w')) \<ge> cooldown (W_monitor w)"
    "set (switch_times code evs w') \<subseteq> event_time ` set evs"
    using Cons.IH [of w'] Cons.prems s by auto
  show ?case
  proof (cases "code_result res = code \<and> switches t io allow res w")
    case True
    then have l: "H_LastSwitchAt (record_of code (W_monitor w')) = t"
      using apply_record(1) [of res t io allow w]
      by (simp add: w'_def ev)
    have t0: "t > 0" using Cons.prems(2) by (simp add: ev event_time_def)
    have d: "H_LastSwitchAt (record_of code (W_monitor w)) = 0 \<or> t - H_LastSwitchAt (record_of code (W_monitor w)) \<ge> cooldown (W_monitor w)"
      using True by (auto simp: switches_def shouldSwitch_def record_failure_def)
    have later: "\<forall>a \<in> set (switch_times code evs w'). a - t \<ge> cooldown (W_monitor w)" using IH(2) l t0 by auto
    have "switch_times code (ev # evs) w = t # switch_times code evs w'"
      using True by (simp add: ev w'_def event_result_def event_time_def switch_event_def)
    moreover have "\<forall>a \<in> set (switch_times code evs w'). H_LastSwitchAt (record_of code (W_monitor w)) = 0
        \<or> a - H_LastSwitchAt (record_of code (W_monitor w)) \<ge> cooldown (W_monitor w)"
      using d later Cons.prems(3) by fastforce
    ultimately show ?thesis using IH d later by (auto simp: ev event_time_def)
  next
    case False
    then have l: "H_LastSwitchAt (record_of code (W_monitor w')) = H_LastSwitchAt (record_of code (W_monitor w))"
      using apply_record(1) [of res t io allow w] apply_other [of code res t io allow w]
      by (cases "code_result res = code") (auto simp: w'_def ev)
    have "switch_times code (ev # evs) w = switch_times code evs w'"
      using False by (auto simp: ev w'_def event_result_def switch_event_def)
    then show ?thesis using IH unfolding l by auto
  qed
qed simp

text \<open>The failures a record counts are at most the last results of the country in a row that failed.\<close>

definition results_of :: "string \<Rightarrow> probe_event list \<Rightarrow> routeProbeResult list" where
  "results_of code evs = filter (\<lambda>res. code_result res = code) (map event_result evs)"

definition streak :: "routeProbeResult list \<Rightarrow> nat" where
  "streak rs = length (takeWhile (\<lambda>res. PR_err res \<noteq> None) (rev rs))"

lemma failures_in_a_row:
  assumes "records (W_monitor w) = []"
  shows "H_ConsecutiveFailures (record_of code (W_monitor (fold apply_event evs w))) \<le> int (streak (results_of code evs))"
proof (induction evs rule: rev_induct)
  case Nil
  then show ?case using assms by (simp add: record_of_def zero_record_def)
next
  case (snoc ev evs)
  obtain t io allow res where ev: "ev = (t, io, allow, res)" by (cases ev)
  let ?w = "fold apply_event evs w"
  show ?case
  proof (cases "code_result res = code")
    case True
    have "H_ConsecutiveFailures (record_of code (W_monitor (applyProbeResult t io allow res ?w)))
        \<in> (if PR_err res = None then {0} else {0, H_ConsecutiveFailures (record_of code (W_monitor ?w)) + 1})"
      using apply_record(2) [of res t io allow ?w] unfolding True .
    with snoc True show ?thesis
      by (auto simp: ev results_of_def streak_def event_result_def split: if_splits)
  next
    case False
    with snoc apply_other [of code res t io allow ?w] show ?thesis
      by (simp add: ev results_of_def event_result_def)
  qed
qed

lemma streak_take: "n \<le> streak rs \<Longrightarrow> n \<le> length rs \<and> (\<forall>res \<in> set (take n (rev rs)). PR_err res \<noteq> None)"
proof -
  assume n: "n \<le> streak rs"
  let ?P = "\<lambda>res. PR_err res \<noteq> None"
  have "take n (rev rs) = take n (takeWhile ?P (rev rs))"
    using n takeWhile_dropWhile_id [of ?P "rev rs"] unfolding streak_def
    by (metis append_Nil2 diff_is_0_eq' take_append take_eq_Nil2 take0)
  then have "set (take n (rev rs)) \<subseteq> set (takeWhile ?P (rev rs))" by (metis set_take_subset)
  moreover have "n \<le> length rs"
    using n length_takeWhile_le [of ?P "rev rs"] by (simp add: streak_def)
  ultimately show ?thesis using set_takeWhileD [of _ ?P "rev rs"] by blast
qed

lemma fold_settings:
  "failures (W_monitor (fold apply_event evs w)) = failures (W_monitor w)"
  "cooldown (W_monitor (fold apply_event evs w)) = cooldown (W_monitor w)"
  by (induction evs arbitrary: w) (simp_all add: apply_event_def apply_settings split: prod.splits)

text \<open>C22: Automatic switching is rare and deserved.  Over any sequence of probe results, applied at times
  that do not decrease, two switches of the same country are at least ten minutes apart; and a switch
  happens only when the last three results of that country - the current one included - all failed,
  whatever the results of other countries were.\<close>

theorem automatic_switch_rate:
  assumes "W_monitor w = NewRouteHealthMonitor" and "sorted_wrt (\<le>) (map event_time (evs @ [ev]))"
    and "\<And>x. x \<in> set (evs @ [ev]) \<Longrightarrow> event_time x > 0" and "switch_event ev (fold apply_event evs w)"
    and "code = code_result (event_result ev)"
  shows "sorted_wrt (\<lambda>a b. b - a \<ge> 10 * minute) (switch_times code (evs @ [ev]) w)
    \<and> 3 \<le> length (results_of code (evs @ [ev]))
    \<and> (\<forall>res \<in> set (take 3 (rev (results_of code (evs @ [ev])))). PR_err res \<noteq> None)"
proof -
  have n: "cooldown (W_monitor w) = 10 * minute" "failures (W_monitor w) = 3" "records (W_monitor w) = []"
    using assms(1) by (simp_all add: NewRouteHealthMonitor_def routeHealthSwitchDelay_def routeHealthFailures_def)
  then have 1: "sorted_wrt (\<lambda>a b. b - a \<ge> 10 * minute) (switch_times code (evs @ [ev]) w)"
    using switch_times_spaced [OF assms(2), of w code] assms(3) by (auto simp: duration_defs)
  obtain t io allow res where ev: "ev = (t, io, allow, res)" by (cases ev)
  let ?w = "fold apply_event evs w"
  have s: "PR_err res \<noteq> None" "H_ConsecutiveFailures (record_of code (W_monitor ?w)) + 1 \<ge> 3"
    using assms(4,5) n(2) fold_settings [of evs w]
    by (auto simp: ev switch_event_def switches_def shouldSwitch_def record_failure_def event_result_def)
  then have "streak (results_of code (evs @ [ev])) = Suc (streak (results_of code evs))"
    using assms(5) by (simp add: results_of_def streak_def ev event_result_def)
  with s(2) failures_in_a_row [OF n(3), of code evs] have "3 \<le> streak (results_of code (evs @ [ev]))" by linarith
  with 1 streak_take show ?thesis by blast
qed

theorem automatic_switch_rate_witness:
  "3 \<le> length (results_of ''us'' (replicate 3 (20 * hour, sample_io, True, sample_failure)))
     \<and> length (switch_times ''us'' (replicate 3 (20 * hour, sample_io, True, sample_failure)) (sample_routes 0)) = 1"
proof -
  let ?ev = "(20 * hour, sample_io, True, sample_failure)"
  have r: "replicate 3 ?ev = replicate 2 ?ev @ [?ev]" by (simp add: numeral_eq_Suc)
  have 1: "W_monitor (sample_routes 0) = NewRouteHealthMonitor" by (simp add: sample_routes_def NewRouteHealthMonitor_def)
  have 2: "sorted_wrt (\<le>) (map event_time (replicate 2 ?ev @ [?ev]))"
    by (simp add: event_time_def numeral_eq_Suc)
  have 3: "event_time x > 0" if "x \<in> set (replicate 2 ?ev @ [?ev])" for x
    using that by (auto simp: event_time_def duration_defs)
  have 4: "switch_event ?ev (fold apply_event (replicate 2 ?ev) (sample_routes 0))"
    and 5: "''us'' = code_result (event_result ?ev)"
    and 6: "length (switch_times ''us'' (replicate 3 ?ev) (sample_routes 0)) = 1"
    by code_simp+
  from automatic_switch_rate [OF 1 2 3 4 5] 6 show ?thesis unfolding r by blast
qed

section \<open>A failure of all routes\<close>

lemma apply_results_paused: "W_manager (apply_results t io False results w) = W_manager w"
  by (induction results arbitrary: t io w) (simp_all add: apply_manager switches_def shouldSwitch_def)

lemma apply_results_global: "globalFailure (W_monitor (apply_results t io allow results w)) = globalFailure (W_monitor w)"
  by (induction results arbitrary: t io w) (simp_all add: apply_settings)

text \<open>C23: When every one of several checked routes fails, the fault is not with the nodes: the round marks
  the failure as global and switches no country - the manager is left as its other users left it
  while the routes were probed.\<close>

theorem global_failure_pauses_switching:
  assumes "State (W_manager w) = Some state" and "mset (arrive (collect probe state (meanwhile (W_manager w)))) = mset (collect probe state (meanwhile (W_manager w)))"
    and "1 < length (collect probe state (meanwhile (W_manager w)))"
    and "\<And>res. res \<in> set (collect probe state (meanwhile (W_manager w))) \<Longrightarrow> PR_err res \<noteq> None"
  shows "\<exists>w'. runOnce probe meanwhile arrive t io w = Some w' \<and> globalFailure (W_monitor w')
    \<and> W_manager w' = meanwhile (W_manager w)"
proof -
  let ?c = "collect probe state (meanwhile (W_manager w))"
  have "set (arrive ?c) = set ?c" "length (arrive ?c) = length ?c"
    using assms(2) mset_eq_setD mset_eq_length by blast+
  then have "filter (\<lambda>res. PR_err res = None) (arrive ?c) = []" "1 < length (arrive ?c)"
    using assms(3,4) by (auto simp: filter_empty_conv)
  then show ?thesis
    using assms(1) by (simp add: runOnce_def Let_def apply_results_paused apply_results_global)
qed

definition two_running :: Manager where
  "two_running = modify 1 (\<lambda>i. i\<lparr>Status := Running\<rparr>) (modify 0 (\<lambda>i. i\<lparr>Status := Running\<rparr>) sample_start)"

theorem global_failure_pauses_switching_witness:
  "\<exists>w'. runOnce (\<lambda>i. ([], 0, Some ''timeout'')) id rev (\<lambda>k. 20 * hour) (\<lambda>k. sample_io) ((sample_routes 2)\<lparr>W_manager := two_running\<rparr>) = Some w'
     \<and> W_manager w' = two_running"
proof -
  let ?w = "(sample_routes 2)\<lparr>W_manager := two_running\<rparr>"
  have "State two_running \<noteq> None" by code_simp
  then obtain state where s: "State (W_manager ?w) = Some state" by auto
  have "length (collect (\<lambda>i. ([], 0, Some ''timeout'')) (the (State two_running)) two_running) = 2" by code_simp
  then have n: "length (collect (\<lambda>i. ([], 0, Some ''timeout'')) state two_running) = 2" using s by simp
  have e: "PR_err res = Some ''timeout''" if "res \<in> set (collect (\<lambda>i. ([], 0, Some ''timeout'')) state two_running)" for res
    using that by (auto simp: collect_def map_filter_def probeInstance_def split: option.splits if_splits)
  from global_failure_pauses_switching [OF s, of rev "\<lambda>i. ([], 0, Some ''timeout'')" id "\<lambda>k. 20 * hour" "\<lambda>k. sample_io"] n e
  show ?thesis by auto
qed

end
