(* ===== verification/Http_Proofs.thy ===== *)
theory Http_Proofs
  imports Http_Api Health_Proofs
begin

text \<open>
  Which requests may change what: the authorisation in front of the routes, together with the table of
  routes behind it.
\<close>

section \<open>Paths\<close>

lemma split_on_Cons: "\<exists>p ps. split_on d s = p # ps"
  by (induction s) (auto split: list.splits)

lemma join_split: "join_with [d] (split_on d s) = s"
proof (induction s)
  case (Cons c s)
  obtain p ps where "split_on d s = p # ps" using split_on_Cons by blast
  with Cons show ?case by (cases ps) auto
qed simp

lemma api_segments:
  assumes "take 2 (split_on CHR ''/'' p) = [[], ''api'']"
  shows "drop 2 (split_on CHR ''/'' p) = [] \<or> has_prefix p ''/api/''"
proof (cases "drop 2 (split_on CHR ''/'' p)")
  case (Cons s ss)
  have "split_on CHR ''/'' p = [[], ''api''] @ s # ss"
    using assms Cons append_take_drop_id [of 2 "split_on CHR ''/'' p"] by simp
  then have "p = join_with [CHR ''/''] ([[], ''api''] @ s # ss)" using join_split [of "CHR ''/''" p] by simp
  then show ?thesis by (cases ss) (auto simp: has_prefix_def)
qed simp

lemma prefixed: "has_prefix p q \<Longrightarrow> \<exists>rest. p = q @ rest"
  unfolding has_prefix_def by (metis append_take_drop_id)

lemma v1_segments:
  assumes "has_prefix p ''/api/v1/''"
  shows "\<exists>rest. split_on CHR ''/'' p = [] # ''api'' # ''v1'' # rest"
proof -
  obtain rest where "p = ''/api/v1/'' @ rest" using prefixed [OF assms] by blast
  then have "p = [] @ CHR ''/'' # (''api'' @ CHR ''/'' # (''v1'' @ CHR ''/'' # rest))" by simp
  moreover have "CHR ''/'' \<notin> set ''api''" "CHR ''/'' \<notin> set ''v1''" by simp_all
  ultimately show ?thesis using split_on_append [of "CHR ''/''" "[]"] split_on_append [of "CHR ''/''" "''api''"]
      split_on_append [of "CHR ''/''" "''v1''"] by auto
qed

section \<open>What the handlers leave alone\<close>

lemma set_frame [simp]:
  "A_store (set_manager m app) = A_store app" "A_auth (set_manager m app) = A_auth app" "A_cfg (set_manager m app) = A_cfg app"
  "A_store (set_catalog c app) = A_store app" "A_auth (set_catalog c app) = A_auth app" "A_cfg (set_catalog c app) = A_cfg app"
  by (simp_all add: set_manager_def set_catalog_def)

lemma country_action_frame [simp]:
  "A_store (fst (country_action outcome b app)) = A_store app" "A_auth (fst (country_action outcome b app)) = A_auth app"
  by (simp_all add: country_action_def split: prod.splits option.splits)

lemma ensure_fresh_frame: "ensure_fresh io app = (app1, err) \<Longrightarrow> A_store app1 = A_store app \<and> A_auth app1 = A_auth app"
  by (auto simp: ensure_fresh_def split: prod.splits)

lemma client_frame_api:
  "A_store (fst (client_handler io r segments app)) = A_store app \<and> A_auth (fst (client_handler io r segments app)) = A_auth app"
proof -
  have "A_store (fst (get_public_countries io app)) = A_store app \<and> A_auth (fst (get_public_countries io app)) = A_auth app"
    by (auto simp: get_public_countries_def dest!: ensure_fresh_frame split: prod.splits option.splits)
  moreover have "A_store (fst (post_route io r app)) = A_store app \<and> A_auth (fst (post_route io r app)) = A_auth app"
  proof (cases "decodeJSON asRoute (IO_body io)")
    case (Inr input)
    obtain app1 err where e: "ensure_fresh io app = (app1, err)" by fastforce
    note f = ensure_fresh_frame [OF e]
    let ?candidates = "if RR_Country input \<noteq> [] then RR_Country input # RR_Countries input else RR_Countries input"
    obtain c sel where s: "SelectNode (IO_now io 4) (IO_others io) (IO_ctxErr io) ?candidates (RR_Policy input) (app_catalog app1) = (c, sel)"
      by fastforce
    show ?thesis
    proof (cases err)
      case None
      show ?thesis
      proof (cases sel)
        case (Inr node)
        obtain m merr where m: "StartNode (IO_env io) node (app_manager (set_catalog c app1)) = (m, merr)" by fastforce
        obtain m1 port where p: "EnsureCountryProxy (IO_listen io) (N_CountryCode node) m = (m1, port)" by fastforce
        obtain m2 route where q: "clientRouteForRequest (IO_listen io) (A_cfg app) r (N_CountryCode node) m1 = (m2, route)" by fastforce
        show ?thesis
          by (cases merr; cases port)
            (simp_all add: post_route_def \<open>decodeJSON asRoute (IO_body io) = Inr input\<close> Let_def e None s Inr m p q f)
      qed (simp add: post_route_def Inr Let_def e None s f)
    qed (simp add: post_route_def Inr Let_def e f)
  qed (simp add: post_route_def)
  moreover have "A_store (fst (get_route io r code app)) = A_store app \<and> A_auth (fst (get_route io r code app)) = A_auth app" for code
    by (auto simp: get_route_def split: prod.splits sum.splits)
  ultimately show ?thesis by (simp add: client_handler_def)
qed

lemma open_session_frame:
  "A_routes (fst (open_session io r st b app)) = A_routes app" "A_store (fst (open_session io r st b app)) = A_store app"
  "hash (A_auth (fst (open_session io r st b app))) = hash (A_auth app)"
  by (auto simp: open_session_def CreateSession_def Let_def split: prod.splits sum.splits)

lemma authenticate_hash: "authenticateAt client password t a = (a', ok, d) \<Longrightarrow> hash a' = hash a"
  by (auto simp: authenticateAt_def Let_def split: if_splits)

lemma public_frame:
  "A_routes (fst (post_login io r app)) = A_routes app" "A_store (fst (post_login io r app)) = A_store app"
  "hash (A_auth (fst (post_login io r app))) = hash (A_auth app)"
  "A_routes (fst (post_setup_password io r app)) = A_routes app" "A_store (fst (post_setup_password io r app)) = A_store app"
  "Configured (A_auth app) \<Longrightarrow> hash (A_auth (fst (post_setup_password io r app))) = hash (A_auth app)"
  by (auto simp: post_login_def post_setup_password_def open_session_frame Let_def Setup_def Configured_def
      dest: authenticate_hash split: prod.splits sum.splits option.splits if_splits)

text \<open>The routes outside the protected paths.\<close>

lemma public_routes:
  assumes "Path r \<in> {''/api/session'', ''/api/login'', ''/api/setup-password''} \<or> \<not> has_prefix (Path r) ''/api/''"
  shows "A_routes (fst (serve io r app)) = A_routes app \<and> A_store (fst (serve io r app)) = A_store app
    \<and> (Path r \<noteq> ''/api/setup-password'' \<or> Configured (A_auth app) \<longrightarrow> hash (A_auth (fst (serve io r app))) = hash (A_auth app))"
proof (cases "has_prefix (Path r) ''/api/''")
  case False
  then have "api_handler io r (drop 2 (split_on CHR ''/'' (Path r))) app = (app, IO_files io r)"
    if "take 2 (split_on CHR ''/'' (Path r)) = [[], ''api'']"
    using api_segments [OF that] by (auto simp: api_handler_def)
  then show ?thesis by (simp add: serve_def Let_def)
next
  case True
  have seg: "split_on CHR ''/'' ''/api/session'' = [[], ''api'', ''session'']" "split_on CHR ''/'' ''/api/login'' = [[], ''api'', ''login'']"
    "split_on CHR ''/'' ''/api/setup-password'' = [[], ''api'', ''setup-password'']" by code_simp+
  from True assms consider "Path r = ''/api/session''" | "Path r = ''/api/login''" | "Path r = ''/api/setup-password''" by blast
  then show ?thesis
    by cases (simp_all add: serve_def seg api_handler_def get_session_def public_frame Let_def client_handler_def)
qed

lemma v1_routes:
  assumes "has_prefix (Path r) ''/api/v1/''"
  shows "A_store (fst (serve io r app)) = A_store app \<and> A_auth (fst (serve io r app)) = A_auth app"
proof -
  obtain rest where "split_on CHR ''/'' (Path r) = [] # ''api'' # ''v1'' # rest" using v1_segments [OF assms] by blast
  moreover have "is_get r \<and> Path r = ''/healthz'' \<Longrightarrow> False" using assms by (simp add: has_prefix_def)
  ultimately show ?thesis using client_frame_api by (auto simp: serve_def Let_def api_handler_def)
qed

section \<open>The property\<close>

definition administrator :: "ApiIO \<Rightarrow> Request \<Rightarrow> App \<Rightarrow> bool" where
  "administrator io r app \<longleftrightarrow> Configured (A_auth app) \<and> ValidSession (IO_now io 0) r (A_auth app)
     \<and> (Method r = ''GET'' \<or> sameOriginRequest (IO_parseURL io) r)"

text \<open>C2: Only authorised requests act.  A request can change the manager, the catalogue, the monitor or
  the stored settings only if it is for the client API and carries the client API key, or if it comes
  with a valid administrator session and, unless it is a GET, not from another origin.  The client API
  cannot change settings, passwords or sessions at all.  The administrator password changes only in
  such a session, or by the setup request while no password is configured.\<close>

theorem only_authorised_requests_act:
  assumes "web_routes io r app = (app', resp)"
  shows "(A_routes app' \<noteq> A_routes app \<or> A_store app' \<noteq> A_store app \<longrightarrow>
       (if has_prefix (Path r) ''/api/v1/'' then validBearerToken r (Some (clientAuth (app_manager app)))
        else administrator io r app))
    \<and> (has_prefix (Path r) ''/api/v1/'' \<longrightarrow> A_store app' = A_store app \<and> A_auth app' = A_auth app)
    \<and> (hash (A_auth app') \<noteq> hash (A_auth app) \<longrightarrow>
         administrator io r app \<or> Path r = ''/api/setup-password'' \<and> \<not> Configured (A_auth app))"
proof -
  have app': "app' = fst (authAPI serve io r app)"
    using assms by (auto simp: web_routes_def securityHeaders_def split: prod.splits)
  show ?thesis
  proof (cases "has_prefix (Path r) ''/api/v1/''")
    case True
    then show ?thesis using v1_routes [OF True, of io app] unfolding app' authAPI_def by simp
  next
    case v1: False
    show ?thesis
    proof (cases "has_prefix (Path r) ''/api/'' \<and> \<not> publicAPIPath (Path r)")
      case True
      then show ?thesis using v1 unfolding app' authAPI_def administrator_def by simp
    next
      case False
      then have "app' = fst (serve io r app)" unfolding app' authAPI_def by (simp only: v1 False if_False)
      moreover have "Path r \<in> {''/api/session'', ''/api/login'', ''/api/setup-password''} \<or> \<not> has_prefix (Path r) ''/api/''"
        using False by (auto simp: publicAPIPath_def)
      ultimately show ?thesis using public_routes [of r io app] v1 by auto
    qed
  qed
qed

definition sample_app :: App where
  "sample_app = \<lparr>A_routes = sample_routes 0, A_store = sample_store,
     A_auth = \<lparr>hashPath = [], legacy = ''legacy-token'', hash = [], sessions = [], loginAttempts = [], hashFile = None\<rparr>,
     A_cfg = defaultConfig False\<rparr>"

definition sample_request :: Request where
  "sample_request = \<lparr>Method = ''DELETE'', Path = ''/api/v1/routes/us'', Host = ''localhost:8080'', RemoteAddr = ''127.0.0.1:5000'',
     Header = (\<lambda>name. if name = ''Authorization'' then ''Bearer guess'' else []), Cookies = [], TLS = False\<rparr>"

theorem only_authorised_requests_act_witness:
  "\<forall>io. A_routes (fst (web_routes io sample_request sample_app)) = A_routes sample_app
     \<and> A_store (fst (web_routes io sample_request sample_app)) = A_store sample_app"
proof
  fix io
  obtain app' resp where w: "web_routes io sample_request sample_app = (app', resp)" by fastforce
  have "\<not> validBearerToken sample_request (Some (clientAuth (app_manager sample_app)))"
    "has_prefix (Path sample_request) ''/api/v1/''" by code_simp+
  with only_authorised_requests_act [OF w] w
  show "A_routes (fst (web_routes io sample_request sample_app)) = A_routes sample_app
     \<and> A_store (fst (web_routes io sample_request sample_app)) = A_store sample_app" by auto
qed

end
