(* ===== verification/Auth_Proofs.thy ===== *)
theory Auth_Proofs
  imports Auth
begin

text \<open>
  Correctness of the administrator authentication: password hashes verify, the password file and the
  store agree as long as no write of the file breaks off (and what follows when one does), sessions live as long as they should, and the rate limit
  bounds the number of passwords a client can try.
\<close>

section \<open>Password hashes\<close>

lemma length_pbkdf2_loop: "length u = 32 \<Longrightarrow> length r = 32 \<Longrightarrow> length (pbkdf2_loop p n u r) = 32"
  by (induction n arbitrary: u r) (simp_all add: Let_def)

lemma length_pbkdf2 [simp]: "length (pbkdf2SHA256 p s n) = 32"
  by (simp add: pbkdf2SHA256_def Let_def length_pbkdf2_loop)

lemma itoa_iterations: "itoa passwordIterations = ''210000''"
  by (simp add: itoa_def passwordIterations_def nat_dec.simps digit_char_def) code_simp

lemma iterations_range: "in_int64 passwordIterations \<and> \<not> passwordIterations < 100000 \<and> \<not> passwordIterations > 1000000"
  by (simp add: in_int64_def passwordIterations_def)

lemma atoi_iterations: "atoi ''210000'' = Some passwordIterations"
  by (metis atoi_itoa itoa_iterations iterations_range)

text \<open>The part of the hash before the derived key, which ends with the third separator.\<close>

definition hash_head :: "string \<Rightarrow> string" where
  "hash_head salt = ''pbkdf2-sha256'' @ [dollar] @ ''210000'' @ [dollar] @ b64_encode std_alphabet salt"

definition hash_key :: "string \<Rightarrow> string \<Rightarrow> string" where
  "hash_key salt p = b64_encode std_alphabet (pbkdf2SHA256 p salt passwordIterations)"

lemma hashPassword_parts: "hashPassword salt p = hash_head salt @ dollar # hash_key salt p"
  by (simp add: hashPassword_def hash_head_def hash_key_def itoa_iterations)

lemma length_hash_key [simp]: "length (hash_key salt p) = 43"
  unfolding hash_key_def by (rule b64_encode_length32) simp

lemma no_dollar [simp]: "dollar \<notin> set (b64_encode std_alphabet x)" "dollar \<notin> set (hash_key salt p)"
  unfolding dollar_def hash_key_def by (rule b64_no_dollar, simp)+

lemma split_hash:
  assumes "dollar \<notin> set k"
  shows "split_on dollar (hash_head salt @ dollar # k) = [''pbkdf2-sha256'', ''210000'', b64_encode std_alphabet salt, k]"
proof -
  have "split_on dollar (''pbkdf2-sha256'' @ dollar # (''210000'' @ dollar # (b64_encode std_alphabet salt @ dollar # k)))
      = [''pbkdf2-sha256'', ''210000'', b64_encode std_alphabet salt, k]"
    using assms no_dollar(1) [of salt]
    by (subst split_on_append, simp add: dollar_def)+ (simp add: split_on_append split_on_single)
  then show ?thesis by (simp add: hash_head_def)
qed

lemma split_hashPassword:
  "split_on dollar (hashPassword salt p) = [''pbkdf2-sha256'', ''210000'', b64_encode std_alphabet salt,
     b64_encode std_alphabet (pbkdf2SHA256 p salt passwordIterations)]"
  using split_hash [of "hash_key salt p" salt] by (simp add: hashPassword_parts hash_key_def)

lemma verify_hashPassword_iff:
  assumes "16 \<le> length salt"
  shows "verifyPassword (hashPassword salt p) q \<longleftrightarrow>
    pbkdf2SHA256 q salt passwordIterations = pbkdf2SHA256 p salt passwordIterations"
  using assms iterations_range unfolding verifyPassword_def split_hashPassword Let_def
  by (simp add: b64_roundtrip atoi_iterations del: atoi.simps)

section \<open>Storing a password\<close>

definition salt_ok :: "PasswordIO \<Rightarrow> bool" where
  "salt_ok io \<longleftrightarrow> (\<forall>salt. saltBytes io = Inr salt \<longrightarrow> length salt = 16)"

lemma setPasswordLocked_error:
  assumes "setPasswordLocked io p a = (a', Some e)"
  shows "a' = a\<lparr>hashFile := hashFile a'\<rparr>" "writeResult io = None \<Longrightarrow> a' = a"
  using assms by (auto simp: setPasswordLocked_def Let_def split: if_splits sum.splits option.splits)

lemma setPasswordLocked_ok:
  assumes "setPasswordLocked io p a = (a', None)"
  obtains salt where "saltBytes io = Inr salt" "8 \<le> length p" "length p \<le> 256"
    "a' = a\<lparr>hashFile := Some (hashPassword salt p @ [CHR 0x0A]), hash := hashPassword salt p\<rparr>"
  using assms by (auto simp: setPasswordLocked_def Let_def split: if_splits sum.splits option.splits)

lemma hashPassword_nonempty [simp]: "hashPassword salt p \<noteq> []"
  by (simp add: hashPassword_def)

lemma alphabet_plain: "c \<in> set std_alphabet \<Longrightarrow> plain_byte c"
proof -
  have "list_all plain_byte std_alphabet" by code_simp
  then show "c \<in> set std_alphabet \<Longrightarrow> plain_byte c" by (simp add: list_all_iff)
qed

lemma trim_hash_line [simp]: "trim_space (hashPassword salt p @ [CHR 0x0A]) = hashPassword salt p"
proof (rule trim_space_line)
  let ?k = "b64_encode std_alphabet (pbkdf2SHA256 p salt passwordIterations)"
  have "length ?k = 43" by (rule b64_encode_length32) simp
  then have k: "?k \<noteq> []" by auto
  then have "last (hashPassword salt p) = last ?k" by (simp add: hashPassword_def)
  moreover have "last ?k \<in> set std_alphabet"
    using b64_encode_alphabet [OF good_std] last_in_set [OF k] by blast
  ultimately show "plain_byte (last (hashPassword salt p))" by (simp add: alphabet_plain)
  show "plain_byte (hd (hashPassword salt p))" by (simp add: hashPassword_def plain_byte_def)
qed simp

section \<open>A broken-off password file\<close>

lemma length_split_on: "length (split_on d s) = Suc (count_list s d)"
  by (induction s) (auto split: list.splits)

lemma count_take: "count_list (take n s) d \<le> count_list s d"
  by (metis append_take_drop_id count_list_append le_add1)

lemma head_dollars: "count_list (hash_head salt) dollar = 2"
  by (simp add: hash_head_def count_notin) (simp add: dollar_def)

lemma octets_length: "octets xs = Some ys \<Longrightarrow> 4 * length ys \<le> 3 * length xs"
  by (induction xs arbitrary: ys rule: octets.induct) auto

lemma b64_decode_length: "b64_decode al s = Some t \<Longrightarrow> 4 * length t \<le> 3 * length s"
proof -
  assume "b64_decode al s = Some t"
  then obtain ys where "octets (map the (map (b64_val al) (filter (\<lambda>c. c \<noteq> CHR 0x0A \<and> c \<noteq> CHR 0x0D) s))) = Some ys"
      "length t = length ys"
    by (auto simp: b64_decode_def Let_def split: if_splits)
  then have "4 * length t \<le> 3 * length (filter (\<lambda>c. c \<noteq> CHR 0x0A \<and> c \<noteq> CHR 0x0D) s)"
    using octets_length by fastforce
  also have "\<dots> \<le> 3 * length s" by simp
  finally show ?thesis .
qed

text \<open>No password matches a hash that was cut off: there are too few parts, or the key is too short.\<close>

lemma verify_cut_off:
  assumes "n < length (hashPassword salt p)"
  shows "\<not> verifyPassword (take n (hashPassword salt p)) q"
proof (cases "n \<le> length (hash_head salt)")
  case True
  then have "take n (hashPassword salt p) = take n (hash_head salt)" by (simp add: hashPassword_parts)
  then have "length (split_on dollar (take n (hashPassword salt p))) \<noteq> 4"
    using count_take [of n "hash_head salt" dollar] by (simp add: length_split_on head_dollars)
  then show ?thesis by (simp add: verifyPassword_def Let_def)
next
  case False
  define k where "k = take (n - length (hash_head salt) - 1) (hash_key salt p)"
  have s: "take n (hashPassword salt p) = hash_head salt @ dollar # k"
    using False by (simp add: hashPassword_parts k_def take_Cons')
  have "length k < 43" using assms False by (simp add: k_def hashPassword_parts)
  then have short: "b64_decode std_alphabet k = Some t \<Longrightarrow> length t \<noteq> 32" for t
    using b64_decode_length [of std_alphabet k t] by auto
  have "dollar \<notin> set k" unfolding k_def using no_dollar(2) in_set_takeD by metis
  from split_hash [OF this] short show ?thesis
    unfolding s verifyPassword_def Let_def by (auto split: option.splits simp del: atoi.simps)
qed

lemma hash_plain: "c \<in> set (hashPassword salt p) \<Longrightarrow> plain_byte c"
proof -
  have b: "c \<in> set (b64_encode std_alphabet x) \<Longrightarrow> plain_byte c" for x
    using b64_encode_alphabet [OF good_std] alphabet_plain by blast
  have "list_all plain_byte (''pbkdf2-sha256'' @ [dollar] @ ''210000'' @ [dollar])" by code_simp
  then show "c \<in> set (hashPassword salt p) \<Longrightarrow> plain_byte c"
    using b by (auto simp: hashPassword_parts hash_head_def hash_key_def list_all_iff)
qed

lemma trim_cut_off: "0 < n \<Longrightarrow> trim_space (take n (hashPassword salt p)) = take n (hashPassword salt p)"
proof -
  assume "0 < n"
  then have ne: "take n (hashPassword salt p) \<noteq> []" by simp
  have "plain_byte c" if "c \<in> set (take n (hashPassword salt p))" for c
    using that hash_plain by (meson in_set_takeD)
  with ne show ?thesis using hd_in_set [OF ne] last_in_set [OF ne] by (intro trim_space_plain) blast+
qed

section \<open>Steps and the invariant\<close>

text \<open>
  A step is one method call.  The salt has sixteen bytes, as \<^verbatim>\<open>make([]byte, 16)\<close> says, and a
  login reads the clock after every earlier login: Go's clock readings are monotonic.
\<close>

definition clock_after :: "time \<Rightarrow> AuthStore \<Rightarrow> bool" where
  "clock_after now a \<longleftrightarrow> list_all (\<lambda>(k, t). LastSeen t \<le> now) (loginAttempts a)"

inductive auth_step_if :: "(PasswordIO \<Rightarrow> bool) \<Rightarrow> AuthStore \<Rightarrow> AuthStore \<Rightarrow> bool" for ok where
  pw_setup: "salt_ok io \<Longrightarrow> ok io \<Longrightarrow> auth_step_if ok a (fst (Setup io p a))"
| pw_change: "salt_ok io \<Longrightarrow> ok io \<Longrightarrow> auth_step_if ok a (fst (Change io p q a))"
| login: "clock_after now a \<Longrightarrow> 0 \<le> now \<Longrightarrow> auth_step_if ok a (fst (authenticateAt client p now a))"
| session_create: "auth_step_if ok a (fst (CreateSession random now now' r a))"
| session_delete: "auth_step_if ok a (fst (DeleteSession r a))"

inductive_cases auth_step_elim: "auth_step_if ok a b"

text \<open>All steps, and those in which no write of the password file breaks off half way.\<close>

abbreviation auth_step :: "AuthStore \<Rightarrow> AuthStore \<Rightarrow> bool" where
  "auth_step \<equiv> auth_step_if (\<lambda>io. True)"

lemmas any_setup = pw_setup [where ok = "\<lambda>io. True", OF _ TrueI]
  and any_change = pw_change [where ok = "\<lambda>io. True", OF _ TrueI]
  and any_login = login [where ok = "\<lambda>io. True"]
  and any_session = session_create [where ok = "\<lambda>io. True"] session_delete [where ok = "\<lambda>io. True"]

abbreviation whole_write :: "PasswordIO \<Rightarrow> bool" where
  "whole_write io \<equiv> writeResult io = None"

definition auth_init :: "AuthStore \<Rightarrow> bool" where
  "auth_init a \<longleftrightarrow> (\<exists>cfg file. NewAuthStore cfg file = Inr a)"

definition attempt_ok :: "loginAttempt \<Rightarrow> bool" where
  "attempt_ok t \<longleftrightarrow> 0 \<le> Failures t \<and> Failures t < loginFailureLimit
     \<and> BlockedUntil t \<le> LastSeen t + loginBlockDuration"

definition auth_inv :: "AuthStore \<Rightarrow> bool" where
  "auth_inv a \<longleftrightarrow> distinct (map fst (sessions a)) \<and> distinct (map fst (loginAttempts a))
     \<and> list_all (\<lambda>(k, t). attempt_ok t) (loginAttempts a)"

definition file_agrees :: "AuthStore \<Rightarrow> bool" where
  "file_agrees a \<longleftrightarrow> hash a = (case hashFile a of None \<Rightarrow> [] | Some b \<Rightarrow> trim_space b)"

lemma auth_inv_init: "auth_init a \<Longrightarrow> auth_inv a \<and> file_agrees a"
proof -
  assume "auth_init a"
  then obtain cfg content where new: "NewAuthStore cfg content = Inr a" by (auto simp: auth_init_def)
  then obtain b where "content = Inr b" by (cases content) (auto simp: NewAuthStore_def)
  with new show ?thesis by (cases b) (auto simp: NewAuthStore_def auth_inv_def file_agrees_def)
qed

lemma setPasswordLocked_frame:
  "sessions (fst (setPasswordLocked io p a)) = sessions a"
  "loginAttempts (fst (setPasswordLocked io p a)) = loginAttempts a"
  by (simp_all add: setPasswordLocked_def Let_def split: sum.splits option.splits)

lemma auth_inv_setup: "auth_inv a \<Longrightarrow> auth_inv (fst (Setup io p a))"
  by (simp add: Setup_def auth_inv_def setPasswordLocked_frame)

lemma auth_inv_change: "auth_inv a \<Longrightarrow> auth_inv (fst (Change io p q a))"
  using setPasswordLocked_frame [of io q a]
  by (auto simp: Change_def auth_inv_def split: prod.splits option.splits)

text \<open>A write that does not break off keeps the file in agreement with the store.\<close>

lemma agrees_setPassword: "file_agrees a \<Longrightarrow> whole_write io \<Longrightarrow> file_agrees (fst (setPasswordLocked io p a))"
proof (cases "setPasswordLocked io p a")
  case (Pair a' e)
  assume "file_agrees a" "whole_write io"
  with Pair show ?thesis
    by (cases e) (auto simp: file_agrees_def dest: setPasswordLocked_error(2) elim!: setPasswordLocked_ok)
qed

lemma agrees_setup: "file_agrees a \<Longrightarrow> whole_write io \<Longrightarrow> file_agrees (fst (Setup io p a))"
  by (simp add: Setup_def agrees_setPassword)

lemma agrees_change: "file_agrees a \<Longrightarrow> whole_write io \<Longrightarrow> file_agrees (fst (Change io p q a))"
  using agrees_setPassword [of a io q]
  by (auto simp: Change_def file_agrees_def split: prod.splits option.splits)

lemma agrees_sessions:
  "file_agrees a \<Longrightarrow> file_agrees (fst (CreateSession random now now' r a))"
  "file_agrees a \<Longrightarrow> file_agrees (fst (DeleteSession r a))"
  by (simp_all add: CreateSession_def DeleteSession_def file_agrees_def Let_def split: sum.splits option.splits)

lemma auth_inv_create: "auth_inv a \<Longrightarrow> auth_inv (fst (CreateSession random now now' r a))"
  by (cases random) (simp_all add: CreateSession_def auth_inv_def Let_def distinct_update distinct_filter_keys)

lemma auth_inv_delete: "auth_inv a \<Longrightarrow> auth_inv (fst (DeleteSession r a))"
  by (cases "map_of (Cookies r) sessionCookieName")
    (simp_all add: DeleteSession_def auth_inv_def distinct_delete)

lemma list_all_update:
  "list_all (\<lambda>(k, t). P t) al \<Longrightarrow> P v \<Longrightarrow> list_all (\<lambda>(k, t). P t) (AList.update k v al)"
  by (induction al) auto

lemma list_all_delete:
  "list_all (\<lambda>(k, t). P t) al \<Longrightarrow> list_all (\<lambda>(k, t). P t) (AList.delete k al)"
  by (auto simp: list_all_iff AList.delete_eq)

lemma list_all_map_of: "list_all (\<lambda>(k, t). P t) al \<Longrightarrow> map_of al k = Some v \<Longrightarrow> P v"
  by (auto simp: list_all_iff dest!: map_of_SomeD)

text \<open>The record that a login of \<open>client\<close> at \<open>now\<close> reads, after the stale records are dropped.\<close>

definition live_attempts :: "time \<Rightarrow> AuthStore \<Rightarrow> (string, loginAttempt) gomap" where
  "live_attempts now a =
     filter (\<lambda>(key, attempt). \<not> now - LastSeen attempt > loginRecordLifetime) (loginAttempts a)"

definition current_attempt :: "string \<Rightarrow> time \<Rightarrow> AuthStore \<Rightarrow> loginAttempt" where
  "current_attempt client now a =
     (case map_of (live_attempts now a) client of Some x \<Rightarrow> x | None \<Rightarrow> noAttempt)"

definition login_name :: "string \<Rightarrow> string" where
  "login_name client = (if client = [] then ''unknown'' else client)"

definition failed_attempt :: "time \<Rightarrow> loginAttempt \<Rightarrow> loginAttempt" where
  "failed_attempt now t =
     (if Failures t + 1 \<ge> loginFailureLimit
      then t\<lparr>LastSeen := now, Failures := 0, BlockedUntil := now + loginBlockDuration\<rparr>
      else t\<lparr>Failures := Failures t + 1, LastSeen := now\<rparr>)"

lemma authenticateAt_attempts:
  "loginAttempts (fst (authenticateAt client p now a)) =
     (let c = login_name client; t = current_attempt c now a in
      if now < BlockedUntil t then AList.update c (t\<lparr>LastSeen := now\<rparr>) (live_attempts now a)
      else if verifyLocked a p then AList.delete c (live_attempts now a)
      else AList.update c (failed_attempt now t) (live_attempts now a))"
  by (simp add: authenticateAt_def current_attempt_def live_attempts_def login_name_def
      failed_attempt_def Let_def)

lemma authenticateAt_frame:
  "sessions (fst (authenticateAt client p now a)) = sessions a"
  "hashFile (fst (authenticateAt client p now a)) = hashFile a"
  "hash (fst (authenticateAt client p now a)) = hash a"
  "legacy (fst (authenticateAt client p now a)) = legacy a"
  by (simp_all add: authenticateAt_def Let_def)

lemma verifyLocked_authenticateAt [simp]:
  "verifyLocked (fst (authenticateAt client p now a)) q = verifyLocked a q"
  by (simp add: verifyLocked_def authenticateAt_frame)

lemma attempt_ok_none: "attempt_ok noAttempt"
  by (simp add: attempt_ok_def noAttempt_def auth_consts)

lemma live_attempts_all: "list_all P (loginAttempts a) \<Longrightarrow> list_all P (live_attempts now a)"
  by (simp add: live_attempts_def list_all_iff)

lemma current_attempt_ok:
  assumes "list_all (\<lambda>(k, t). attempt_ok t) (loginAttempts a)"
  shows "attempt_ok (current_attempt c now a)"
  unfolding current_attempt_def
  using list_all_map_of [OF live_attempts_all [OF assms]] attempt_ok_none
  by (auto split: option.splits)

lemma current_attempt_seen:
  assumes "clock_after now a" "0 \<le> now"
  shows "LastSeen (current_attempt c now a) \<le> now"
proof -
  have "list_all (\<lambda>(k, t). LastSeen t \<le> now) (live_attempts now a)"
    using assms(1) by (auto simp: clock_after_def intro: live_attempts_all)
  then show ?thesis
    using assms(2) list_all_map_of [of "\<lambda>t. LastSeen t \<le> now"]
    by (auto simp: current_attempt_def noAttempt_def split: option.splits)
qed

lemma auth_inv_login:
  assumes inv: "auth_inv a" and clock: "clock_after now a" "0 \<le> now"
  shows "auth_inv (fst (authenticateAt client p now a))"
proof -
  let ?t = "current_attempt (login_name client) now a"
  have all: "list_all (\<lambda>(k, t). attempt_ok t) (live_attempts now a)"
    using inv by (simp add: auth_inv_def live_attempts_all)
  have t: "attempt_ok ?t"
    using inv by (intro current_attempt_ok) (simp add: auth_inv_def)
  have seen: "LastSeen ?t \<le> now" by (rule current_attempt_seen [OF clock])
  have "attempt_ok (?t\<lparr>LastSeen := now\<rparr>)" using t seen by (simp add: attempt_ok_def)
  moreover have "attempt_ok (failed_attempt now ?t)"
    using t seen by (auto simp: attempt_ok_def failed_attempt_def auth_consts)
  ultimately have "list_all (\<lambda>(k, t). attempt_ok t) (loginAttempts (fst (authenticateAt client p now a)))"
    using all by (auto simp: authenticateAt_attempts Let_def list_all_update list_all_delete)
  moreover have "distinct (map fst (live_attempts now a))"
    using inv by (simp add: auth_inv_def live_attempts_def distinct_filter_keys)
  then have "distinct (map fst (loginAttempts (fst (authenticateAt client p now a))))"
    by (auto simp: authenticateAt_attempts Let_def distinct_update distinct_delete)
  ultimately show ?thesis using inv by (simp add: auth_inv_def authenticateAt_frame)
qed

lemma agrees_login: "file_agrees a \<Longrightarrow> file_agrees (fst (authenticateAt client p now a))"
  by (simp add: file_agrees_def authenticateAt_frame)

interpretation auth: invariant_system auth_init auth_step auth_inv
  by unfold_locales (auto elim!: auth_step_elim
      intro: auth_inv_setup auth_inv_change auth_inv_login auth_inv_create auth_inv_delete dest: auth_inv_init)

interpretation whole_writes: invariant_system auth_init "auth_step_if whole_write" file_agrees
  by unfold_locales (auto elim!: auth_step_elim
      intro: agrees_setup agrees_change agrees_login agrees_sessions dest: auth_inv_init)

section \<open>The rate limit\<close>

text \<open>
  A login tries a password if it would have been let in were this the password of the administrator: the same
  call on a store with the same records, in which the password is the right one, succeeds.
  \<open>password_checks c as a\<close> counts such logins of client \<open>c\<close> in a sequence of logins of any clients.
\<close>

definition tries_password :: "string \<Rightarrow> string \<Rightarrow> time \<Rightarrow> AuthStore \<Rightarrow> bool" where
  "tries_password client p now a \<longleftrightarrow> fst (snd (authenticateAt client p now (a\<lparr>hash := [], legacy := p\<rparr>)))"

definition login_blocked :: "string \<Rightarrow> time \<Rightarrow> AuthStore \<Rightarrow> bool" where
  "login_blocked client now a \<longleftrightarrow> now < BlockedUntil (current_attempt (login_name client) now a)"

lemma tries_not_blocked: "tries_password client p now a \<Longrightarrow> \<not> login_blocked client now a"
  by (simp add: tries_password_def login_blocked_def authenticateAt_def current_attempt_def live_attempts_def login_name_def
      Let_def split: if_splits)

fun password_checks :: "string \<Rightarrow> (string \<times> string \<times> time) list \<Rightarrow> AuthStore \<Rightarrow> int" where
  "password_checks c [] a = 0"
| "password_checks c ((client, p, now) # as) a =
     (if login_name client = c \<and> tries_password client p now a then 1 else 0)
       + password_checks c as (fst (authenticateAt client p now a))"

text \<open>What is left to client \<open>c\<close> of its tries up to time \<open>t + loginBlockDuration\<close>.\<close>

definition tries_left :: "string \<Rightarrow> time \<Rightarrow> AuthStore \<Rightarrow> int" where
  "tries_left c t a =
     (case map_of (loginAttempts a) c of None \<Rightarrow> loginFailureLimit
      | Some r \<Rightarrow> if BlockedUntil r \<ge> t + loginBlockDuration then 0
          else if LastSeen r \<ge> t then loginFailureLimit - Failures r else loginFailureLimit)"

definition window_ok :: "string \<Rightarrow> time \<Rightarrow> AuthStore \<Rightarrow> bool" where
  "window_ok c t a \<longleftrightarrow> distinct (map fst (loginAttempts a)) \<and>
     (\<forall>r. map_of (loginAttempts a) c = Some r \<longrightarrow> 0 \<le> Failures r \<and> Failures r < loginFailureLimit
        \<and> (BlockedUntil r \<le> LastSeen r + loginBlockDuration \<or> t \<le> LastSeen r))"

lemma map_of_live_attempts:
  assumes "distinct (map fst (loginAttempts a))"
  shows "map_of (live_attempts now a) c = (case map_of (loginAttempts a) c of None \<Rightarrow> None
     | Some r \<Rightarrow> if now - LastSeen r > loginRecordLifetime then None else Some r)"
  unfolding live_attempts_def using map_of_filter_keys [OF assms] by (auto split: option.splits)

lemma map_of_authenticateAt:
  assumes "distinct (map fst (loginAttempts a))"
  shows "map_of (loginAttempts (fst (authenticateAt client p now a))) c =
    (let t = current_attempt c now a in
     if login_name client \<noteq> c then map_of (live_attempts now a) c
     else if now < BlockedUntil t then Some (t\<lparr>LastSeen := now\<rparr>)
     else if verifyLocked a p then None else Some (failed_attempt now t))"
  by (auto simp: authenticateAt_attempts Let_def)

lemma window_ok_step:
  assumes ok: "window_ok c t a" and now: "t \<le> now" "now < t + loginBlockDuration"
  shows "window_ok c t (fst (authenticateAt client p now a))"
proof -
  let ?b = "fst (authenticateAt client p now a)"
  have d: "distinct (map fst (loginAttempts a))" using ok by (simp add: window_ok_def)
  then have "distinct (map fst (live_attempts now a))"
    by (simp add: live_attempts_def distinct_filter_keys)
  then have "distinct (map fst (loginAttempts ?b))"
    by (auto simp: authenticateAt_attempts Let_def distinct_update distinct_delete)
  then show ?thesis
    using ok now
    by (auto simp: window_ok_def map_of_authenticateAt [OF d] map_of_live_attempts [OF d] Let_def
        current_attempt_def failed_attempt_def noAttempt_def auth_consts split: option.splits if_splits)
qed

lemma tries_left_step:
  assumes ok: "window_ok c t a" and now: "t \<le> now" "now < t + loginBlockDuration"
    and wrong: "login_name client = c \<Longrightarrow> \<not> verifyLocked a p"
  shows "(if login_name client = c \<and> \<not> login_blocked client now a then 1 else 0)
     + tries_left c t (fst (authenticateAt client p now a)) \<le> tries_left c t a"
proof -
  have d: "distinct (map fst (loginAttempts a))" using ok by (simp add: window_ok_def)
  show ?thesis
  proof (cases "map_of (loginAttempts a) c")
    case None
    then show ?thesis
      using wrong now
      by (auto simp: tries_left_def login_blocked_def map_of_authenticateAt [OF d]
          map_of_live_attempts [OF d] current_attempt_def failed_attempt_def noAttempt_def
          Let_def auth_consts)
  next
    case (Some r)
    then have r: "0 \<le> Failures r" "Failures r < 5"
        "BlockedUntil r \<le> LastSeen r + loginBlockDuration \<or> t \<le> LastSeen r"
      using ok by (auto simp: window_ok_def loginFailureLimit_def)
    show ?thesis
      using Some r wrong now
      by (auto simp: tries_left_def login_blocked_def map_of_authenticateAt [OF d]
          map_of_live_attempts [OF d] current_attempt_def failed_attempt_def noAttempt_def
          Let_def auth_consts)
  qed
qed

lemma password_checks_le_tries:
  assumes "window_ok c t a"
    and "\<forall>(client, p, now) \<in> set as. t \<le> now \<and> now < t + loginBlockDuration
          \<and> (login_name client = c \<longrightarrow> \<not> verifyLocked a p)"
  shows "password_checks c as a \<le> tries_left c t a"
  using assms
proof (induction as arbitrary: a)
  case Nil
  then show ?case
    by (auto simp: tries_left_def window_ok_def loginFailureLimit_def split: option.splits)
next
  case (Cons x as)
  obtain client p now where x: "x = (client, p, now)" by (cases x)
  let ?b = "fst (authenticateAt client p now a)"
  from Cons.prems x have now: "t \<le> now" "now < t + loginBlockDuration"
    and wrong: "login_name client = c \<Longrightarrow> \<not> verifyLocked a p" by auto
  have "password_checks c as ?b \<le> tries_left c t ?b"
    using Cons.prems x by (intro Cons.IH window_ok_step now) auto
  moreover have "(if login_name client = c \<and> \<not> login_blocked client now a then 1 else 0)
      + tries_left c t ?b \<le> tries_left c t a"
    by (rule tries_left_step [OF Cons.prems(1) now wrong])
  moreover have "(if login_name client = c \<and> tries_password client p now a then 1 else 0)
      \<le> (if login_name client = c \<and> \<not> login_blocked client now a then 1 else (0 :: int))"
    using tries_not_blocked by auto
  ultimately show ?case unfolding x password_checks.simps by linarith
qed

lemma tries_left_limit: "window_ok c t a \<Longrightarrow> tries_left c t a \<le> 5"
  by (auto simp: tries_left_def window_ok_def loginFailureLimit_def split: option.splits)

lemma auth_inv_window: "auth_inv a \<Longrightarrow> window_ok c t a"
  using list_all_map_of [of attempt_ok "loginAttempts a" c]
  by (auto simp: auth_inv_def window_ok_def attempt_ok_def)

section \<open>Properties\<close>

definition demo_io :: PasswordIO where
  "demo_io = \<lparr>saltBytes = Inr (replicate 16 (CHR ''s'')), mkdirResult = None, openResult = None, writeResult = None\<rparr>"

definition demo_store :: AuthStore where
  "demo_store = \<lparr>hashPath = ''/state/web-password.hash'', legacy = [], hash = [], sessions = [],
     loginAttempts = [], hashFile = None\<rparr>"

definition demo_request :: "string \<Rightarrow> Request" where
  "demo_request token = \<lparr>Method = ''GET'', Path = ''/api/state'', Host = ''localhost'',
     RemoteAddr = ''10.0.0.1:5000'', Header = (\<lambda>_. []), Cookies = [(sessionCookieName, token)], TLS = False\<rparr>"

lemma demo_store_init: "auth_init demo_store"
proof -
  have "path_join [''/state'', ''web-password.hash''] = ''/state/web-password.hash''" by code_simp
  then have "NewAuthStore ((defaultConfig False)\<lparr>StateDir := ''/state''\<rparr>) (Inr None) = Inr demo_store"
    by (simp add: NewAuthStore_def demo_store_def defaultConfig_def)
  then show ?thesis by (auto simp: auth_init_def)
qed

lemma demo_reach: "reach auth_init auth_step demo_store"
  by (rule reach_init) (rule demo_store_init)

lemma demo_salt: "salt_ok demo_io"
  by (simp add: salt_ok_def demo_io_def)

text \<open>A stored hash accepts the password it was made from, and any password it accepts has the
  same derived key.\<close>

lemma password_hash_verifies:
  assumes "16 \<le> length salt"
  shows "verifyPassword (hashPassword salt p) p \<and>
    (verifyPassword (hashPassword salt p) q \<longleftrightarrow>
       pbkdf2SHA256 q salt passwordIterations = pbkdf2SHA256 p salt passwordIterations)"
  using verify_hashPassword_iff [OF assms] by simp

text \<open>C32: In every state that is reached without a write of the password file that breaks off, the file
  holds what the store checks against: a store opened from that file after a restart accepts exactly the
  same passwords.\<close>

theorem password_survives_restart:
  assumes "reach auth_init (auth_step_if whole_write) a" and "hash a \<noteq> []"
    and "NewAuthStore cfg (Inr (hashFile a)) = Inr b"
  shows "hash b = hash a \<and> verifyLocked b p = verifyLocked a p"
proof -
  have "file_agrees a" using assms(1) by (rule whole_writes.reach_inv)
  with assms(2,3) have "hash b = hash a"
    by (auto simp: file_agrees_def NewAuthStore_def split: option.splits)
  with assms(2) show ?thesis by (simp add: verifyLocked_def)
qed

theorem password_survives_restart_witness:
  "\<exists>b. NewAuthStore (defaultConfig False) (Inr (hashFile (fst (Setup demo_io ''password1'' demo_store)))) = Inr b
     \<and> verifyLocked b ''password1''"
proof -
  let ?a = "fst (Setup demo_io ''password1'' demo_store)"
  have a: "?a = demo_store\<lparr>hashFile := Some (hashPassword (replicate 16 (CHR ''s'')) ''password1'' @ [CHR 0x0A]),
      hash := hashPassword (replicate 16 (CHR ''s'')) ''password1''\<rparr>"
    by (simp add: Setup_def setPasswordLocked_def demo_store_def demo_io_def Let_def)
  have 1: "reach auth_init (auth_step_if whole_write) ?a"
    by (rule reach_step, rule reach_init, rule demo_store_init, rule pw_setup [OF demo_salt]) (simp add: demo_io_def)
  have 2: "hash ?a \<noteq> []" by (simp add: a)
  obtain b where 3: "NewAuthStore (defaultConfig False) (Inr (hashFile ?a)) = Inr b"
    by (simp add: NewAuthStore_def a)
  have "verifyLocked ?a ''password1''"
    using verify_hashPassword_iff [of "replicate 16 (CHR ''s'')"] by (simp add: verifyLocked_def a)
  with password_survives_restart [OF 1 2 3, of "''password1''"] 3 show ?thesis by auto
qed

text \<open>C11: What is left of a change of the password whose write breaks off after \<open>n\<close> bytes.  The change reports
  an error, and the running store goes on with the old password and the open sessions.  But after a
  restart: with nothing written the administrator is not configured any more (without a legacy token), so
  that a setup request of anybody may set the password; with a part of the hash no password is accepted;
  with the whole hash the new password is the one in force although the change was reported as failed.\<close>

theorem interrupted_password_write:
  assumes "writeResult io = Some (n, e)" and "mkdirResult io = None" and "openResult io = None"
    and "saltBytes io = Inr salt" and "length salt = 16" and "8 \<le> length new" and "length new \<le> 256"
    and "verifyLocked a current" and "hash a \<noteq> []"
    and "Change io current new a = (b, err)" and "NewAuthStore conf (Inr (hashFile b)) = Inr c"
  shows "err \<noteq> None \<and> verifyLocked b p = verifyLocked a p \<and> sessions b = sessions a
    \<and> (n = 0 \<longrightarrow> Configured c = (AuthToken conf \<noteq> []))
    \<and> (0 < n \<and> n < length (hashPassword salt new) \<longrightarrow> Configured c \<and> \<not> verifyLocked c p)
    \<and> (length (hashPassword salt new) \<le> n \<longrightarrow> verifyLocked c new)"
proof -
  let ?h = "hashPassword salt new"
  have b: "b = a\<lparr>hashFile := Some (take n (?h @ [CHR 0x0A]))\<rparr>" and err: "err \<noteq> None"
    using assms(1-4,6-8,10) by (auto simp: Change_def setPasswordLocked_def Let_def)
  have c: "hash c = trim_space (take n (?h @ [CHR 0x0A]))" "legacy c = AuthToken conf"
    using assms(11) by (auto simp: NewAuthStore_def b)
  have "n = 0 \<Longrightarrow> hash c = []" by (simp add: c(1) trim_space_def trim_by.simps)
  moreover have "hash c = take n ?h" if "0 < n" "n < length ?h" using that by (simp add: c(1) trim_cut_off)
  moreover have "hash c = ?h" if "length ?h \<le> n"
    using that trim_cut_off [of "length ?h" salt new] by (cases "n = length ?h") (simp_all add: c(1))
  ultimately show ?thesis
    using err verify_cut_off [of n salt new p] verify_hashPassword_iff [of salt new new] assms(5,9)
    by (auto simp: b c(2) Configured_def verifyLocked_def)
qed

theorem interrupted_password_write_witness:
  "let io = demo_io\<lparr>writeResult := Some (0, ''no space left on device'')\<rparr>;
       a = fst (Setup demo_io ''password1'' demo_store); b = fst (Change io ''password1'' ''password2'' a)
   in verifyLocked b ''password1'' \<and> (\<exists>c. NewAuthStore (defaultConfig False) (Inr (hashFile b)) = Inr c \<and> \<not> Configured c)"
proof -
  let ?s = "replicate 16 (CHR ''s'')"
  let ?io = "demo_io\<lparr>writeResult := Some (0, ''no space left on device'')\<rparr>"
  let ?a = "fst (Setup demo_io ''password1'' demo_store)"
  have a: "hash ?a = hashPassword ?s ''password1''"
    by (simp add: Setup_def setPasswordLocked_def demo_store_def demo_io_def Let_def)
  then have v: "verifyLocked ?a ''password1''" "hash ?a \<noteq> []"
    using verify_hashPassword_iff [of ?s] by (simp_all add: verifyLocked_def)
  obtain b err where b: "Change ?io ''password1'' ''password2'' ?a = (b, err)" by fastforce
  obtain c where c: "NewAuthStore (defaultConfig False) (Inr (hashFile b)) = Inr c"
    by (cases "hashFile b") (simp_all add: NewAuthStore_def Let_def)
  have "verifyLocked b ''password1'' = verifyLocked ?a ''password1'' \<and> (Configured c = (AuthToken (defaultConfig False) \<noteq> []))"
    using interrupted_password_write [OF _ _ _ _ _ _ _ v b c, where salt = ?s and p = "''password1''"]
    by (simp add: demo_io_def)
  with v(1) b c show ?thesis by (auto simp: Let_def defaultConfig_def)
qed

text \<open>C33: Changing the password needs the current one, makes the new one valid, drops the legacy
  token and ends every session.\<close>

theorem change_password_revokes:
  assumes "Change io current replacement a = (b, None)" and "salt_ok io"
  shows "verifyLocked a current \<and> verifyLocked b replacement \<and> legacy b = [] \<and> \<not> ValidSession now r b"
proof -
  obtain a' where a': "setPasswordLocked io replacement a = (a', None)"
      and b: "b = a'\<lparr>legacy := [], sessions := []\<rparr>" and v: "verifyLocked a current"
    using assms(1) by (auto simp: Change_def split: if_splits prod.splits option.splits)
  from a' obtain salt where "saltBytes io = Inr salt" and h: "hash a' = hashPassword salt replacement"
    by (elim setPasswordLocked_ok) auto
  with assms(2) have "length salt = 16" by (simp add: salt_ok_def)
  with b h v show ?thesis
    using verify_hashPassword_iff [of salt replacement replacement]
    by (auto simp: verifyLocked_def ValidSession_def split: option.splits)
qed

theorem change_password_revokes_witness:
  "\<exists>b. Change demo_io ''token'' ''new password'' (demo_store\<lparr>legacy := ''token'', sessions := [(''tok'', 900)]\<rparr>) = (b, None)
     \<and> ValidSession 5 (demo_request ''tok'') (demo_store\<lparr>legacy := ''token'', sessions := [(''tok'', 900)]\<rparr>)
     \<and> \<not> ValidSession 5 (demo_request ''tok'') b"
proof -
  let ?a = "demo_store\<lparr>legacy := ''token'', sessions := [(''tok'', 900)]\<rparr>"
  obtain b where 1: "Change demo_io ''token'' ''new password'' ?a = (b, None)"
    by (simp add: Change_def setPasswordLocked_def verifyLocked_def demo_store_def demo_io_def Let_def)
  have "ValidSession 5 (demo_request ''tok'') ?a"
    by (simp add: ValidSession_def demo_request_def)
  with change_password_revokes [OF 1 demo_salt] 1 show ?thesis by blast
qed

text \<open>C13: In any span of five minutes a client whose passwords are wrong tries at most five of them, whatever
  other clients do in between: of all its logins at most five would have been let in if their password had
  been the right one.\<close>

theorem login_rate_limit:
  assumes "reach auth_init auth_step a"
    and "\<forall>(client, p, now) \<in> set as. t \<le> now \<and> now < t + loginBlockDuration
          \<and> (login_name client = c \<longrightarrow> \<not> verifyLocked a p)"
  shows "password_checks c as a \<le> 5"
proof -
  have w: "window_ok c t a" by (intro auth_inv_window auth.reach_inv assms(1))
  show ?thesis using password_checks_le_tries [OF w assms(2)] tries_left_limit [OF w] by linarith
qed

theorem login_rate_limit_witness:
  "password_checks ''10.0.0.1'' (replicate 7 (''10.0.0.1'', ''guess'', 1)) demo_store \<le> 5"
proof (rule login_rate_limit)
  show "reach auth_init auth_step demo_store" by (rule demo_reach)
  show "\<forall>(client, p, now) \<in> set (replicate 7 (''10.0.0.1'', ''guess'', 1)).
      1 \<le> now \<and> now < 1 + loginBlockDuration \<and> (login_name client = ''10.0.0.1'' \<longrightarrow> \<not> verifyLocked demo_store p)"
    by (simp add: auth_consts verifyLocked_def demo_store_def)
qed

text \<open>The fifth failure in a row locks the client out: for the next five minutes every login
  fails with the time that is left, also with the right password.\<close>

lemma fifth_failure_blocks:
  assumes "Failures (current_attempt (login_name client) now a) = loginFailureLimit - 1"
    and "\<not> login_blocked client now a" and "\<not> verifyLocked a p"
    and "distinct (map fst (loginAttempts a))" and "now \<le> later" and "later < now + loginBlockDuration"
  shows "snd (authenticateAt client q later (fst (authenticateAt client p now a)))
    = (False, now + loginBlockDuration - later)"
proof -
  let ?b = "fst (authenticateAt client p now a)"
  let ?t = "failed_attempt now (current_attempt (login_name client) now a)"
  have t: "BlockedUntil ?t = now + loginBlockDuration" "LastSeen ?t = now"
    using assms(1) by (simp_all add: failed_attempt_def)
  have "distinct (map fst (live_attempts now a))"
    using assms(4) by (simp add: live_attempts_def distinct_filter_keys)
  then have d: "distinct (map fst (loginAttempts ?b))"
    by (auto simp: authenticateAt_attempts Let_def distinct_update distinct_delete)
  have "map_of (loginAttempts ?b) (login_name client) = Some ?t"
    using assms(2,3) by (simp add: map_of_authenticateAt [OF assms(4)] login_blocked_def Let_def)
  then have "current_attempt (login_name client) later ?b = ?t"
    using assms(5,6) t by (simp add: current_attempt_def map_of_live_attempts [OF d] auth_consts)
  then have "BlockedUntil (case map_of (filter (\<lambda>(key, attempt). \<not> later - LastSeen attempt > loginRecordLifetime)
      (loginAttempts ?b)) (if client = [] then ''unknown'' else client) of Some x \<Rightarrow> x | None \<Rightarrow> noAttempt)
      = now + loginBlockDuration"
    using t by (simp add: current_attempt_def live_attempts_def login_name_def)
  then show ?thesis
    using assms(6) unfolding authenticateAt_def [of client q later ?b] by (simp add: Let_def)
qed

text \<open>C34: A session made at \<open>now\<close> is valid exactly until twelve hours later, for the request that
  carries its cookie, and not after it is deleted; sessions that have not expired are kept.\<close>

theorem session_lifecycle:
  assumes "CreateSession (Inr tokenBytes) now now' r a = (b, Inr cookie)"
    and "length tokenBytes = 32" and "\<forall>v. now \<le> now' v \<and> now' v \<le> now + sessionLifetime"
    and "distinct (map fst (sessions a))"
    and "map_of (Cookies r') sessionCookieName = Some (CookieValue cookie)"
  shows "(ValidSession t r' b \<longleftrightarrow> t < now + sessionLifetime)
    \<and> \<not> ValidSession t r' (fst (DeleteSession r' b))
    \<and> (\<forall>v e. map_of (sessions a) v = Some e \<longrightarrow> v \<noteq> CookieValue cookie \<longrightarrow> now' v \<le> e \<longrightarrow> map_of (sessions b) v = Some e)"
proof -
  let ?token = "b64_encode url_alphabet tokenBytes"
  let ?s = "AList.update ?token (now + sessionLifetime) (sessions a)"
  have c: "CookieValue cookie = ?token" and b: "sessions b = filter (\<lambda>(existing, expires). \<not> now' existing > expires) ?s"
    using assms(1) by (auto simp: CreateSession_def Let_def sessionCookie_def)
  have "length ?token = 43" using assms(2) by (rule b64_encode_length32)
  then have ne: "?token \<noteq> []" by auto
  have "distinct (map fst ?s)" using assms(4) by (rule distinct_update)
  from map_of_filter_keys [OF this, of "\<lambda>k e. \<not> now' k > e"]
  have m: "map_of (sessions b) v = (case map_of ?s v of Some e \<Rightarrow> if \<not> now' v > e then Some e else None | None \<Rightarrow> None)" for v
    by (simp add: b)
  have "map_of (sessions b) ?token = Some (now + sessionLifetime)"
    using assms(3) by (simp add: m not_less)
  moreover have "map_of (sessions b) v = Some e" if "map_of (sessions a) v = Some e" "v \<noteq> ?token" "now' v \<le> e" for v e
    using that by (simp add: m)
  ultimately show ?thesis
    using assms(5) ne by (simp add: ValidSession_def DeleteSession_def c)
qed

theorem session_lifecycle_witness:
  "\<exists>b cookie. CreateSession (Inr (replicate 32 (CHR ''r''))) 10 (\<lambda>v. 11) (demo_request []) demo_store = (b, Inr cookie)
     \<and> ValidSession 12 (demo_request (CookieValue cookie)) b"
proof -
  obtain b cookie where 1:
    "CreateSession (Inr (replicate 32 (CHR ''r''))) 10 (\<lambda>v. 11) (demo_request []) demo_store = (b, Inr cookie)"
    by (simp add: CreateSession_def Let_def)
  have "ValidSession 12 (demo_request (CookieValue cookie)) b \<longleftrightarrow> 12 < 10 + sessionLifetime"
    by (rule session_lifecycle [OF 1, THEN conjunct1])
      (simp_all add: auth_consts demo_store_def demo_request_def)
  with 1 show ?thesis by (auto simp: auth_consts)
qed

end
