(* ===== verification/Program_Proofs.thy ===== *)
theory Program_Proofs
  imports Program Manager_Runs Http_Proofs Catalog_Select Auth_Proofs
begin

text \<open>
  The composition of the components: the program as a transition system of its own, whose steps are
  requests, rounds of the health monitor and steps of the goroutines, and the proof that each of them
  acts on the manager, the catalogue, the stored settings and the password store only by the runs of
  their own systems.  So the invariants of all components hold together in every state of the program.
  The states the manager is seen to come from are a parameter (the locale \<open>manager_origin\<close>), so that the same
  lemmas serve for the start of the program and for a later moment of it.
\<close>

section \<open>Operations of the catalogue as runs\<close>

lemma catalog_then: "cstep b c \<Longrightarrow> cstep\<^sup>*\<^sup>* a b \<Longrightarrow> cstep\<^sup>*\<^sup>* a c"
  by (rule rtranclp.rtrancl_into_rtrancl)

definition catalog_run :: "(ExitCatalog \<Rightarrow> ExitCatalog) \<Rightarrow> bool" where
  "catalog_run f \<longleftrightarrow> (\<forall>c. cstep\<^sup>*\<^sup>* c (f c))"

lemma catalog_runD: "catalog_run f \<Longrightarrow> cstep\<^sup>*\<^sup>* a c \<Longrightarrow> cstep\<^sup>*\<^sup>* a (f c)"
  unfolding catalog_run_def by (blast intro: rtranclp_trans)

lemma refresh_run:
  assumes "catalog_run queued" "catalog_run meanwhile"
  shows "cstep\<^sup>*\<^sup>* c (fst (refresh t queued meanwhile fetch force c))"
proof -
  have 1: "cstep\<^sup>*\<^sup>* c (queued c)" by (rule catalog_runD [OF assms(1) rtranclp.rtrancl_refl])
  have 2: "cstep\<^sup>*\<^sup>* c (meanwhile (queued c))" by (rule catalog_runD [OF assms(2) 1])
  show ?thesis
    using 1 2 catalog_then [OF c_error 2] catalog_then [OF c_accept 2]
    by (cases "fetch (C_client (queued c))") (simp_all add: refresh_def Let_def)
qed

lemma EnsureFresh_run:
  assumes "catalog_run queued" "catalog_run meanwhile"
  shows "cstep\<^sup>*\<^sup>* c (fst (EnsureFresh t queued meanwhile fetch c))"
  using refresh_run [OF assms, of c t fetch False]
  by (cases "refresh t queued meanwhile fetch False c") (simp add: EnsureFresh_def)

lemma StartLatencyChecks_run: "cstep c (StartLatencyChecks t code c)"
  unfolding StartLatencyChecks_def by (rule c_start)

lemma SelectNode_run:
  assumes "catalog_run others"
  shows "cstep\<^sup>*\<^sup>* c (fst (SelectNode t others ctxErr countries policy c))"
proof -
  have "cstep\<^sup>*\<^sup>* a (fold (\<lambda>code. startLatencyChecks t code 10) codes c)" if "cstep\<^sup>*\<^sup>* a c" for a c codes
    using that by (induction codes arbitrary: c) (auto intro: catalog_then [OF c_start])
  then have "cstep\<^sup>*\<^sup>* c (others (fold (\<lambda>code. startLatencyChecks t code 10) codes c))" for codes
    by (intro catalog_runD [OF assms]) simp
  then show ?thesis by (simp add: SelectNode_def Let_def split: sum.splits option.splits)
qed

lemma switch_target_run:
  assumes "catalog_run (SW_queued io)" "catalog_run (SW_meanwhile io)"
  shows "cstep\<^sup>*\<^sup>* c (fst (switch_target io i c))"
proof -
  obtain c1 err where e: "EnsureFresh (SW_times io) (SW_queued io) (SW_meanwhile io) (SW_fetch io) c = (c1, err)" by fastforce
  have 1: "cstep\<^sup>*\<^sup>* c c1" using EnsureFresh_run [OF assms, of c "SW_times io" "SW_fetch io"] e by simp
  show ?thesis
    using 1 catalog_then [OF StartLatencyChecks_run 1]
    by (cases err) (simp_all add: switch_target_def e alternateNode_def Let_def split: option.splits)
qed

section \<open>States of the program\<close>

text \<open>The states of manager and catalogue that the program meets.  The manager is in a state that it reaches
  from those in \<open>origin\<close>: all its initial states, or the state at some moment.\<close>

definition routes_ok :: "(Manager \<Rightarrow> bool) \<Rightarrow> Routes \<Rightarrow> bool" where
  "routes_ok origin w \<longleftrightarrow> reach origin mstep (W_manager w) \<and> reach cinit cstep (W_catalog w)"

text \<open>A restart reads back the configuration in memory: the file holds it, or there is no file and it is the
  default one.\<close>

definition reads_back :: "bool \<Rightarrow> ConfigStore \<Rightarrow> bool" where
  "reads_back windows s \<longleftrightarrow> configFile s = Holds (cfg s) \<or> configFile s = Absent \<and> cfg s = defaultConfig windows"

definition app_ok :: "(Manager \<Rightarrow> bool) \<Rightarrow> bool \<Rightarrow> App \<Rightarrow> bool" where
  "app_ok origin windows app \<longleftrightarrow> routes_ok origin (A_routes app) \<and> reads_back windows (A_store app)
     \<and> reach auth_init auth_step (A_auth app)"

lemma manager_set [simp]: "app_manager (set_manager m app) = m" "app_manager (set_catalog c app) = app_manager app"
  "app_manager (app\<lparr>A_store := s\<rparr>) = app_manager app" "app_manager (app\<lparr>A_auth := a\<rparr>) = app_manager app"
  "app_catalog (set_catalog c app) = c" "app_catalog (set_manager m app) = app_catalog app"
  "app_catalog (app\<lparr>A_store := s\<rparr>) = app_catalog app"
  by (simp_all add: set_manager_def set_catalog_def)

definition switch_ok :: "SwitchIO \<Rightarrow> bool" where
  "switch_ok io \<longleftrightarrow> catalog_run (SW_queued io) \<and> catalog_run (SW_meanwhile io)"

definition round_ok :: "RoundIO \<Rightarrow> bool" where
  "round_ok x \<longleftrightarrow> (\<forall>m. mstep\<^sup>*\<^sup>* m (RO_meanwhile x m)) \<and> (\<forall>k. switch_ok (RO_switch x k))
     \<and> (\<forall>w. mstep\<^sup>*\<^sup>* (W_manager w) (W_manager (RO_before x w)) \<and> cstep\<^sup>*\<^sup>* (W_catalog w) (W_catalog (RO_before x w)))"

subsection \<open>What a request may meet\<close>

text \<open>The clock does not go back, salts have sixteen bytes, a configuration file that must be
  rewritten in place is not left half written, and the catalogue's other users act by its operations.\<close>

definition request_ok :: "ApiIO \<Rightarrow> App \<Rightarrow> bool" where
  "request_ok io app \<longleftrightarrow> clock_after (IO_now io 0) (A_auth app) \<and> 0 \<le> IO_now io 0 \<and> salt_ok (IO_password io)
     \<and> whole_rewrite (IO_save io)
     \<and> catalog_run (IO_queued io) \<and> catalog_run (IO_meanwhile io) \<and> catalog_run (IO_others io)"

context atomic_update
begin

lemma keeps_reading_back:
  assumes "reads_back w s" "whole_rewrite io" shows "reads_back w (fst (update io s))"
proof (cases "update io s")
  case (Pair s' err)
  show ?thesis
  proof (cases err)
    case None
    with committed [of io s s'] Pair show ?thesis by (simp add: reads_back_def)
  next
    case (Some e)
    with failed_file [of io s s' e] Pair assms show ?thesis by simp
  qed
qed

end

lemma write_reads_back:
  assumes "reads_back w s" "whole_rewrite io"
  shows "reads_back w (fst (UpdateRuntime io x s))" "reads_back w (fst (UpdateUpstream io u s))"
    "reads_back w (fst (UpdateClient random io v s))" "reads_back w (fst (ClearLegacyAuth io s))"
proof -
  show "reads_back w (fst (UpdateRuntime io x s))" by (rule runtime_update.keeps_reading_back [OF assms])
  show "reads_back w (fst (UpdateUpstream io u s))" by (rule upstream_update.keeps_reading_back [OF assms])
  show "reads_back w (fst (UpdateClient random io v s))"
    unfolding fst_client_update by (rule client_update.keeps_reading_back [OF assms])
  show "reads_back w (fst (ClearLegacyAuth io s))"
  proof (cases rule: ClearLegacyAuth_cases [of io s])
    case (failed s' e)
    with assms show ?thesis by simp
  qed (use assms in \<open>simp_all add: reads_back_def\<close>)
qed

section \<open>The program acts on the manager by runs\<close>

locale manager_origin =
  fixes origin :: "Manager \<Rightarrow> bool"
  assumes origin_reachable: "origin m \<Longrightarrow> reach minit mstep m"
begin

lemma from_origin: "reach origin mstep m \<Longrightarrow> reach minit mstep m"
  by (induction rule: reach.induct) (auto intro: origin_reachable reach_step)

lemma origin_inv: "reach origin mstep m \<Longrightarrow> minv m"
  by (rule manager.reach_inv [OF from_origin])

lemma origin_run: "reach origin mstep m \<Longrightarrow> mstep\<^sup>*\<^sup>* m m' \<Longrightarrow> reach origin mstep m'"
  by (erule rtranclp_induct) (auto intro: reach_step)

subsection \<open>Rounds of the health monitor\<close>

lemma switchNode_reach: "reach origin mstep m \<Longrightarrow> reach origin mstep (fst (switchNode e node act m))"
  using origin_run [OF _ startNode_run [OF origin_inv]]
  by (cases act) (simp_all add: switchNode_def ActivateNode_def StartNode_def)

lemma applyProbeResult_ok:
  assumes "routes_ok origin w" "switch_ok io" shows "routes_ok origin (applyProbeResult t io allow res w)"
proof -
  let ?i = "PR_instance res"
  obtain c target where s: "switch_target io ?i (W_catalog w) = (c, target)" by fastforce
  have c: "reach cinit cstep c"
    using switch_target_run [of io "W_catalog w" ?i] assms s catalog.reach_rtranclp
    by (auto simp: switch_ok_def routes_ok_def)
  have m: "reach origin mstep (fst (switchNode (SW_env io) node (PR_active res) (W_manager w)))" for node
    using assms(1) switchNode_reach by (simp add: routes_ok_def)
  then have sw: "reach origin mstep m'" if "switchNode (SW_env io) node (PR_active res) (W_manager w) = (m', err)" for node m' err
    using that by (metis fst_conv)
  show ?thesis
    using assms(1) c sw
    by (cases "PR_err res"; cases target)
      (auto simp: applyProbeResult_def Let_def s routes_ok_def recordSwitchError_def set_record_def
        split: prod.splits option.splits)
qed

lemma apply_results_ok: "routes_ok origin w \<Longrightarrow> (\<And>k. switch_ok (io k)) \<Longrightarrow> routes_ok origin (apply_results t io allow results w)"
  by (induction t io allow results w rule: apply_results.induct) (simp_all add: applyProbeResult_ok)

lemma runOnce_ok:
  assumes "routes_ok origin w" "\<And>x. mstep\<^sup>*\<^sup>* x (meanwhile x)" "\<And>k. switch_ok (io k)"
  shows "\<exists>w'. runOnce probe meanwhile arrive t io w = Some w' \<and> routes_ok origin w'"
proof -
  have r: "reach origin mstep (W_manager w)" using assms(1) by (simp add: routes_ok_def)
  obtain state where s: "State (W_manager w) = Some state" using state_report_complete [OF from_origin [OF r]] by blast
  have "reach origin mstep (meanwhile (W_manager w))" by (rule origin_run [OF r assms(2)])
  then have "routes_ok origin (w\<lparr>W_manager := meanwhile (W_manager w), W_monitor := mon\<rparr>)" for mon
    using assms(1) by (simp add: routes_ok_def)
  then show ?thesis using apply_results_ok [OF _ assms(3)] by (simp add: runOnce_def s Let_def)
qed

lemma StartMonitor_ok:
  "routes_ok origin w \<Longrightarrow> list_all round_ok rounds \<Longrightarrow> \<exists>w'. StartMonitor rounds w = Some w' \<and> routes_ok origin w'"
proof (induction rounds arbitrary: w)
  case (Cons x rounds)
  have "routes_ok origin (RO_before x w)"
    using Cons.prems origin_run catalog.reach_rtranclp by (auto simp: round_ok_def routes_ok_def)
  then obtain w1 where "runOnce (RO_probe x) (RO_meanwhile x) (RO_arrive x) (RO_times x) (RO_switch x) (RO_before x w) = Some w1"
      "routes_ok origin w1"
    using runOnce_ok [of "RO_before x w" "RO_meanwhile x" "RO_switch x" "RO_probe x" "RO_arrive x" "RO_times x"] Cons.prems
    by (auto simp: round_ok_def)
  with Cons show ?case by simp
qed simp

lemma ok_manager: "app_ok origin w app \<Longrightarrow> mstep\<^sup>*\<^sup>* (app_manager app) m \<Longrightarrow> app_ok origin w (set_manager m app)"
  using origin_run by (auto simp: app_ok_def set_manager_def routes_ok_def)

lemma ok_catalog: "app_ok origin w app \<Longrightarrow> cstep\<^sup>*\<^sup>* (app_catalog app) c \<Longrightarrow> app_ok origin w (set_catalog c app)"
  using catalog.reach_rtranclp by (auto simp: app_ok_def set_catalog_def routes_ok_def)

lemma ok_auth: "app_ok origin w app \<Longrightarrow> auth_step (A_auth app) a \<Longrightarrow> app_ok origin w (app\<lparr>A_auth := a\<rparr>)"
  by (auto simp: app_ok_def intro: reach_step)

lemma ok_store: "app_ok origin w app \<Longrightarrow> reads_back w s \<Longrightarrow> app_ok origin w (app\<lparr>A_store := s\<rparr>)"
  by (simp add: app_ok_def)

lemma app_okD: "app_ok origin w app \<Longrightarrow> minv (app_manager app)" "app_ok origin w app \<Longrightarrow> reads_back w (A_store app)"
  "app_ok origin w app \<Longrightarrow> reach origin mstep (app_manager app)"
  by (auto simp: app_ok_def routes_ok_def origin_inv)

subsection \<open>Handlers\<close>

lemma ensure_fresh_ok:
  assumes "app_ok origin w app" "request_ok io app" "ensure_fresh io app = (app1, err)"
  shows "app_ok origin w app1"
proof -
  have "cstep\<^sup>*\<^sup>* (app_catalog app) (fst (EnsureFresh (IO_now io) (IO_queued io) (IO_meanwhile io) (IO_fetch io) (app_catalog app)))"
    using assms(2) by (intro EnsureFresh_run) (simp_all add: request_ok_def)
  with ok_catalog [OF assms(1)] assms(3) show ?thesis by (auto simp: ensure_fresh_def split: prod.splits)
qed

lemma country_action_ok:
  assumes "app_ok origin w app" "mstep\<^sup>*\<^sup>* (app_manager app) (fst outcome)"
  shows "app_ok origin w (fst (country_action outcome b app))"
  using ok_manager [OF assms] by (cases outcome; cases "snd outcome") (simp_all add: country_action_def)

lemma open_session_ok: "app_ok origin w app \<Longrightarrow> app_ok origin w (fst (open_session io r st b app))"
  using ok_auth [of w app] any_session(1) [of "A_auth app" "IO_session io" "IO_now io 1" "IO_token_now io" r]
  by (cases "CreateSession (IO_session io) (IO_now io 1) (IO_token_now io) r (A_auth app)")
    (auto simp: open_session_def split: sum.splits)

lemma post_setup_ok:
  assumes "app_ok origin w app" "request_ok io app" shows "app_ok origin w (fst (post_setup_password io r app))"
proof (cases "decodeJSON asPassword (IO_body io)")
  case (Inr password)
  obtain a err where s: "Setup (IO_password io) password (A_auth app) = (a, err)" by fastforce
  have "app_ok origin w (app\<lparr>A_auth := a\<rparr>)"
    using ok_auth [OF assms(1), of a] any_setup [of "IO_password io" "A_auth app" password] assms(2) s by (simp add: request_ok_def)
  then show ?thesis using open_session_ok by (cases err) (simp_all add: post_setup_password_def Inr s)
qed (simp add: post_setup_password_def assms)

lemma post_login_ok:
  assumes "app_ok origin w app" "request_ok io app" shows "app_ok origin w (fst (post_login io r app))"
proof (cases "decodeJSON asPassword (IO_body io)")
  case (Inr password)
  obtain a ok d where s: "authenticateAt (loginClientKey r) password (IO_now io 0) (A_auth app) = (a, ok, d)"
    by (cases "authenticateAt (loginClientKey r) password (IO_now io 0) (A_auth app)")
  have "app_ok origin w (app\<lparr>A_auth := a\<rparr>)"
    using ok_auth [OF assms(1), of a] any_login [of "IO_now io 0" "A_auth app" "loginClientKey r" password] assms(2) s
    by (simp add: request_ok_def)
  then show ?thesis using open_session_ok by (simp add: post_login_def Inr s Let_def)
qed (simp add: post_login_def assms)

lemma post_logout_ok: "app_ok origin w app \<Longrightarrow> app_ok origin w (fst (post_logout r app))"
  using ok_auth [of w app] any_session(2) [of "A_auth app" r]
  by (cases "DeleteSession r (A_auth app)") (simp add: post_logout_def)

lemma put_client_ok:
  assumes "app_ok origin w app" "request_ok io app" shows "app_ok origin w (fst (put_client io app))"
proof (cases "decodeJSON asClient (IO_body io)")
  case (Inr update)
  obtain s res where u: "UpdateClient (IO_keyBytes io) (IO_save io) update (A_store app) = (s, res)" by fastforce
  have 1: "app_ok origin w (app\<lparr>A_store := s\<rparr>)"
    using ok_store [OF assms(1), of s] write_reads_back(3) [OF app_okD(2) [OF assms(1)], of "IO_save io" "IO_keyBytes io" update] assms(2) u
    by (simp add: request_ok_def)
  show ?thesis
    using 1 ok_manager [OF 1 one_step [OF s_client_key]] by (cases res) (simp_all add: put_client_def Inr u Let_def)
qed (simp add: put_client_def assms)

lemma put_runtime_ok:
  assumes "app_ok origin w app" "request_ok io app" shows "app_ok origin w (fst (put_runtime io app))"
proof (cases "decodeJSON asRuntime (IO_body io)")
  case (Inr settings)
  obtain s err where u: "UpdateRuntime (IO_save io) settings (A_store app) = (s, err)" by fastforce
  have 1: "app_ok origin w (app\<lparr>A_store := s\<rparr>)"
    using ok_store [OF assms(1), of s] write_reads_back(1) [OF app_okD(2) [OF assms(1)], of "IO_save io" settings] assms(2) u
    by (simp add: request_ok_def)
  have "mstep\<^sup>*\<^sup>* (app_manager app) (UpdateCircuitRotateMinutes (RS_CircuitRotateMinutes settings)
      (UpdateMaxRunning (IO_env io) (RS_MaxRunning settings) (app_manager app)))"
    by (rule run_then [OF UpdateMaxRunning_run UpdateCircuitRotateMinutes_run])
  with 1 ok_manager [OF 1] show ?thesis by (cases err) (simp_all add: put_runtime_def Inr u Let_def)
qed (simp add: put_runtime_def assms)

lemma put_upstream_ok:
  assumes "app_ok origin w app" "request_ok io app" shows "app_ok origin w (fst (put_upstream io app))"
proof (cases "decodeJSON asUpstream (IO_body io)")
  case (Inr update)
  obtain s err where u: "UpdateUpstream (IO_save io) update (A_store app) = (s, err)" by fastforce
  let ?app1 = "app\<lparr>A_store := s\<rparr>" and ?conf = "environment_upstream (IO_getenv io) (cfg s)"
  have 1: "app_ok origin w ?app1"
    using ok_store [OF assms(1), of s] write_reads_back(2) [OF app_okD(2) [OF assms(1)], of "IO_save io" update] assms(2) u
    by (simp add: request_ok_def)
  obtain m merr where p: "UpdateUpstreamProxy (IO_control io) ?conf (app_manager app) = (m, merr)" by fastforce
  have 2: "app_ok origin w (set_manager m ?app1)"
    using ok_manager [OF 1, of m] UpdateUpstreamProxy_run [of "app_manager app" "IO_control io" ?conf] p by simp
  have 3: "app_ok origin w (set_catalog (UpdateCatalogUpstream ?conf (app_catalog app)) (set_manager m ?app1))"
    by (rule ok_catalog [OF 2]) (auto intro: c_upstream)
  show ?thesis using 1 2 3 by (cases err; cases merr) (simp_all add: put_upstream_def Inr u p Let_def)
qed (simp add: put_upstream_def assms)

lemma put_password_ok:
  assumes "app_ok origin w app" "request_ok io app" shows "app_ok origin w (fst (put_password io r app))"
proof (cases "decodeJSON asChange (IO_body io)")
  case (Inr input)
  obtain current new where i: "input = (current, new)" by fastforce
  obtain a err where ch: "Change (IO_password io) current new (A_auth app) = (a, err)" by fastforce
  have 1: "app_ok origin w (app\<lparr>A_auth := a\<rparr>)"
    using ok_auth [OF assms(1), of a] any_change [of "IO_password io" "A_auth app" current new] assms(2) ch by (simp add: request_ok_def)
  obtain s serr where cl: "ClearLegacyAuth (IO_save io) (A_store app) = (s, serr)" by fastforce
  have "reads_back w s"
    using write_reads_back(4) [OF app_okD(2) [OF assms(1)], of "IO_save io"] assms(2) cl by (simp add: request_ok_def)
  then have 2: "app_ok origin w (app\<lparr>A_auth := a, A_store := s\<rparr>)" using ok_store [OF 1] by simp
  show ?thesis using 1 2 open_session_ok by (cases err; cases serr) (simp_all add: put_password_def Inr i ch cl)
qed (simp add: put_password_def assms)

lemma exits_ok:
  assumes "app_ok origin w app" "request_ok io app"
  shows "app_ok origin w (fst (get_exit_countries io app))" "app_ok origin w (fst (post_refresh io app))"
    "app_ok origin w (fst (get_exit_nodes io code app))" "app_ok origin w (fst (get_public_countries io app))"
proof -
  obtain app1 err where e: "ensure_fresh io app = (app1, err)" by fastforce
  note 1 = ensure_fresh_ok [OF assms e]
  show "app_ok origin w (fst (get_exit_countries io app))" "app_ok origin w (fst (get_public_countries io app))"
    using 1 by (cases err; simp add: get_exit_countries_def get_public_countries_def e)+
  have "app_ok origin w (set_catalog (StartLatencyChecks t code' (app_catalog app1)) app1)" for t code'
    by (rule ok_catalog [OF 1]) (auto intro: StartLatencyChecks_run)
  then show "app_ok origin w (fst (get_exit_nodes io code app))"
    using 1 assms by (cases err) (simp_all add: get_exit_nodes_def e Let_def)
  have "cstep\<^sup>*\<^sup>* (app_catalog app) (fst (Refresh (IO_now io) (IO_queued io) (IO_meanwhile io) (IO_fetch io) (app_catalog app)))"
    unfolding Refresh_def using assms(2) by (intro refresh_run) (simp_all add: request_ok_def)
  from ok_catalog [OF assms(1) this] show "app_ok origin w (fst (post_refresh io app))"
    by (cases "Refresh (IO_now io) (IO_queued io) (IO_meanwhile io) (IO_fetch io) (app_catalog app)")
      (simp add: post_refresh_def Let_def)
qed

lemma post_activate_ok:
  assumes "app_ok origin w app" "request_ok io app" shows "app_ok origin w (fst (post_activate_node io fp app))"
proof -
  obtain app1 err where e: "ensure_fresh io app = (app1, err)" by fastforce
  note 1 = ensure_fresh_ok [OF assms e]
  have "app_ok origin w (fst (country_action (ActivateNode (IO_env io) node (app_manager app1)) None app1))" for node
    unfolding ActivateNode_def by (rule country_action_ok [OF 1 startNode_run [OF app_okD(1) [OF 1]]])
  with 1 show ?thesis by (cases err) (simp_all add: post_activate_node_def e split: option.splits)
qed

lemma post_route_ok:
  assumes "app_ok origin w app" "request_ok io app" shows "app_ok origin w (fst (post_route io r app))"
proof (cases "decodeJSON asRoute (IO_body io)")
  case (Inr input)
  let ?candidates = "if RR_Country input \<noteq> [] then RR_Country input # RR_Countries input else RR_Countries input"
  obtain app1 err where e: "ensure_fresh io app = (app1, err)" by fastforce
  note 1 = ensure_fresh_ok [OF assms e]
  obtain c sel where s: "SelectNode (IO_now io 4) (IO_others io) (IO_ctxErr io) ?candidates (RR_Policy input) (app_catalog app1) = (c, sel)"
    by fastforce
  have "cstep\<^sup>*\<^sup>* (app_catalog app1) c"
    using SelectNode_run [of "IO_others io" "app_catalog app1" "IO_now io 4" "IO_ctxErr io" ?candidates "RR_Policy input"] assms(2) s
    by (simp add: request_ok_def)
  note 2 = ok_catalog [OF 1 this]
  show ?thesis
  proof (cases err)
    case (Some x)
    with 1 show ?thesis by (simp add: post_route_def Inr e Let_def)
  next
    case None
    show ?thesis
    proof (cases sel)
      case (Inl x)
      with 2 None show ?thesis by (simp add: post_route_def Inr e s Let_def)
    next
      case sel: (Inr node)
      obtain m merr where m: "StartNode (IO_env io) node (app_manager app1) = (m, merr)" by fastforce
      obtain m1 port where p: "EnsureCountryProxy (IO_listen io) (N_CountryCode node) m = (m1, port)" by fastforce
      obtain m2 route where q: "clientRouteForRequest (IO_listen io) (A_cfg app) r (N_CountryCode node) m1 = (m2, route)" by fastforce
      have a: "mstep\<^sup>*\<^sup>* (app_manager app1) m"
        using startNode_run [OF app_okD(1) [OF 1], of "IO_env io" node False] m by (simp add: StartNode_def)
      have b: "mstep\<^sup>*\<^sup>* (app_manager app1) m1"
        using run_then [OF a EnsureCountryProxy_run [of m "IO_listen io" "N_CountryCode node"]] p by simp
      have d: "mstep\<^sup>*\<^sup>* (app_manager app1) m2"
        using run_then [OF b clientRouteForRequest_run [of m1 "IO_listen io" "A_cfg app" r "N_CountryCode node"]] q by simp
      have "app_ok origin w (set_manager x (set_catalog c app1))" if "mstep\<^sup>*\<^sup>* (app_manager app1) x" for x
        using ok_manager [OF 2, of x] that by simp
      then show ?thesis
        using a b d by (cases merr; cases port) (simp_all add: post_route_def Inr e None s sel m p q Let_def)
    qed
  qed
qed (simp add: post_route_def assms)

lemma get_route_ok: "app_ok origin w app \<Longrightarrow> app_ok origin w (fst (get_route io r code app))"
  using ok_manager [of w app] clientRouteForRequest_run [of "app_manager app" "IO_listen io" "A_cfg app" r code]
  by (cases "clientRouteForRequest (IO_listen io) (A_cfg app) r code (app_manager app)")
    (auto simp: get_route_def split: sum.splits)

lemma get_log_ok: "fst (get_log io code app) = app"
  by (simp add: get_log_def Let_def split: sum.splits prod.splits option.splits)

lemma tables_ok:
  assumes "app_ok origin w app" "request_ok io app"
  shows "app_ok origin w (fst (country_handler io r code what app))" "app_ok origin w (fst (settings_handler io r what app))"
    "app_ok origin w (fst (client_handler io r segments app))"
proof -
  show "app_ok origin w (fst (country_handler io r code what app))"
    using assms(1) by (simp add: country_handler_def Let_def country_action_ok runs_by get_log_ok)
  show "app_ok origin w (fst (settings_handler io r what app))"
    using assms by (simp add: settings_handler_def put_client_ok put_runtime_ok put_upstream_ok put_password_ok)
  show "app_ok origin w (fst (client_handler io r segments app))"
    using assms by (simp add: client_handler_def exits_ok post_route_ok get_route_ok country_action_ok runs_by)
qed

lemma web_routes_ok:
  assumes "app_ok origin w app" "request_ok io app" shows "app_ok origin w (fst (web_routes io r app))"
proof -
  have "app_ok origin w (fst (api_handler io r segments app))" for segments
    using assms
    by (simp add: api_handler_def get_session_def post_setup_ok post_login_ok post_logout_ok tables_ok exits_ok
        post_activate_ok Let_def)
  then have "app_ok origin w (fst (serve io r app))" using assms(1) by (simp add: serve_def Let_def)
  then have "app_ok origin w (fst (authAPI serve io r app))" using assms(1) by (simp add: authAPI_def)
  then show ?thesis by (cases "authAPI serve io r app") (simp add: web_routes_def securityHeaders_def)
qed

end

section \<open>The program as a system\<close>

lemma start_manager_reach:
  assumes "validate conf = None" "port_sums_fit conf"
  shows "reach minit mstep (start_manager io conf)"
proof -
  let ?m = "NewManager conf (M_stateReadable io) (M_stateFile io)"
  let ?r = "restored_manager conf (M_stateReadable io) (M_stateFile io)"
  let ?s = "StartCountryProxies (fst (CleanupStaleInstanceDirs (M_scan io) (M_remove io) ?m))"
  have r: "reach minit mstep (StartCountryProxies ?r)" using assms by (intro reach_init) (auto simp: minit_def)
  have "?s\<lparr>active := resumeActive ?s\<rparr> = fst (CleanupStaleInstanceDirs (M_scan io) (M_remove io) (StartCountryProxies ?r))"
    by (cases "M_scan io") (simp_all add: StartCountryProxies_def CleanupStaleInstanceDirs_def restored_manager_def stale_dirs_def)
  then have s: "reach minit mstep (?s\<lparr>active := resumeActive ?s\<rparr>)"
    using reach_step [OF r s_cleanup] by simp
  show ?thesis
    unfolding start_manager_def Let_def
    by (rule manager.reach_rtranclp [OF s Restore_run [OF manager.reach_inv [OF s]]])
qed

text \<open>Requests, rounds of the monitor, and steps of the goroutines of manager and catalogue.\<close>

definition pinit :: "bool \<Rightarrow> App \<Rightarrow> bool" where
  "pinit windows app \<longleftrightarrow> (\<exists>io ex configPath. main_start windows io ex configPath False = Serving app) \<and> port_sums_fit (A_cfg app)"

inductive pstep :: "App \<Rightarrow> App \<Rightarrow> bool" where
  p_request: "request_ok io app \<Longrightarrow> pstep app (fst (web_routes io r app))"
| p_monitor: "list_all round_ok rounds \<Longrightarrow> StartMonitor rounds (A_routes app) = Some w \<Longrightarrow> pstep app (app\<lparr>A_routes := w\<rparr>)"
| p_manager: "mstep (app_manager app) m \<Longrightarrow> pstep app (set_manager m app)"
| p_catalog: "cstep (app_catalog app) c \<Longrightarrow> pstep app (set_catalog c app)"

inductive_cases pstep_cases: "pstep app app'"

lemma pinit_ok:
  assumes "pinit windows app" shows "app_ok minit windows app"
proof -
  obtain io configPath where s: "start_program windows io configPath = Inr app" and fit: "port_sums_fit (A_cfg app)"
  proof -
    obtain io ex configPath where m: "main_start windows io ex configPath False = Serving app" and fit: "port_sums_fit (A_cfg app)"
      using assms by (auto simp: pinit_def)
    then have "start_program windows io configPath = Inr app"
      by (cases "start_program windows io configPath") (simp_all add: main_start_def)
    then show thesis using fit by (rule that)
  qed
  obtain loaded where l: "loadConfig windows (M_getenv io) (M_configFile io) = Inr loaded"
    using s by (auto simp: start_program_def split: sum.splits)
  obtain auth where a: "NewAuthStore (Effective loaded) (M_passwordFile io) = Inr auth"
    using s l by (auto simp: start_program_def Let_def split: sum.splits option.splits)
  have app: "A_routes app = \<lparr>W_monitor = NewRouteHealthMonitor, W_manager = start_manager io (Effective loaded),
        W_catalog = NewExitCatalog (Effective loaded)\<rparr>" "A_auth app = auth" "A_cfg app = Effective loaded"
      "A_store app = NewConfigStore configPath (Stored loaded) (config_file windows (M_configFile io))"
    using s l a by (auto simp: start_program_def Let_def split: option.splits)
  have v: "validate (Effective loaded) = None" "reads_back windows (A_store app)"
    using l by (auto simp: loadConfig_def Let_def app reads_back_def NewConfigStore_def config_file_def
        split: file_read.splits option.splits)
  have "reach minit mstep (start_manager io (Effective loaded))" using v(1) fit app(3) by (intro start_manager_reach) simp_all
  moreover have "reach cinit cstep (NewExitCatalog (Effective loaded))" by (rule reach_init) (auto simp: cinit_def)
  moreover have "reach auth_init auth_step auth" using a by (intro reach_init) (auto simp: auth_init_def)
  ultimately show ?thesis using v(2) by (simp add: app_ok_def routes_ok_def app)
qed

context manager_origin
begin

lemma pstep_ok: "app_ok origin w app \<Longrightarrow> pstep app app' \<Longrightarrow> app_ok origin w app'"
proof (erule pstep_cases)
  fix io r assume "app_ok origin w app" "app' = fst (web_routes io r app)" "request_ok io app"
  then show "app_ok origin w app'" by (simp add: web_routes_ok)
next
  fix rounds x
  assume a: "app_ok origin w app" "app' = app\<lparr>A_routes := x\<rparr>" "list_all round_ok rounds" "StartMonitor rounds (A_routes app) = Some x"
  then have "routes_ok origin x" using StartMonitor_ok [of "A_routes app" rounds] by (auto simp: app_ok_def)
  with a(1,2) show "app_ok origin w app'" by (simp add: app_ok_def)
qed (auto intro: ok_manager ok_catalog)

end

interpretation any_origin: manager_origin minit
  by unfold_locales (rule reach_init)

interpretation program: invariant_system "pinit windows" pstep "app_ok minit windows" for windows
  by unfold_locales (auto intro: pinit_ok any_origin.pstep_ok)

text \<open>What happens to the manager from one moment of the program on is a run of its own system.\<close>

definition this_moment :: "Manager \<Rightarrow> Manager \<Rightarrow> bool" where
  "this_moment m0 m \<longleftrightarrow> m = m0 \<and> reach minit mstep m0"

interpretation moment: manager_origin "this_moment m0" for m0
  by unfold_locales (simp add: this_moment_def)

lemma reach_moment: "reach (this_moment m0) mstep m \<Longrightarrow> mstep\<^sup>*\<^sup>* m0 m"
  by (induction rule: reach.induct) (auto simp: this_moment_def)

lemma pstep_manager_run:
  assumes "app_ok minit w app" "pstep app app'"
  shows "mstep\<^sup>*\<^sup>* (app_manager app) (app_manager app')"
proof -
  have "app_ok (this_moment (app_manager app)) w app"
    using assms(1) by (auto simp: app_ok_def routes_ok_def this_moment_def intro: reach_init)
  then have "app_ok (this_moment (app_manager app)) w app'" using assms(2) by (rule moment.pstep_ok)
  then show ?thesis by (intro reach_moment) (simp add: app_ok_def routes_ok_def)
qed

section \<open>Settings that the environment hides\<close>

text \<open>loadConfig validates the configuration in force only.  A stored upstream address that is not valid but
  is overridden by the environment lets the program start, and then every change of the other settings
  is refused, since the stored configuration is validated as a whole.\<close>

definition hidden_upstream :: Config where
  "hidden_upstream = (defaultConfig False)\<lparr>UpstreamSOCKS5 := ''proxy''\<rparr>"

lemma hidden_setting_blocks_updates:
  "loadConfig False (\<lambda>v. if v = ''TOR_UPSTREAM_SOCKS5'' then ''127.0.0.1:1080'' else []) (File_decoded (\<lambda>_. hidden_upstream))
     = Inr \<lparr>Stored = hidden_upstream, Effective = hidden_upstream\<lparr>UpstreamSOCKS5 := ''127.0.0.1:1080''\<rparr>\<rparr>"
  "snd (UpdateRuntime io \<lparr>RS_MaxRunning = 3, RS_CircuitRotateMinutes = 10\<rparr> (NewConfigStore p hidden_upstream file)) \<noteq> None"
proof -
  have "validate (hidden_upstream\<lparr>UpstreamSOCKS5 := ''127.0.0.1:1080''\<rparr>) = None" by code_simp
  moreover have "hidden_upstream\<lparr>UpstreamSOCKS5 := x, UpstreamUsername := [], UpstreamPassword := []\<rparr> = hidden_upstream\<lparr>UpstreamSOCKS5 := x\<rparr>"
    for x by (simp add: hidden_upstream_def defaultConfig_def)
  ultimately show "loadConfig False (\<lambda>v. if v = ''TOR_UPSTREAM_SOCKS5'' then ''127.0.0.1:1080'' else []) (File_decoded (\<lambda>_. hidden_upstream))
     = Inr \<lparr>Stored = hidden_upstream, Effective = hidden_upstream\<lparr>UpstreamSOCKS5 := ''127.0.0.1:1080''\<rparr>\<rparr>"
    by (simp add: loadConfig_def effective_config_def Let_def)
  have "validate (hidden_upstream\<lparr>MaxRunning := 3, CircuitRotateMinutes := 10\<rparr>) \<noteq> None" by code_simp
  then show "snd (UpdateRuntime io \<lparr>RS_MaxRunning = 3, RS_CircuitRotateMinutes = 10\<rparr> (NewConfigStore p hidden_upstream file)) \<noteq> None"
    by (auto simp: UpdateRuntime_def commit_def NewConfigStore_def split: option.splits)
qed

end
