(* ===== verification/Client_Listeners.thy ===== *)
theory Client_Listeners
  imports Manager_Props
begin

text \<open>
  The listeners of the country proxies over the life of the manager: which ports they take, and what the
  end of their context means.
\<close>

section \<open>What no section touches\<close>

text \<open>All sections but those of the proxies keep the listeners, those being opened, their context and the base port, and no section
  takes a country away.\<close>

definition proxy_frame :: "Manager \<Rightarrow> Manager \<Rightarrow> bool" where
  "proxy_frame m m' \<longleftrightarrow> countryListeners m' = countryListeners m \<and> beingOpened m' = beingOpened m \<and> countryProxyCtx m' = countryProxyCtx m
     \<and> CountryProxyPort (mcfg m') = CountryProxyPort (mcfg m) \<and> dom (map_of (instances m)) \<subseteq> dom (map_of (instances m'))"

lemma proxy_frame_refl [simp]: "proxy_frame m m"
  by (simp add: proxy_frame_def)

lemma proxy_frame_trans: "proxy_frame m m1 \<Longrightarrow> proxy_frame m1 m2 \<Longrightarrow> proxy_frame m m2"
  by (auto simp: proxy_frame_def)

named_theorems proxy_by "sections that leave the proxies alone"

lemma pf_modify [proxy_by]: "proxy_frame m m' \<Longrightarrow> proxy_frame m (modify p f m')"
  by (simp add: proxy_frame_def)

lemma pf_spawn [proxy_by]: "proxy_frame m m' \<Longrightarrow> proxy_frame m (spawn t m')"
  by (simp add: proxy_frame_def)

lemma pf_signal [proxy_by]: "proxy_frame m m' \<Longrightarrow> proxy_frame m (signalProcess e p c m')"
  by (simp add: proxy_frame_def signalProcess_def)

lemma pf_rotation [proxy_by]: "proxy_frame m m' \<Longrightarrow> proxy_frame m (cancel_rotation p m')"
  by (simp add: proxy_frame_def cancel_rotation_def split: option.splits)

lemma pf_launch [proxy_by]: "proxy_frame m m' \<Longrightarrow> proxy_frame m (launch f p m')"
  by (simp add: proxy_frame_def launch_def)

lemma pf_remove [proxy_by]: "proxy_frame m m' \<Longrightarrow> proxy_frame m (removeInstanceDir e d m')"
  by (simp add: proxy_frame_def removeInstanceDir_def)

lemma pf_ports [proxy_by]: "proxy_frame m m' \<Longrightarrow> proxy_frame m (releaseInstancePorts p m')"
  by (simp add: proxy_frame_def releaseInstancePorts_def releaseReservedPort_def)

lemma pf_active [proxy_by]: "proxy_frame m m' \<Longrightarrow> proxy_frame m (clear_active_if b code m')"
  by (simp add: proxy_frame_def clear_active_if_def)

lemma pf_prepare: "prepareTorCommand e p d m = (m1, r) \<Longrightarrow> proxy_frame m m1"
  by (auto simp: proxy_frame_def prepareTorCommand_def Let_def split: option.splits)

lemma pf_start [proxy_by]: "proxy_frame m (fst (start_section e code m))"
  by (auto simp: start_section_def Let_def split: option.splits prod.splits
      intro!: pf_remove pf_modify pf_launch dest: pf_prepare)

lemma pf_detached [proxy_by]: "proxy_frame m (fst (startDetached e p suffix m))"
  by (auto simp: startDetached_def Let_def split: option.splits prod.splits
      intro!: pf_remove pf_ports pf_spawn pf_launch dest: pf_prepare)

lemma pf_schedule [proxy_by]: "proxy_frame m (fst (scheduleAutoRestartLocked p reason m))"
  by (simp add: scheduleAutoRestartLocked_def Let_def pf_spawn pf_modify)

lemma pf_reserve: "proxy_frame m (fst (reserve_from n a l m))"
proof (induction n arbitrary: a m)
  case (Suc n)
  have "proxy_frame m (m\<lparr>reservedPorts := x\<rparr>)" for x by (simp add: proxy_frame_def)
  with Suc show ?case
    by (auto simp: Let_def releaseReservedPort_def split: sum.splits option.splits intro: proxy_frame_trans)
qed simp

lemma pf_restore [proxy_by]: "proxy_frame m (fst (restoreAfterReplacementLocked p msg m))"
  by (simp add: restoreAfterReplacementLocked_def Let_def pf_modify)

lemma pf_restarts [proxy_by]: "proxy_frame m (watch_restart p m)" "proxy_frame m (restart_failed p err m)"
  using pf_schedule [of m p "Error (heap m p)"] pf_schedule [of m p "''automatic restart failed: '' @ err"]
  by (auto simp: watch_restart_def restart_failed_def Let_def split_beta intro!: pf_active pf_modify)

lemma pf_replacements [proxy_by]:
  "proxy_frame m (fst (replacement_failed p r sequence message m))" "proxy_frame m (fst (cancel_section p m))"
  "proxy_frame m (fst (reserveLocalPort e m))"
proof -
  show "proxy_frame m (fst (replacement_failed p r sequence message m))" by (simp add: replacement_failed_def pf_restore)
  show "proxy_frame m (fst (cancel_section p m))"
    unfolding cancel_section_def by (rule proxy_frame_trans [OF pf_modify pf_restore]) simp
  show "proxy_frame m (fst (reserveLocalPort e m))" by (simp add: reserveLocalPort_def pf_reserve)
qed

lemma pf_countries [proxy_by]:
  "proxy_frame m (fst (ensureCountry country m))" "proxy_frame m (fst (swap_section p r activate sequence m))"
  by (auto simp: ensureCountry_def swap_section_def Let_def proxy_frame_def add_instance_def allocate_def update_conv
      split: option.splits)

lemma pf_files [proxy_by]: "proxy_frame m (saveRuntimeState e m)" "proxy_frame m (fst (CleanupStaleInstanceDirs scan remove m))"
  by (simp_all add: proxy_frame_def saveRuntimeState_def CleanupStaleInstanceDirs_def Let_def split: dir_scan.splits)

lemma pf_stop [proxy_by]: "proxy_frame m (fst (stop_section code p m))" "proxy_frame m (stopInstance e p m)"
  "proxy_frame m (fst (watch_exit err p c m))" "proxy_frame m (failInstance e p c message m)"
  by (auto simp: stop_section_def stopInstance_def watch_exit_def failInstance_def Let_def proxy_frame_def signalProcess_def
      cancel_rotation_def split: option.splits)

lemma pf_settings [proxy_by]:
  "proxy_frame m (m\<lparr>active := x\<rparr>)" "proxy_frame m (m\<lparr>mcfg := (mcfg m)\<lparr>MaxRunning := k\<rparr>\<rparr>)"
  "proxy_frame m (m\<lparr>mcfg := (mcfg m)\<lparr>CircuitRotateMinutes := k\<rparr>\<rparr>)" "proxy_frame m (UpdateClientAPIKey x m)"
  "proxy_frame m (m\<lparr>mcfg := (mcfg m)\<lparr>UpstreamSOCKS5 := x, UpstreamUsername := y, UpstreamPassword := z\<rparr>\<rparr>)"
  "proxy_frame m (releaseReservedPort port m)" "proxy_frame m (begin_shutdown m)" "proxy_frame m (remember_node p m)"
  "proxy_frame m (forget_node code m)" "proxy_frame m (kill_later p c m)" "proxy_frame m (fst (rotation_tick p ctx m))"
  by (simp_all add: proxy_frame_def UpdateClientAPIKey_def releaseReservedPort_def begin_shutdown_def remember_node_def
      forget_node_def kill_later_def rotation_tick_def Let_def)

lemma pf_sections [proxy_by]:
  "proxy_frame m (startCircuitRotation p m)" "proxy_frame m (fst (acquireInstance code m))"
  "proxy_frame m (fst (activate_section code m))" "proxy_frame m (fst (replace_section p node port control m))"
  "proxy_frame m (refreshBootstrapProgress response p m)" "proxy_frame m (retry_section p m)"
  "proxy_frame m (resumeAfterReplacement p c st m)"
  by (auto simp: proxy_frame_def startCircuitRotation_def cancel_rotation_def acquireInstance_def activate_section_def
      replace_section_def allocate_def refreshBootstrapProgress_def set_progress_def retry_section_def
      resumeAfterReplacement_def Let_def split: option.splits sum.splits)

lemma mstep_proxy:
  assumes "mstep m m'"
  obtains (frame) "proxy_frame m m'"
  | (check) code port where "m' = fst (country_check code port m)" "countryPort (CountryProxyPort (mcfg m)) code = Inr port"
  | (listening) code port where "m' = country_listening code port m" "(code, port) \<in> set (beingOpened m)"
  | (not_listening) code port where "m' = country_not_listening code port m"
  | (cancelled) "m' = proxies_cancelled m"
  | (closed) "m' = close_listeners m"
proof -
  have "proxy_frame m m' \<or> (\<exists>code port. m' = fst (country_check code port m) \<and> countryPort (CountryProxyPort (mcfg m)) code = Inr port)
      \<or> (\<exists>code port. m' = country_listening code port m \<and> (code, port) \<in> set (beingOpened m))
      \<or> (\<exists>code port. m' = country_not_listening code port m) \<or> m' = proxies_cancelled m \<or> m' = close_listeners m"
    using assms
    by (induction rule: mstep.induct)
      (auto simp: proxy_by choose_node_def restart_check_def ready_section_def markInstanceRunning_def store_info_def
        drain_poll_def drain_end_def releaseInstance_def)
  then show thesis using frame check listening not_listening cancelled closed by blast
qed

section \<open>Ports of the listeners\<close>

definition listeners_ok :: "Manager \<Rightarrow> bool" where
  "listeners_ok m \<longleftrightarrow> 1024 \<le> CountryProxyPort (mcfg m) \<and> CountryProxyPort (mcfg m) + 675 < 65535
     \<and> (\<forall>(code, port) \<in> set (countryListeners m) \<union> set (beingOpened m).
          has_key (instances m) code \<and> countryPort (CountryProxyPort (mcfg m)) code = Inr port)"

lemma listeners_ok_frame: "listeners_ok m \<Longrightarrow> proxy_frame m m' \<Longrightarrow> listeners_ok m'"
  by (fastforce simp: listeners_ok_def proxy_frame_def has_key_def)

lemma set_update_subset: "set (AList.update k v al) \<subseteq> insert (k, v) (set al)"
  by (induction al) auto

lemma set_remove1: "x \<in> set (remove1 y xs) \<Longrightarrow> x \<in> set xs"
  using set_remove1_subset by fast

lemma listeners_ok_step: "listeners_ok m \<Longrightarrow> mstep m m' \<Longrightarrow> listeners_ok m'"
proof (erule mstep_proxy)
  fix code port
  assume ok: "listeners_ok m" and m': "m' = country_listening code port m" "(code, port) \<in> set (beingOpened m)"
  have "set (countryListeners m') \<union> set (beingOpened m') \<subseteq> set (countryListeners m) \<union> set (beingOpened m)"
    using m' set_update_subset [of code port "countryListeners m"] by (auto simp: country_listening_def dest: set_remove1)
  with ok show "listeners_ok m'" by (auto simp: listeners_ok_def m'(1) country_listening_def)
next
  assume "listeners_ok m" "proxy_frame m m'"
  then show "listeners_ok m'" by (rule listeners_ok_frame)
qed (auto simp: listeners_ok_def proxies_cancelled_def close_listeners_def country_check_def country_not_listening_def dest: set_remove1)

lemma restored_proxies:
  "mcfg (restored_manager c readable f) = c" "countryListeners (restored_manager c readable f) = []"
  "beingOpened (restored_manager c readable f) = []"
proof -
  have a: "mcfg (add_configured c i cs m) = mcfg m" "countryListeners (add_configured c i cs m) = countryListeners m"
      "beingOpened (add_configured c i cs m) = beingOpened m" for i cs m
    by (induction cs arbitrary: i m) (simp_all add: add_instance_def allocate_def Let_def)
  have l: "mcfg (load_node n m) = mcfg m" "countryListeners (load_node n m) = countryListeners m"
      "beingOpened (load_node n m) = beingOpened m" for n m
    by (simp_all add: load_node_def Let_def)
  have f: "mcfg (fold load_node ns m) = mcfg m" "countryListeners (fold load_node ns m) = countryListeners m"
      "beingOpened (fold load_node ns m) = beingOpened m" for ns m
    by (induction ns arbitrary: m) (simp_all add: l)
  show "mcfg (restored_manager c readable f) = c" "countryListeners (restored_manager c readable f) = []"
      "beingOpened (restored_manager c readable f) = []"
    by (simp_all add: restored_manager_def NewManager_def loadRuntimeState_def a f Let_def empty_manager_def split: file_state.splits)
qed

lemma listeners_ok_init: "minit m \<Longrightarrow> listeners_ok m"
  using validate_ports by (auto simp: minit_def listeners_ok_def restored_proxies StartCountryProxies_def)

interpretation listeners: invariant_system minit mstep listeners_ok
  by unfold_locales (auto intro: listeners_ok_init listeners_ok_step)

lemma canonical_port:
  assumes "listeners_ok m" "canonical_code a" "countryPort (CountryProxyPort (mcfg m)) a = Inr port"
  shows "port = CountryProxyPort (mcfg m) + code_index a" "0 \<le> code_index a" "code_index a \<le> 675"
proof -
  show r: "0 \<le> code_index a" "code_index a \<le> 675" using code_index_range [OF assms(2)] by simp_all
  have "in_int64 (CountryProxyPort (mcfg m) + code_index a)"
    using r assms(1) by (simp add: listeners_ok_def in_int64_def)
  then show "port = CountryProxyPort (mcfg m) + code_index a" using assms(2,3) by (simp add: countryPort_Inr)
qed

text \<open>C25: In every reachable state each listener of a country proxy belongs to a country of the manager and
  is on the fixed port of that country; no two countries share a listening port, and no listener takes the
  SOCKS or control port of an instance with configured ports.\<close>

theorem country_listeners:
  assumes "reach minit mstep m" and "map_of (countryListeners m) a = Some port"
  shows "has_key (instances m) a \<and> countryPort (CountryProxyPort (mcfg m)) a = Inr port
    \<and> (\<forall>b. map_of (countryListeners m) b = Some port \<longrightarrow> b = a)
    \<and> (\<forall>b p. map_of (instances m) b = Some p \<longrightarrow> \<not> dynamicPorts (heap m p) \<longrightarrow>
         port \<notin> {SocksPort (heap m p), controlPort (heap m p)})"
proof -
  have m: "minv m" "listeners_ok m" using assms(1) by (rule manager.reach_inv, rule listeners.reach_inv)
  have known: "has_key (instances m) b \<and> canonical_code b \<and> countryPort (CountryProxyPort (mcfg m)) b = Inr x"
    if "map_of (countryListeners m) b = Some x" for b x
  proof -
    have k: "has_key (instances m) b" "countryPort (CountryProxyPort (mcfg m)) b = Inr x"
      using that m(2) by (auto simp: listeners_ok_def dest!: map_of_SomeD)
    then obtain q where "map_of (instances m) b = Some q" by (auto simp: has_key_def)
    with k show ?thesis using instances_lookup [OF minvD(2) [OF m(1)]] by blast
  qed
  note a = known [OF assms(2)]
  have "b = a" if "map_of (countryListeners m) b = Some port" for b
    using countryPort_injective [of "CountryProxyPort (mcfg m)" b port a] known [OF that] a by simp
  moreover have "port \<notin> {SocksPort (heap m p), controlPort (heap m p)}"
    if p: "map_of (instances m) b = Some p" "\<not> dynamicPorts (heap m p)" for b p
  proof -
    obtain i where i: "i < 676" "SocksPort (heap m p) = BaseSocksPort (mcfg m) + int i"
        "controlPort (heap m p) = BaseSocksPort (mcfg m) + 3000 + int i"
      using static_ports [OF m(1)] instances_lookup [OF minvD(2) [OF m(1)] p(1)] p(2) by blast
    have "range_ok (mcfg m)" using minvD(5) [OF m(1)] by (simp add: countries_ok_def)
    with i canonical_port [OF m(2), of a port] a show ?thesis by (auto simp: range_ok_def)
  qed
  ultimately show ?thesis using a by blast
qed

definition us_opening :: Manager where
  "us_opening = (StartCountryProxies sample_start)\<lparr>beingOpened := [(''us'', 20538)]\<rparr>"

definition us_listening :: Manager where
  "us_listening = country_listening ''us'' 20538 us_opening"

lemma us_opening_reach: "reach minit mstep us_opening"
proof -
  let ?m = "StartCountryProxies sample_start"
  have i: "reach minit mstep ?m"
    by (rule reach_init) (use validate_default_linux default_fits in \<open>auto simp: minit_def sample_start_def\<close>)
  have "countryPort (CountryProxyPort (mcfg sample_start)) ''us'' = Inr 20538" by code_simp
  then have p: "countryPort (CountryProxyPort (mcfg ?m)) ''us'' = Inr 20538" by (simp add: StartCountryProxies_def)
  have "countryListeners sample_start = []" "beingOpened sample_start = []" by code_simp+
  moreover have "has_key (instances sample_start) ''us''" using sample_start_lookup(1) by (simp add: has_key_def)
  ultimately have "fst (country_check ''us'' 20538 ?m) = us_opening"
    by (simp add: country_check_def us_opening_def StartCountryProxies_def has_key_def)
  with reach_step [OF i s_country_check [OF p]] show ?thesis by simp
qed

lemma us_listening_reach: "reach minit mstep us_listening"
  unfolding us_listening_def by (rule reach_step [OF us_opening_reach s_listening]) (simp add: us_opening_def)

theorem country_listeners_witness:
  "map_of (countryListeners us_listening) ''us'' = Some 20538 \<and> SocksPort (heap us_listening 0) \<noteq> 20538"
proof -
  have l: "map_of (countryListeners us_listening) ''us'' = Some 20538"
    by (simp add: us_listening_def us_opening_def StartCountryProxies_def country_listening_def)
  have i: "map_of (instances us_listening) ''us'' = Some 0" "\<not> dynamicPorts (heap us_listening 0)"
    using sample_start_lookup(1,3) by (simp_all add: us_listening_def us_opening_def StartCountryProxies_def country_listening_def)
  have "20538 \<notin> {SocksPort (heap us_listening 0), controlPort (heap us_listening 0)}"
    using country_listeners [OF us_listening_reach l] i by blast
  with l show ?thesis by simp
qed

section \<open>The end of the context\<close>

text \<open>A context that is done stays done.  So a call that comes later is refused, and the listeners that are
  registered later are those of calls that had passed their checks before.\<close>

lemma done_stays: "mstep m m' \<Longrightarrow> countryProxyCtx m = Some True \<Longrightarrow> countryProxyCtx m' = Some True"
  by (erule mstep_proxy)
    (auto simp: proxy_frame_def country_listening_def country_not_listening_def country_check_def proxies_cancelled_def close_listeners_def)

interpretation proxies_end: invariant_system "\<lambda>m. countryProxyCtx m = Some True" mstep "\<lambda>m. countryProxyCtx m = Some True"
  by unfold_locales (auto intro: done_stays)

lemma no_new_listener:
  assumes "countryProxyCtx m = Some True" "mstep\<^sup>*\<^sup>* m m'" "\<not> has_key (countryListeners m') (normalizeCode code)"
  shows "\<exists>err. EnsureCountryProxy listen code m' = (m', Inl err)"
proof -
  have "countryProxyCtx m' = Some True" by (rule proxies_end.rtranclp_inv [OF assms(2) assms(1)])
  with assms(3) show ?thesis by (auto simp: EnsureCountryProxy_def country_check_def Let_def split: sum.splits)
qed

definition known_listeners :: "Manager \<Rightarrow> (string \<times> int) set" where
  "known_listeners m = set (countryListeners m) \<union> set (beingOpened m)"

lemma known_step: "mstep m m' \<Longrightarrow> countryProxyCtx m = Some True \<Longrightarrow> known_listeners m' \<subseteq> known_listeners m"
proof (erule mstep_proxy)
  fix code port
  assume m': "m' = country_listening code port m" "(code, port) \<in> set (beingOpened m)"
  then show "known_listeners m' \<subseteq> known_listeners m"
    using set_update_subset [of code port "countryListeners m"]
    by (auto simp: known_listeners_def country_listening_def dest: set_remove1)
qed (auto simp: known_listeners_def proxy_frame_def country_not_listening_def country_check_def proxies_cancelled_def
    close_listeners_def dest: set_remove1)

lemma late_listeners:
  assumes "mstep\<^sup>*\<^sup>* m m'" "countryProxyCtx m = Some True"
  shows "known_listeners m' \<subseteq> known_listeners m"
  using assms(1)
proof induction
  case (step x y)
  have "countryProxyCtx x = Some True" by (rule proxies_end.rtranclp_inv [OF step(1) assms(2)])
  with known_step [OF step(2)] step(3) show ?case by blast
qed simp

end
