(* ===== verification/Program_Life.thy ===== *)
theory Program_Life
  imports Program_Proofs Client_Listeners
begin

text \<open>
  The life of the program from the moment it serves until main returns: requests, monitor rounds and
  goroutines run all the time, while main goes through its phases.  A signal, a proxy that cannot listen and
  a web server that fails all end the context.
\<close>

section \<open>The system\<close>

text \<open>A request that the web server has accepted may run until the end, since its shutdown gives up after ten
  seconds; so requests are possible in every phase but the last.\<close>

definition linit :: "bool \<Rightarrow> Life \<Rightarrow> bool" where
  "linit windows l \<longleftrightarrow> (\<exists>app. pinit windows app \<and> l = serving app)"

inductive life_step :: "Life \<Rightarrow> Life \<Rightarrow> bool" where
  l_run: "L_phase l < Ended \<Longrightarrow> pstep (L_app l) app \<Longrightarrow> life_step l (l\<lparr>L_app := app\<rparr>)"
| l_signal: "L_phase l < Ended \<Longrightarrow> life_step l (stop_context l)"
| l_proxy: "L_phase l < Ended \<Longrightarrow> snd (proxy_goroutine listened accepts) \<Longrightarrow> life_step l (stop_context l)"
| l_web: "L_phase l < Ended \<Longrightarrow> web_goroutine err \<Longrightarrow> life_step l (stop_context l)"
| l_wake: "L_phase l = Waiting \<Longrightarrow> life_step l (wake l)"
| l_web_closed: "L_phase l = Closing_web \<Longrightarrow> life_step l (web_closed l)"
| l_round: "L_phase l = Stopping_tor \<Longrightarrow> life_step l (tor_round e l)"
| l_timeout: "L_phase l = Stopping_tor \<Longrightarrow> life_step l (tor_timeout ctxErr l)"

inductive_cases life_step_cases: "life_step l l'"

lemma with_manager_simps [simp]:
  "life_manager (with_manager f l) = f (life_manager l)" "L_phase (with_manager f l) = L_phase l"
  "L_error (with_manager f l) = L_error l"
  by (simp_all add: with_manager_def)

lemma phase_simps [simp]:
  "Waiting < Ended" "Closing_web < Ended" "Stopping_tor < Ended" "Waiting \<le> (x :: phase)" "x \<le> Ended"
  "Ended \<le> x \<longleftrightarrow> x = Ended" "Closing_web \<le> x \<longleftrightarrow> x \<noteq> Waiting" "Stopping_tor \<le> x \<longleftrightarrow> x = Stopping_tor \<or> x = Ended"
  "x < Ended \<longleftrightarrow> x \<noteq> Ended" "x \<le> Waiting \<longleftrightarrow> x = Waiting"
  by (cases x; simp add: less_phase_def less_eq_phase_def)+

section \<open>The invariant\<close>

definition life_ok :: "bool \<Rightarrow> Life \<Rightarrow> bool" where
  "life_ok windows l \<longleftrightarrow> app_ok minit windows (L_app l)
     \<and> (Closing_web \<le> L_phase l \<longrightarrow> countryProxyCtx (life_manager l) = Some True)
     \<and> (Stopping_tor \<le> L_phase l \<longrightarrow> shuttingDown (life_manager l))
     \<and> (L_phase l = Ended \<and> L_error l = None \<longrightarrow> alive (life_manager l) = {})
     \<and> (L_phase l < Ended \<longrightarrow> L_error l = None)"

lemma life_okD:
  assumes "life_ok w l"
  shows "app_ok minit w (L_app l)" "minv (life_manager l)" "reach minit mstep (life_manager l)"
  using assms any_origin.app_okD(1) any_origin.app_okD(3) by (auto simp: life_ok_def)

text \<open>In every step the manager makes a run of its own system, and main only goes forward.\<close>

lemma life_step_run:
  assumes "life_ok w l" "life_step l l'"
  shows "mstep\<^sup>*\<^sup>* (life_manager l) (life_manager l')"
  using assms(2)
proof (cases rule: life_step.cases)
  case (l_run app)
  then show ?thesis using pstep_manager_run [OF life_okD(1) [OF assms(1)]] by simp
next
  case (l_round e)
  then show ?thesis using shutdown_round_steps [of "life_manager l" e] by (simp add: tor_round_def split_beta)
qed (auto simp: stop_context_def wake_def web_closed_def tor_timeout_def intro: s_proxies_cancelled s_shutdown)

lemma life_step_phase: "life_step l l' \<Longrightarrow> L_phase l \<le> L_phase l'"
  by (erule life_step_cases) (auto simp: stop_context_def wake_def web_closed_def tor_round_def tor_timeout_def split: prod.splits)

lemma life_step_app:
  assumes "life_ok w l" "life_step l l'"
  shows "app_ok minit w (L_app l')"
proof -
  have m: "app_ok minit w (set_manager m (L_app l))" if "mstep\<^sup>*\<^sup>* (life_manager l) m" for m
    by (rule any_origin.ok_manager [OF life_okD(1) [OF assms(1)] that])
  from assms(2) show ?thesis
  proof (cases rule: life_step.cases)
    case (l_run app)
    then show ?thesis using any_origin.pstep_ok [OF life_okD(1) [OF assms(1)]] by simp
  next
    case (l_round e)
    then show ?thesis
      using m [OF shutdown_round_steps [of "life_manager l" e]] by (simp add: tor_round_def with_manager_def split_beta)
  qed (use m [OF one_step [OF s_proxies_cancelled]] m [OF one_step [OF s_shutdown]] life_okD(1) [OF assms(1)]
      in \<open>simp_all add: stop_context_def wake_def web_closed_def tor_timeout_def with_manager_def\<close>)
qed

lemma down_stays:
  assumes "mstep\<^sup>*\<^sup>* m m'" "minv m" "shuttingDown m"
  shows "shuttingDown m'" "alive m' \<subseteq> alive m"
  using shutdown.rtranclp_inv [OF assms(1) closing_refl [OF assms(2,3)]] closing_alive [of m m'] by (auto simp: closing_def)

lemma life_step_ok:
  assumes "life_ok w l" "life_step l l'" shows "life_ok w l'"
proof -
  note run = life_step_run [OF assms] and inv = life_okD [OF assms(1)]
  have ctx: "countryProxyCtx (life_manager l) = Some True \<Longrightarrow> countryProxyCtx (life_manager l') = Some True"
    by (rule proxies_end.rtranclp_inv [OF run])
  have down: "shuttingDown (life_manager l) \<Longrightarrow> shuttingDown (life_manager l')" by (rule down_stays(1) [OF run inv(2)])
  from assms(2) show ?thesis
  proof (cases rule: life_step.cases)
    case (l_round e)
    have m: "life_manager l' = fst (shutdown_round e (life_manager l))" by (simp add: l_round tor_round_def split_beta)
    have "alive (life_manager l') = {}" if "L_phase l' = Ended"
      using that l_round round_finished [OF inv(2), of e] round_idle [of e "life_manager l"] m
      by (auto simp: tor_round_def split_beta split: if_splits)
    then show ?thesis
      using assms(1) l_round ctx down life_step_app [OF assms] by (auto simp: life_ok_def tor_round_def split_beta)
  qed (use assms(1) ctx down life_step_app [OF assms] in
      \<open>auto simp: life_ok_def stop_context_def wake_def web_closed_def tor_timeout_def begin_shutdown_def\<close>)
qed

lemma linit_ok: "linit w l \<Longrightarrow> life_ok w l"
  using pinit_ok by (auto simp: linit_def life_ok_def serving_def)

interpretation life: invariant_system "linit windows" life_step "life_ok windows" for windows
  by unfold_locales (auto intro: linit_ok life_step_ok)

lemma life_run:
  assumes "life_step\<^sup>*\<^sup>* l l'" "life_ok w l"
  shows "mstep\<^sup>*\<^sup>* (life_manager l) (life_manager l') \<and> L_phase l \<le> L_phase l'"
  using assms(1)
proof (induction rule: rtranclp_induct)
  case (step y z)
  have y: "life_ok w y" by (rule life.rtranclp_inv [OF step.hyps(1) assms(2)])
  show ?case
    using step.IH life_step_run [OF y step.hyps(2)] life_step_phase [OF step.hyps(2)] by (auto intro: rtranclp_trans order.trans)
qed simp

section \<open>A sample life\<close>

definition sample_main :: MainIO where
  "sample_main = \<lparr>M_getenv = (\<lambda>_. []), M_configFile = File_missing, M_mkdirState = None, M_stateReadable = True,
     M_stateFile = Absent, M_scan = Scan_missing, M_remove = (\<lambda>_. None), M_passwordFile = Inr None,
     M_restore = (\<lambda>_ _. calm_env)\<rparr>"

definition sample_example :: ExampleIO where
  "sample_example = \<lparr>EX_marshal = None, EX_mkdir = None, EX_open = None, EX_write = None\<rparr>"

definition sample_serving :: App where
  "sample_serving = projr (start_program False sample_main ''/etc/config.json'')"

lemma sample_load: "loadConfig False (\<lambda>_. []) File_missing = Inr \<lparr>Stored = defaultConfig False, Effective = defaultConfig False\<rparr>"
  by (simp add: loadConfig_def effective_config_def validate_default_linux)

lemma sample_serving_start: "start_program False sample_main ''/etc/config.json'' = Inr sample_serving"
  "A_cfg sample_serving = defaultConfig False"
  by (simp_all add: sample_serving_def start_program_def sample_main_def sample_load NewAuthStore_def Let_def)

lemma sample_serving_init: "pinit False sample_serving"
  unfolding pinit_def
proof
  have "main_start False sample_main sample_example ''/etc/config.json'' False = Serving sample_serving"
    by (simp add: main_start_def sample_serving_start)
  then show "\<exists>io ex configPath. main_start False io ex configPath False = Serving sample_serving" by blast
  show "port_sums_fit (A_cfg sample_serving)" using default_fits by (simp add: sample_serving_start)
qed

lemma sample_life_reach: "reach (linit False) life_step (serving sample_serving)"
  using sample_serving_init by (intro reach_init) (auto simp: linit_def)

definition sample_signalled :: Life where
  "sample_signalled = stop_context (serving sample_serving)"

lemma sample_signalled_reach: "reach (linit False) life_step sample_signalled"
  unfolding sample_signalled_def by (rule reach_step [OF sample_life_reach], rule l_signal) (simp add: serving_def)

lemma sample_signalled_facts: "L_phase sample_signalled = Waiting" "countryProxyCtx (life_manager sample_signalled) = Some True"
  "alive (life_manager sample_signalled) = {}"
proof -
  show "L_phase sample_signalled = Waiting" by (simp add: sample_signalled_def stop_context_def serving_def)
  have c: "countryProxyCtx (app_manager sample_serving) = Some False" by code_simp
  then show "countryProxyCtx (life_manager sample_signalled) = Some True"
    by (simp add: sample_signalled_def stop_context_def serving_def proxies_cancelled_def)
  have "nextCmd (app_manager sample_serving) = 0" by code_simp
  then have "nextCmd (life_manager sample_signalled) = 0"
    by (simp add: sample_signalled_def stop_context_def serving_def proxies_cancelled_def)
  then show "alive (life_manager sample_signalled) = {}"
    using minvD(4) [OF life_okD(2) [OF life.reach_inv [OF sample_signalled_reach]]] by (auto simp: alive_def procs_ok_def)
qed

section \<open>Properties\<close>



text \<open>The function \<open>stop_program\<close> is one way to the end: with a context that is done, main goes through all phases
  while the other goroutines run in its waits.\<close>

lemma life_manager_steps:
  assumes "mstep\<^sup>*\<^sup>* (life_manager l) m" "L_phase l < Ended"
  shows "life_step\<^sup>*\<^sup>* l (with_manager (\<lambda>_. m) l)"
  using assms
proof (induction rule: rtranclp_induct)
  case base
  then show ?case by (simp add: with_manager_def set_manager_def)
next
  case (step y z)
  have "life_step (with_manager (\<lambda>_. y) l) (with_manager (\<lambda>_. z) l)"
    using l_run [of "with_manager (\<lambda>_. y) l" "set_manager z (set_manager y (L_app l))"] p_manager [of "set_manager y (L_app l)" z]
      step by (simp add: with_manager_def set_manager_def)
  with step show ?case by (auto intro: rtranclp.rtrancl_into_rtrancl)
qed

definition ended :: "App \<Rightarrow> error option \<Rightarrow> Life" where
  "ended app err = \<lparr>L_phase = Ended, L_app = app, L_error = err\<rparr>"

lemma set_manager_twice [simp]: "set_manager m (set_manager m' app) = set_manager m app"
  by (simp add: set_manager_def)

lemma round_life:
  assumes "L_phase l = Stopping_tor" "L_error l = None" "shutdown_round e (life_manager l) = (m, finished)"
  shows "life_step l (if finished then ended (set_manager m (L_app l)) None else with_manager (\<lambda>_. m) l)"
proof -
  have "tor_round e l = (if finished then ended (set_manager m (L_app l)) None else with_manager (\<lambda>_. m) l)"
    using assms by (intro Life.equality) (simp_all add: tor_round_def ended_def with_manager_def)
  then show ?thesis using l_round [OF assms(1), of e] by simp
qed

lemma timeout_life:
  assumes "L_phase l = Stopping_tor"
  shows "life_step l (ended (L_app l) (Some (''wait for Tor processes to exit: '' @ ctxErr)))"
proof -
  have "tor_timeout ctxErr l = ended (L_app l) (Some (''wait for Tor processes to exit: '' @ ctxErr))"
    by (intro Life.equality) (simp_all add: tor_timeout_def ended_def)
  then show ?thesis using l_timeout [OF assms, of ctxErr] by simp
qed

lemma rounds_life:
  assumes "L_phase l = Stopping_tor" "L_error l = None" "reach minit mstep (life_manager l)" "shuttingDown (life_manager l)"
    and "list_all (\<lambda>(others, e). \<forall>x. reach minit mstep x \<longrightarrow> shuttingDown x \<longrightarrow> mstep\<^sup>*\<^sup>* x (others x)) waits"
    and "shutdown_rounds ctxErr e waits (life_manager l) = (m, err)"
  shows "life_step\<^sup>*\<^sup>* l (ended (set_manager m (L_app l)) err)"
  using assms
proof (induction waits arbitrary: l e)
  case Nil
  obtain m1 finished where r: "shutdown_round e (life_manager l) = (m1, finished)" by fastforce
  note 1 = round_life [OF Nil.prems(1,2) r]
  show ?case
  proof (cases finished)
    case False
    have "life_step (with_manager (\<lambda>_. m1) l) (ended (set_manager m1 (L_app l)) err)"
      using timeout_life [of "with_manager (\<lambda>_. m1) l" ctxErr] Nil.prems(1,6) r False by (simp add: with_manager_def)
    with 1 False r Nil.prems(6) show ?thesis by (simp add: rtranclp.rtrancl_into_rtrancl)
  qed (use 1 r Nil.prems(6) in auto)
next
  case (Cons w waits)
  obtain others e' where w: "w = (others, e')" by fastforce
  obtain m1 finished where r: "shutdown_round e (life_manager l) = (m1, finished)" by fastforce
  note 1 = round_life [OF Cons.prems(1,2) r]
  show ?case
  proof (cases finished)
    case False
    let ?l1 = "with_manager (\<lambda>_. m1) l" and ?l2 = "with_manager (\<lambda>_. others m1) l"
    have s1: "mstep\<^sup>*\<^sup>* (life_manager l) m1" using shutdown_round_steps [of "life_manager l" e] r by simp
    have m1: "reach minit mstep m1" "shuttingDown m1"
      using manager.reach_rtranclp [OF Cons.prems(3) s1] down_stays(1) [OF s1 manager.reach_inv [OF Cons.prems(3)] Cons.prems(4)] by simp_all
    then have s2: "mstep\<^sup>*\<^sup>* m1 (others m1)" using Cons.prems(5) by (simp add: w)
    have "life_step\<^sup>*\<^sup>* ?l1 ?l2" using life_manager_steps [of ?l1 "others m1"] s2 Cons.prems(1) by (simp add: with_manager_def)
    moreover have "life_step\<^sup>*\<^sup>* ?l2 (ended (set_manager m (L_app ?l2)) err)"
      using Cons.prems False r w manager.reach_rtranclp [OF m1(1) s2] down_stays(1) [OF s2 manager.reach_inv [OF m1(1)] m1(2)]
      by (intro Cons.IH [of _ e']) simp_all
    ultimately show ?thesis using 1 False by (simp add: with_manager_def)
  qed (use 1 r w Cons.prems(6) in auto)
qed

lemma stop_program_life:
  assumes "L_phase l = Waiting" "L_error l = None" "countryProxyCtx (life_manager l) = Some True" "reach minit mstep (life_manager l)"
    and "list_all (\<lambda>(others, e). \<forall>x. reach minit mstep x \<longrightarrow> shuttingDown x \<longrightarrow> mstep\<^sup>*\<^sup>* x (others x)) waits"
    and "stop_program ctxErr e waits (L_app l) = (app, err)"
  shows "life_step\<^sup>*\<^sup>* l (ended app err)"
proof -
  let ?m = "close_listeners (life_manager l)"
  let ?l1 = "with_manager (\<lambda>_. ?m) l" and ?l2 = "wake (with_manager (\<lambda>_. ?m) l)" and ?l3 = "web_closed (wake (with_manager (\<lambda>_. ?m) l))"
  obtain m where m: "Shutdown ctxErr e waits ?m = (m, err)" "app = set_manager m (L_app l)"
    using assms(6) by (auto simp: stop_program_def split: prod.splits)
  have w: "L_phase ?l2 = Closing_web" using assms(3) by (simp add: wake_def close_listeners_def)
  have "life_step\<^sup>*\<^sup>* l ?l1" by (rule life_manager_steps) (use assms(1) in \<open>auto intro: s_close_listeners\<close>)
  moreover have "life_step ?l1 ?l2" using assms(1) by (intro l_wake) simp
  moreover have "life_step ?l2 ?l3" by (rule l_web_closed [OF w])
  moreover have l3: "life_manager ?l3 = begin_shutdown ?m" "L_phase ?l3 = Stopping_tor" "L_error ?l3 = None"
      "set_manager m (L_app ?l3) = set_manager m (L_app l)"
    using assms(2,3) by (simp_all add: web_closed_def wake_def with_manager_def close_listeners_def)
  moreover have "reach minit mstep (begin_shutdown ?m)"
    by (rule reach_step [OF reach_step [OF assms(4) s_close_listeners] s_shutdown])
  moreover have "shuttingDown (begin_shutdown ?m)" by (simp add: begin_shutdown_def)
  ultimately show ?thesis
    using rounds_life [OF l3(2,3) _ _ assms(5), of ctxErr e m err] m
    by (simp add: Shutdown_def)
qed



end
