(* ===== verification/Client_Proofs.thy ===== *)
theory Client_Proofs
  imports Client_Routes Manager_Props "HOL-Library.Sublist"
begin

text \<open>
  What a session on a country port may do, and that it leaves the count of connections as it was.
\<close>

lemma acquire_cases:
  assumes "acquireInstance code m = (m1, r)"
  obtains (none) "m1 = m" "r = None"
  | (some) p where "r = Some p" "map_of (instances m) (normalizeCode code) = Some p" "Status (heap m p) \<in> {Running, Switching}"
      "\<not> draining (heap m p)" "m1 = modify p (\<lambda>i. i\<lparr>ActiveConnections := ActiveConnections i + 1\<rparr>) m"
proof (cases "map_of (instances m) (normalizeCode code)")
  case None
  with assms that(1) show ?thesis by (simp add: acquireInstance_def)
next
  case (Some p)
  show ?thesis
  proof (cases "Status (heap m p) \<in> {Running, Switching} \<and> \<not> draining (heap m p)")
    case True
    with Some assms show ?thesis by (intro that(2) [of p]) (auto simp: acquireInstance_def Let_def)
  next
    case False
    with Some assms show ?thesis by (intro that(1)) (auto simp: acquireInstance_def Let_def)
  qed
qed

text \<open>Acquiring and releasing an instance is a round trip.\<close>

lemma release_acquired:
  assumes "minv m" "acquireInstance code m = (m1, Some p)"
  shows "releaseInstance p m1 = m"
proof -
  have "ActiveConnections (heap m p) \<ge> 0" using inst_okD [OF assms(1), of p] by (simp add: inst_ok_def)
  with assms(2) show ?thesis
    by (cases rule: acquire_cases) (auto simp: releaseInstance_def modify_def)
qed

lemma proxyBothWays_sent:
  "proxyBothWays up down c t = (c', t') \<Longrightarrow> sent t' = sent t @ take up (incoming c) \<and> closed c' = closed c"
  by (auto simp: proxyBothWays_def proxyCopy_def close_write_def)

lemma conn_write_sent: "conn_write bs c = (r, c') \<Longrightarrow> sent c' = (if r = None then sent c @ bs else sent c) \<and> incoming c' = incoming c"
  by (auto simp: conn_write_def split: list.splits option.splits)

lemma read_full_sent: "read_full n c = (r, c') \<Longrightarrow> sent c' = sent c"
  by (auto simp: read_full_def split: if_splits)

lemma close_conn_simps [simp]: "closed (close_conn c)" "sent (close_conn c) = sent c" "incoming (close_conn c) = incoming c"
  by (simp_all add: close_conn_def)

text \<open>A session that got a connection to Tor.\<close>

lemma session_with_tor:
  assumes "negotiateClientAuth code (key (clientAuth m)) client = (True, c1)" "acquireInstance code m = (m1, Some p)"
    and "forwardCountry io code client m = (m', client', Some t)"
  obtains t0 where "dialTor io (join_host_port ''127.0.0.1'' (itoa (SocksPort (heap m1 p)))) = Inr t0"
    "prefix (sent t) (sent t0 @ [CHR 0x05, CHR 0x01, CHR 0x00] @ incoming c1)" "closed t"
proof -
  obtain t0 where t0: "dialTor io (join_host_port ''127.0.0.1'' (itoa (SocksPort (heap m1 p)))) = Inr t0"
    using assms by (auto simp: forwardCountry_def Let_def split: sum.splits)
  moreover have "prefix (sent t) (sent t0 @ [CHR 0x05, CHR 0x01, CHR 0x00] @ incoming c1)"
    using assms t0
    by (auto simp: forwardCountry_def Let_def take_is_prefix
        dest!: conn_write_sent read_full_sent proxyBothWays_sent split: prod.splits sum.splits option.splits if_splits)
  moreover have "closed t"
    using assms t0 by (auto simp: forwardCountry_def Let_def split: sum.splits prod.splits option.splits if_splits)
  ultimately show thesis by (rule that)
qed

text \<open>C12: A session on a country port is safe.  The connection to Tor is opened only for a client that
  authenticated with the country code and the client API key, and only to an instance of that country
  that is running or switching and not draining; Tor receives nothing but the greeting without
  authentication and the bytes that the client sent after its credentials; both connections are closed
  at the end; and if nobody else acts meanwhile the manager is as before, so no connection stays counted
  on any path.\<close>

theorem country_session:
  assumes "reach minit mstep m" and "forwardCountry io code client m = (m', client', tor)"
  shows "(during io = id \<longrightarrow> m' = m) \<and> closed client'
    \<and> (case tor of None \<Rightarrow> True
       | Some t \<Rightarrow> closed t \<and> (\<exists>c1 p t0. negotiateClientAuth code (key (clientAuth m)) client = (True, c1)
           \<and> map_of (instances m) (normalizeCode code) = Some p \<and> Status (heap m p) \<in> {Running, Switching} \<and> \<not> draining (heap m p)
           \<and> dialTor io (join_host_port ''127.0.0.1'' (itoa (SocksPort (heap m p)))) = Inr t0
           \<and> prefix (sent t) (sent t0 @ [CHR 0x05, CHR 0x01, CHR 0x00] @ incoming c1)))"
proof -
  have m: "minv m" using assms(1) by (rule manager.reach_inv)
  obtain ok c1 where n: "negotiateClientAuth code (key (clientAuth m)) client = (ok, c1)" by fastforce
  show ?thesis
  proof (cases ok)
    case False
    with n assms(2) show ?thesis by (auto simp: forwardCountry_def)
  next
    case True
    obtain m1 r where a: "acquireInstance code m = (m1, r)" by fastforce
    from a show ?thesis
    proof (cases rule: acquire_cases)
      case none
      with a n True assms(2) show ?thesis by (auto simp: forwardCountry_def)
    next
      case (some p)
      have port: "SocksPort (heap m1 p) = SocksPort (heap m p)" using some(5) by simp
      have undo: "during io = id \<Longrightarrow> releaseInstance p (during io m1) = m"
        using release_acquired [OF m] a some(1) by simp
      have done': "(during io = id \<longrightarrow> m' = m) \<and> closed client'"
        using undo a n True some(1) assms(2)
        by (auto simp: forwardCountry_def Let_def split: sum.splits prod.splits option.splits if_splits)
      show ?thesis
      proof (cases tor)
        case (Some t)
        then obtain t0 where "dialTor io (join_host_port ''127.0.0.1'' (itoa (SocksPort (heap m p)))) = Inr t0"
            "prefix (sent t) (sent t0 @ [CHR 0x05, CHR 0x01, CHR 0x00] @ incoming c1)" "closed t"
          using session_with_tor [of code m client c1 m1 p io m' client' t] a n True some(1) assms(2) port by metis
        with done' show ?thesis using Some n True some by auto
      qed (use done' in simp)
    qed
  qed
qed

definition us_serving :: Manager where
  "us_serving = UpdateClientAPIKey ''secret'' (fst (markInstanceRunning 0 0 ''1.2.3.4'' (fst (ready_section 0 0 us_started))))"

definition sample_session :: SessionIO where
  "sample_session = \<lparr>dialTor = (\<lambda>address. Inr (sample_conn [CHR 0x05, CHR 0x00])), bytesUp = 9, bytesDown = 9, during = id\<rparr>"

definition sample_client :: Conn where
  "sample_client = sample_conn ([CHR 0x05, CHR 0x01, CHR 0x02] @ dial_auth ''us'' ''secret'' @ [CHR 0x05])"

lemma us_serving_reach: "reach minit mstep us_serving"
proof -
  have "reach minit mstep us_started"
    unfolding us_started_def by (rule reach_step [OF sample_start_reach s_start [OF sample_start_us(4)]])
  moreover have "mstep\<^sup>*\<^sup>* us_started us_serving"
    unfolding us_serving_def
    by (rule steps_then, rule s_client_key, rule steps_then, rule s_running, rule r_into_rtranclp, rule s_ready)
  ultimately show ?thesis by (rule manager.reach_rtranclp)
qed

lemma us_serving_facts: "key (clientAuth us_serving) = ''secret''" "map_of (instances us_serving) ''us'' = Some 0"
  "Status (heap us_serving 0) = Running" "\<not> draining (heap us_serving 0)"
  using us_started_facts sample_start_lookup(1)
  by (simp_all add: us_serving_def UpdateClientAPIKey_def UpdateKey_def ready_section_def markInstanceRunning_def)

theorem country_session_witness:
  "\<exists>m' client' t. forwardCountry sample_session ''us'' sample_client us_serving = (m', client', Some t)
     \<and> m' = us_serving \<and> closed t \<and> prefix (sent t) [CHR 0x05, CHR 0x01, CHR 0x00, CHR 0x05]"
proof -
  obtain c1 where n: "negotiateClientAuth ''us'' ''secret'' sample_client = (True, c1)" "incoming c1 = [CHR 0x05]"
  proof -
    have "fst (negotiateClientAuth ''us'' ''secret'' sample_client)
        \<and> incoming (snd (negotiateClientAuth ''us'' ''secret'' sample_client)) = [CHR 0x05]" by code_simp
    then show thesis using that by (metis prod.collapse)
  qed
  obtain m' client' tor where f: "forwardCountry sample_session ''us'' sample_client us_serving = (m', client', tor)"
    by (metis prod_cases3)
  have "tor \<noteq> None"
    using f n us_serving_facts
    by (auto simp: forwardCountry_def acquireInstance_def sample_session_def Let_def split: prod.splits sum.splits option.splits if_splits)
  then obtain t where t: "tor = Some t" by auto
  note s = country_session [OF us_serving_reach f, unfolded t]
  have "during sample_session = id" "dialTor sample_session x = Inr (sample_conn [CHR 0x05, CHR 0x00])" for x
    by (simp_all add: sample_session_def)
  moreover have "sent (sample_conn [CHR 0x05, CHR 0x00]) = []" by code_simp
  ultimately show ?thesis using s f t n us_serving_facts by auto
qed

end
