(* ===== verification/Spec2Isabelle.thy ===== *)
theory Spec2Isabelle
  imports Program_Life Client_Proofs
begin

text \<open>
  \<^bold>\<open>Tor Country Manager: a verification of the program under \<^verbatim>\<open>src/\<close>.\<close>

  The program runs one Tor process for each of several countries, gives every country a fixed SOCKS5 port
  for its clients and one more port that follows the active country, chooses and changes exit nodes, and
  offers a web interface and a client API.  Its parts, and the theories that model them:

  \<^item> \<^bold>\<open>Go.\<close>  \<open>Go_Prelude\<close> (64-bit integers, byte strings, the functions of \<^verbatim>\<open>strings\<close> and \<^verbatim>\<open>strconv\<close> in use),
    \<open>Go_Collections\<close> (maps as association lists, \<^verbatim>\<open>sort.Slice\<close>, transition systems with the locale
    \<open>invariant_system\<close>), \<open>Go_Net\<close> (addresses, connections), \<open>Go_Http\<close> (paths, requests, cookies),
    \<open>Go_Encoding\<close> (base64), \<open>Go_Crypto\<close> (SHA-256, HMAC).
  \<^item> \<^bold>\<open>Configuration.\<close>  \<open>Configuration\<close> is \<^verbatim>\<open>config.go\<close>: the record, the defaults, loading, validation and
    the fixed ports of the countries.
  \<^item> \<^bold>\<open>Authentication.\<close>  \<open>Auth\<close> is \<^verbatim>\<open>auth.go\<close> and \<^verbatim>\<open>runtime_auth.go\<close>: PBKDF2 password hashes, sessions, the
    limit on failed logins, the client API key; \<open>Auth_Proofs\<close> has its properties.
  \<^item> \<^bold>\<open>Settings.\<close>  \<open>Settings\<close> is \<^verbatim>\<open>settings.go\<close> and \<^verbatim>\<open>replace_file_unix.go\<close>, \<^verbatim>\<open>replace_file_windows.go\<close>: the
    stored configuration and the replacement of its file.
  \<^item> \<^bold>\<open>Protocols.\<close>  \<open>Socks\<close> is \<^verbatim>\<open>socks5.go\<close> and the authentication of \<^verbatim>\<open>client_routes.go\<close>; \<open>Torrc\<close> is the
    configuration text and the control protocol in \<^verbatim>\<open>manager.go\<close>.
  \<^item> \<^bold>\<open>Manager.\<close>  \<open>Manager_State\<close>, \<open>Manager_Ops\<close>, \<open>Manager_Run\<close> and \<open>Manager_Reports\<close> are \<^verbatim>\<open>manager.go\<close>: the
    instances of the countries, start and stop, the goroutines that follow a process, automatic
    restarts, replacement of a node, limits, reports, shutdown.  \<open>Manager_Inv\<close> and \<open>Manager_Inv2\<close> prove
    the invariant of every section, \<open>Manager_Steps\<close> makes the sections a transition system.
  \<^item> \<^bold>\<open>Proxies.\<close>  \<open>Client_Routes\<close> is \<^verbatim>\<open>client_routes.go\<close> and \<^verbatim>\<open>proxy.go\<close>: listeners, sessions, routes.
  \<^item> \<^bold>\<open>Catalogue.\<close>  \<open>Catalog_Names\<close> and \<open>Catalog\<close> are \<^verbatim>\<open>catalog.go\<close>: the directory of exit nodes, its refresh,
    the latency checks, the choice of a node.
  \<^item> \<^bold>\<open>Health.\<close>  \<open>Health\<close> is \<^verbatim>\<open>health.go\<close>: probes, failure counts, automatic switches, the report.
  \<^item> \<^bold>\<open>Web server and program.\<close>  \<open>Http_Api\<close> is the table of routes of \<^verbatim>\<open>main.go\<close> with all handlers and the
    authorisation in front of them; \<open>Program\<close> is \<^verbatim>\<open>main\<close>: the start with its reasons to give up, the goroutines
    of the servers, and the phases of its end (the record \<open>Life\<close>).  \<open>Program_Proofs\<close> and \<open>Program_Life\<close> make
    the composed program a transition system, without and with these phases.

  The web server and the health monitor call the manager and the catalogue; the manager calls the
  protocols; all of them read the configuration.  The record \<open>App\<close> holds the four stateful components.

  \<^bold>\<open>How state and operations correspond.\<close>  A struct is a record with the source's fields, an enumeration of
  strings is a datatype, a map is an association list with distinct keys whose order stands for the
  unspecified order of iteration, a pointer to an instance is an address in the \<open>heap\<close> of the manager.
  Errors are values: \<open>error option\<close>, or the left part of a sum.  Integers are \<open>int\<close> with \<open>wrap64\<close> written
  where the source's sums can leave 64 bits, counters that wrap are words.  Clock readings, random bytes,
  outcomes of system calls and answers of servers are arguments (\<open>Env\<close>, \<open>SaveIO\<close>, \<open>ApiIO\<close> and others), so a
  theorem holds for all of them.  What a decoder of JSON makes of a text is an argument as well.

  A mutex is not modelled: each part of an operation that runs under it is a definition (the
  \<open>_section\<close> definitions of the manager), an operation is their sequence, and the step relations allow any
  interleaving of the sections of all operations and goroutines.  A goroutine is a task that the manager
  records, or a pending check of the catalogue.  Where an operation waits, what the rest of the program
  does meanwhile is an argument (\<open>meanwhile\<close>, \<open>during\<close>, \<open>others\<close>).  The writing of the state file, which
  happens under a lock of its own, is one step.  \<^verbatim>\<open>sort.Slice\<close> is a stable sort; only its order is used.

  \<^bold>\<open>Loops and bounds.\<close>  Every function terminates: loops over data are recursions over the data, and a loop that
  polls until a deadline takes the list of the polls it makes before the deadline (\<open>awaitReady\<close>,
  \<open>awaitBootstrap\<close>, \<open>shutdown_rounds\<close>, \<open>StartMonitor\<close>) or is one round with a flag that says whether it goes on
  (\<open>drainInstance\<close>, \<open>completeReplacement\<close>).  The one constant is the source's own: 32 attempts to reserve a
  port.  That shutdown and automatic restarts come to an end is proved, not assumed.

  \<^bold>\<open>What the lemmas show.\<close>  Claims C1 to C40 are the properties, each after a text with its number.
  \<^item> The whole program (this theory, \<open>Program_Proofs\<close>, \<open>Program_Life\<close>, \<open>Http_Proofs\<close>): all states of the
    program, to its end, are states of the verified components; main returns in the right order and leaves
    no process when it is not cut off; only authorised requests act; the example configuration works.
  \<^item> The manager (\<open>Manager_Runs\<close>, \<open>Manager_Props\<close>, \<open>Manager_Limits\<close>, \<open>Manager_Recovery\<close>, \<open>Manager_Crash\<close>,
    \<open>Manager_Shutdown\<close>): whole operations are runs of the transition system; processes, counters and ports
    are consistent in every reachable state; the limit on countries holds; a replacement can be taken
    back; the state survives a restart; crash loops end; shutdown leaves no process and ends.
  \<^item> Catalogue and health (\<open>Catalog_Proofs\<close>, \<open>Catalog_Select\<close>, \<open>Health_Proofs\<close>): well-formed nodes, what a
    refresh keeps, the policies of selection against a specification over sets, rare and justified
    switches, none in a global failure.
  \<^item> Protocols and proxies (\<open>Socks\<close>, \<open>Torrc\<close>, \<open>Client_Proofs\<close>, \<open>Client_Listeners\<close>): who gets through a
    country port, exact dialogues, quoting that cannot be broken out of, sessions that release what they
    take, listeners on the fixed ports only, and no new one for a request after the end of their context.
  \<^item> Settings, configuration, authentication: valid and persistent settings, disjoint ports, login limits,
    session lifetimes, revocation, and what a broken-off write of the password file does to a restart.

  Interfaces between theories are locales: \<open>invariant_system\<close> (interpreted for the password store, the
  catalogue, the manager with its listeners, the shutdown, the program and its life), \<open>ranked_system\<close>
  (crashes), \<open>manager_origin\<close> (the states from which the program is seen to run its manager, interpreted
  for the states at start and for any later moment), \<open>atomic_update\<close> (every write
  of settings), \<open>strict_weak\<close> (the orders that are sorted by).  The phases of main are a \<open>linorder\<close>.

  \<^bold>\<open>Not modelled.\<close>  The parsing of command line flags and the default path, which are functions of the
  operating system (the path and the flag are arguments of \<open>main_start\<close>); the timeouts and connections of the
  HTTP server, of which \<open>main\<close> only sees the error it ends with; the JSON encoder and decoder as text
  processors; logging; TLS; the web page; scripts of the build.  Signals arrive as steps at any moment.  A
  request path with an encoded slash inside a segment is not modelled.  What is left of \<open>src/\<close> is
  declarations of packages, imports, locks and log lines.
  The trusted laws of the outside are hypotheses where they matter: clocks do not go back
  (\<open>clock_after\<close>), salts have sixteen bytes (\<open>salt_ok\<close>), sums of ports fit in 64 bits (\<open>port_sums_fit\<close>; that
  validation does not ensure this is C40), the password file is not cut off while it is written
  (\<open>whole_write\<close>), the configuration file is not a mount point that must be rewritten in place
  (\<open>Rename_busy\<close>).
\<close>

section \<open>The program as a whole\<close>

text \<open>C1: The program never leaves the states its components were verified in.  In every state of its life -
  after requests of any content, rounds of the health monitor, steps of its goroutines, signals and failures
  of its servers, in any order and until main has returned - the manager, the catalogue and the password
  store are in states that their own operations reach, so that all their invariants hold together; the
  settings in memory are the ones that a restart reads back; the reports of state and health exist, with one
  entry for each configured country, so that neither they nor the monitor's rounds follow a missing instance.\<close>

theorem program_invariant:
  assumes "reach (linit windows) life_step l"
  shows "reach minit mstep (life_manager l) \<and> reach cinit cstep (app_catalog (L_app l)) \<and> reach auth_init auth_step (A_auth (L_app l))
    \<and> (configFile (A_store (L_app l)) = Holds (cfg (A_store (L_app l)))
       \<or> configFile (A_store (L_app l)) = Absent \<and> cfg (A_store (L_app l)) = defaultConfig windows)
    \<and> (\<exists>state. State (life_manager l) = Some state
         \<and> map (Code \<circ> ICountry) (S_Instances state) = map (normalizeCode \<circ> Code) (Countries (mcfg (life_manager l))))
    \<and> (\<exists>report. Report t (A_routes (L_app l)) = Some report)
    \<and> (list_all round_ok rounds \<longrightarrow> (\<exists>w. StartMonitor rounds (A_routes (L_app l)) = Some w))"
proof -
  have ok: "app_ok minit windows (L_app l)" by (rule life_okD(1) [OF life.reach_inv [OF assms]])
  then have m: "reach minit mstep (life_manager l)" by (rule any_origin.app_okD(3))
  obtain state where s: "State (life_manager l) = Some state"
      "map (Code \<circ> ICountry) (S_Instances state) = map (normalizeCode \<circ> Code) (Countries (mcfg (life_manager l)))"
    using state_report_complete [OF m] by blast
  have "\<exists>report. Report t (A_routes (L_app l)) = Some report" using s(1) by (simp add: Report_def Let_def split_beta)
  moreover have "list_all round_ok rounds \<longrightarrow> (\<exists>w. StartMonitor rounds (A_routes (L_app l)) = Some w)"
    using any_origin.StartMonitor_ok [of "A_routes (L_app l)" rounds] ok by (auto simp: app_ok_def)
  ultimately show ?thesis using ok m s by (auto simp: app_ok_def routes_ok_def reads_back_def)
qed

theorem program_invariant_witness:
  "\<exists>report. Report 0 (A_routes (L_app (web_closed (wake sample_signalled)))) = Some report"
proof -
  have "reach (linit False) life_step (web_closed (wake sample_signalled))"
    by (rule reach_step, rule reach_step, rule sample_signalled_reach, rule l_wake, rule sample_signalled_facts, rule l_web_closed)
      (simp add: wake_def sample_signalled_facts)
  then show ?thesis using program_invariant [where t = 0 and rounds = "[]"] by blast
qed

text \<open>C37: The program starts from the configuration that it writes as an example: after a run with the flag
  write-example-config that succeeded, a start with this file, without settings in the environment and
  with a usable state directory, serves with exactly the default configuration, stored and in force.\<close>

theorem example_config_starts:
  assumes "main_start windows io ex configPath True = Wrote_config file"
    and "config_file windows (M_configFile io') = file" and "M_getenv io' = (\<lambda>_. [])"
    and "M_mkdirState io' = None" and "M_passwordFile io' = Inr content"
  shows "\<exists>app. main_start windows io' ex' configPath False = Serving app
    \<and> cfg (A_store app) = defaultConfig windows \<and> configFile (A_store app) = Holds (defaultConfig windows)
    \<and> A_cfg app = defaultConfig windows"
proof -
  have f: "file = Holds (defaultConfig windows)"
    using assms(1) by (auto simp: main_start_def writeExampleConfig_def split: option.splits)
  then obtain g where g: "M_configFile io' = File_decoded g" "g (defaultConfig windows) = defaultConfig windows"
    using assms(2) by (cases "M_configFile io'") (simp_all add: config_file_def)
  then have "loadConfig windows (\<lambda>_. []) (M_configFile io') = Inr \<lparr>Stored = defaultConfig windows, Effective = defaultConfig windows\<rparr>"
    by (simp add: loadConfig_def effective_config_def default_config_valid)
  moreover obtain auth where "NewAuthStore (defaultConfig windows) (Inr content) = Inr auth"
    by (cases content) (simp_all add: NewAuthStore_def Let_def)
  ultimately show ?thesis
    using assms(2-5) f by (simp add: main_start_def start_program_def NewConfigStore_def Let_def)
qed

theorem example_config_starts_witness:
  "\<exists>app. main_start True (sample_main\<lparr>M_configFile := File_decoded (\<lambda>_. defaultConfig True)\<rparr>) sample_example ''config.json'' False = Serving app
    \<and> cfg (A_store app) = defaultConfig True"
proof -
  have "main_start True sample_main sample_example ''config.json'' True = Wrote_config (Holds (defaultConfig True))"
    by (simp add: main_start_def writeExampleConfig_def sample_example_def)
  then show ?thesis
    using example_config_starts [of True sample_main sample_example "''config.json''" "Holds (defaultConfig True)"
        "sample_main\<lparr>M_configFile := File_decoded (\<lambda>_. defaultConfig True)\<rparr>" None sample_example]
    by (auto simp: config_file_def sample_main_def)
qed

end
